(* ===== verification/ZT_Prelude.thy ===== *)
theory ZT_Prelude
  imports Main "HOL-Library.Word" "HOL-Library.Sublist"
begin

text \<open>
  Shared vocabulary of the development: the parts of the Go language and of its standard
  library that several components of the ZeroTrust backend use.

  \<^item> Go strings are byte sequences, modelled as \<open>string\<close>. The functions of package
    \<open>strings\<close> are written for ASCII text: \<open>TrimSpace\<close> knows the six ASCII spaces, \<open>ToLower\<close>,
    \<open>ToUpper\<close> and \<open>EqualFold\<close> the 26 letters.
  \<^item> \<open>int\<close> and \<open>time.Duration\<close> are 64-bit; where a product or a sum can leave that range the model
    applies \<open>wrap64\<close>. Instants (\<open>time.Time\<close>) are nanoseconds since the epoch, as HOL \<open>int\<close>.
  \<^item> \<open>map[string]string\<close> is an association list with \<open>map_of\<close> as lookup; a missing key reads as
    the empty string, as in Go.
\<close>

named_theorems zt_defs "definitions unfolded in evaluation proofs"
named_theorems key_simps "disjointness and injectivity of the store keys"

section \<open>Results\<close>

text \<open>A Go function returning \<open>(T, error)\<close> is a value of \<open>error + T\<close>: \<open>Inl\<close> the error.\<close>

definition is_ok :: "'e + 'a \<Rightarrow> bool" where
  "is_ok r = (case r of Inl _ \<Rightarrow> False | Inr _ \<Rightarrow> True)"

lemma is_ok_simps [simp]: "\<not> is_ok (Inl e)" "is_ok (Inr x)"
  by (simp_all add: is_ok_def)

lemma is_ok_iff: "is_ok r \<longleftrightarrow> (\<exists>x. r = Inr x)"
  by (cases r) auto

section \<open>64-bit integers and time\<close>

definition wrap64 :: "int \<Rightarrow> int" where
  "wrap64 i = (i + 2 ^ 63) mod 2 ^ 64 - 2 ^ 63"

lemma wrap64_id: "- (2 ^ 63) \<le> i \<Longrightarrow> i < 2 ^ 63 \<Longrightarrow> wrap64 i = i"
  by (simp add: wrap64_def)

lemma wrap64_bounds: "- (2 ^ 63) \<le> wrap64 i \<and> wrap64 i < 2 ^ 63"
  by (simp add: wrap64_def)

type_synonym instant = int
type_synonym duration = int

abbreviation go_second :: duration where "go_second \<equiv> 1000000000"
abbreviation go_minute :: duration where "go_minute \<equiv> 60000000000"
abbreviation go_hour :: duration where "go_hour \<equiv> 3600000000000"

section \<open>Package strings\<close>

definition is_space :: "char \<Rightarrow> bool" where
  "is_space c = (c \<in> set [CHR '' '', CHR 0x09, CHR 0x0A, CHR 0x0B, CHR 0x0C, CHR 0x0D])"

definition TrimSpace :: "string \<Rightarrow> string" where
  "TrimSpace s = rev (dropWhile is_space (rev (dropWhile is_space s)))"

fun Split :: "char \<Rightarrow> string \<Rightarrow> string list" where
  "Split c [] = [[]]"
| "Split c (x # xs) = (if x = c then [] # Split c xs
     else (case Split c xs of [] \<Rightarrow> [[x]] | y # ys \<Rightarrow> (x # y) # ys))"

fun Join :: "string \<Rightarrow> string list \<Rightarrow> string" where
  "Join sep [] = []"
| "Join sep [x] = x"
| "Join sep (x # y # ys) = x @ sep @ Join sep (y # ys)"

definition HasPrefix :: "string \<Rightarrow> string \<Rightarrow> bool" where
  "HasPrefix s p = (take (length p) s = p)"

definition HasSuffix :: "string \<Rightarrow> string \<Rightarrow> bool" where
  "HasSuffix s p = (length p \<le> length s \<and> drop (length s - length p) s = p)"

definition TrimPrefix :: "string \<Rightarrow> string \<Rightarrow> string" where
  "TrimPrefix s p = (if HasPrefix s p then drop (length p) s else s)"

definition lower_char :: "char \<Rightarrow> char" where
  "lower_char c = (let n = of_char c :: nat in if 65 \<le> n \<and> n \<le> 90 then char_of (n + 32) else c)"

definition upper_char :: "char \<Rightarrow> char" where
  "upper_char c = (let n = of_char c :: nat in if 97 \<le> n \<and> n \<le> 122 then char_of (n - 32) else c)"

definition ToLower :: "string \<Rightarrow> string" where
  "ToLower = map lower_char"

definition ToUpper :: "string \<Rightarrow> string" where
  "ToUpper = map upper_char"

definition EqualFold :: "string \<Rightarrow> string \<Rightarrow> bool" where
  "EqualFold a b = (ToLower a = ToLower b)"

lemma Split_nonempty [simp]: "Split c s \<noteq> []"
  by (induction s) (auto split: list.splits)

lemma Join_Split: "Join [c] (Split c s) = s"
proof (induction s)
  case Nil
  then show ?case by simp
next
  case (Cons x xs)
  obtain y ys where "Split c xs = y # ys" by (cases "Split c xs") auto
  with Cons show ?case by (cases ys) auto
qed

lemma Split_no_sep: "p \<in> set (Split c s) \<Longrightarrow> c \<notin> set p"
proof (induction s arbitrary: p)
  case Nil
  then show ?case by simp
next
  case (Cons x xs)
  then show ?case by (cases "Split c xs") (auto split: if_splits)
qed

lemma dropWhile_no_head: "dropWhile P xs = [] \<or> \<not> P (hd (dropWhile P xs))"
  by (induction xs) auto

lemma dropWhile_fix: "xs = [] \<or> \<not> P (hd xs) \<Longrightarrow> dropWhile P xs = xs"
  by (cases xs) auto

lemma TrimSpace_idem: "TrimSpace (TrimSpace s) = TrimSpace s"
proof -
  let ?a = "dropWhile is_space s"
  let ?b = "dropWhile is_space (rev ?a)"
  have ends: "?b = [] \<or> \<not> is_space (hd ?b)" by (rule dropWhile_no_head)
  have starts: "rev ?b = [] \<or> \<not> is_space (hd (rev ?b))"
  proof (cases "?b = []")
    case False
    have "suffix ?b (rev ?a)" by (rule suffix_dropWhile)
    then obtain zs where "rev ?a = zs @ ?b" by (auto simp: suffix_def)
    then have "?a = rev ?b @ rev zs" by (metis rev_append rev_rev_ident)
    with False have "hd (rev ?b) = hd ?a" by (metis Nil_is_rev_conv hd_append2)
    moreover have "?a \<noteq> []" using False by (metis dropWhile.simps(1) rev.simps(1))
    ultimately show ?thesis using dropWhile_no_head [of is_space s] by auto
  qed simp
  have fix1: "dropWhile is_space (rev ?b) = rev ?b"
    using starts by (rule dropWhile_fix)
  have "dropWhile is_space ?b = ?b" using ends by (rule dropWhile_fix)
  with fix1 show ?thesis by (simp add: TrimSpace_def)
qed

lemma EqualFold_refl [simp]: "EqualFold a a"
  by (simp add: EqualFold_def)

lemma EqualFold_sym: "EqualFold a b = EqualFold b a"
  by (auto simp: EqualFold_def)

lemma EqualFold_trans: "EqualFold a b \<Longrightarrow> EqualFold b c \<Longrightarrow> EqualFold a c"
  by (simp add: EqualFold_def)

lemma lower_char_idem [simp]: "lower_char (lower_char c) = lower_char c"
  by (auto simp: lower_char_def Let_def)

lemma ToLower_idem [simp]: "ToLower (ToLower s) = ToLower s"
  by (simp add: ToLower_def comp_def)

lemma is_space_iff: "is_space c \<longleftrightarrow> (let n = of_char c :: nat in n = 32 \<or> (9 \<le> n \<and> n \<le> 13))"
proof -
  have eq: "c = d \<longleftrightarrow> (of_char c :: nat) = of_char d" for d by simp
  show ?thesis
    unfolding is_space_def Let_def list.set insert_iff empty_iff eq by simp arith
qed

lemma is_space_lower [simp]: "is_space (lower_char c) = is_space c"
  by (auto simp: is_space_iff lower_char_def Let_def)

lemma TrimSpace_ToLower: "TrimSpace (ToLower s) = ToLower (TrimSpace s)"
proof -
  have "dropWhile is_space (map lower_char xs) = map lower_char (dropWhile is_space xs)" for xs
    by (simp add: dropWhile_map comp_def)
  then show ?thesis by (simp add: TrimSpace_def ToLower_def rev_map)
qed

lemma HasPrefix_append [simp]: "HasPrefix (p @ s) p"
  by (simp add: HasPrefix_def)

lemma TrimPrefix_append [simp]: "TrimPrefix (p @ s) p = s"
  by (simp add: TrimPrefix_def)

section \<open>Package strconv\<close>

definition is_digit :: "char \<Rightarrow> bool" where
  "is_digit c = (let n = of_char c :: nat in 48 \<le> n \<and> n \<le> 57)"

definition digit_val :: "char \<Rightarrow> nat" where
  "digit_val c = (of_char c :: nat) - 48"

datatype num_error = ErrSyntax | ErrRange

text \<open>
  \<open>strconv.ParseUint\<close> in base 10 reads digit by digit and stops at the first offence, so an
  overflow is reported before a later bad character is seen.
\<close>

fun parse_digits :: "int \<Rightarrow> string \<Rightarrow> num_error + int" where
  "parse_digits n [] = Inr n"
| "parse_digits n (c # cs) =
     (if \<not> is_digit c then Inl ErrSyntax
      else if 2 ^ 64 \<le> n * 10 + int (digit_val c) then Inl ErrRange
      else parse_digits (n * 10 + int (digit_val c)) cs)"

text \<open>\<open>strconv.Atoi\<close>: the value is returned together with the error, as the callers that drop
  the error see it (0 on a syntax error, the nearest bound on a range error).\<close>

definition Atoi :: "string \<Rightarrow> int \<times> num_error option" where
  "Atoi s =
    (let neg = (case s of c # _ \<Rightarrow> c = CHR ''-'' | [] \<Rightarrow> False);
         rest = (case s of c # cs \<Rightarrow> if c = CHR ''-'' \<or> c = CHR ''+'' then cs else s | [] \<Rightarrow> [])
     in if rest = [] then (0, Some ErrSyntax)
        else case parse_digits 0 rest of
          Inl ErrSyntax \<Rightarrow> (0, Some ErrSyntax)
        | Inl ErrRange \<Rightarrow> (if neg then - (2 ^ 63) else 2 ^ 63 - 1, Some ErrRange)
        | Inr n \<Rightarrow> if \<not> neg \<and> 2 ^ 63 \<le> n then (2 ^ 63 - 1, Some ErrRange)
                    else if neg \<and> 2 ^ 63 < n then (- (2 ^ 63), Some ErrRange)
                    else (if neg then - n else n, None))"

definition ParseBool :: "string \<Rightarrow> bool option" where
  "ParseBool s =
    (if s \<in> set [''1'', ''t'', ''T'', ''true'', ''TRUE'', ''True''] then Some True
     else if s \<in> set [''0'', ''f'', ''F'', ''false'', ''FALSE'', ''False''] then Some False
     else None)"

lemma parse_digits_nonneg: "0 \<le> n \<Longrightarrow> parse_digits n s = Inr m \<Longrightarrow> 0 \<le> m"
  by (induction n s rule: parse_digits.induct) (auto split: if_splits)

lemma Atoi_bounds: "- (2 ^ 63) \<le> fst (Atoi s) \<and> fst (Atoi s) < 2 ^ 63"
proof -
  have "- (2 ^ 63) < m" if "parse_digits (int k) r = Inr m" for k r m
    using parse_digits_nonneg [OF _ that] by simp
  from this this [of 0] show ?thesis
    by (auto simp: Atoi_def Let_def split: sum.splits num_error.splits list.splits) fastforce+
qed

section \<open>Package encoding/hex\<close>

type_synonym bytes = "8 word list"

definition hex_digit :: "nat \<Rightarrow> char" where
  "hex_digit n = (if n < 10 then char_of (48 + n) else char_of (87 + n))"

definition hex_of_byte :: "8 word \<Rightarrow> string" where
  "hex_of_byte b = [hex_digit (unat b div 16), hex_digit (unat b mod 16)]"

definition hex_encode :: "bytes \<Rightarrow> string" where
  "hex_encode bs = concat (map hex_of_byte bs)"

definition is_hex_char :: "char \<Rightarrow> bool" where
  "is_hex_char c = (let n = of_char c :: nat in (48 \<le> n \<and> n \<le> 57) \<or> (97 \<le> n \<and> n \<le> 102))"

lemma hex_digit_inj: "a < 16 \<Longrightarrow> b < 16 \<Longrightarrow> hex_digit a = hex_digit b \<Longrightarrow> a = b"
proof -
  assume *: "a < 16" "b < 16" "hex_digit a = hex_digit b"
  from *(3) have "(of_char (hex_digit a) :: nat) = of_char (hex_digit b)" by simp
  with *(1,2) show "a = b"
    by (auto simp: hex_digit_def split: if_splits)
qed

lemma is_hex_char_hex_digit: "n < 16 \<Longrightarrow> is_hex_char (hex_digit n)"
  by (auto simp: is_hex_char_def hex_digit_def Let_def)

lemma byte_div16: "unat (x :: 8 word) div 16 < 16"
proof -
  have "unat x < 2 ^ LENGTH(8)" by (rule unsigned_less)
  then show ?thesis by simp
qed

lemma hex_of_byte_inj: "hex_of_byte a = hex_of_byte b \<longleftrightarrow> a = b"
proof
  assume eq: "hex_of_byte a = hex_of_byte b"
  from eq have "unat a div 16 = unat b div 16" and "unat a mod 16 = unat b mod 16"
    by (auto simp: hex_of_byte_def intro: hex_digit_inj byte_div16)
  then have "unat a = unat b" by (metis div_mult_mod_eq)
  then show "a = b" by (simp add: word_unat_eq_iff)
qed simp

lemma hex_encode_inj: "hex_encode as = hex_encode bs \<longleftrightarrow> as = bs"
proof
  show "hex_encode as = hex_encode bs \<Longrightarrow> as = bs"
  proof (induction as arbitrary: bs)
    case Nil
    then show ?case by (cases bs) (auto simp: hex_encode_def hex_of_byte_def)
  next
    case (Cons a as)
    then obtain b bs' where bs: "bs = b # bs'"
      by (cases bs) (auto simp: hex_encode_def hex_of_byte_def)
    with Cons.prems have "hex_of_byte a = hex_of_byte b" and "hex_encode as = hex_encode bs'"
      by (auto simp: hex_encode_def hex_of_byte_def)
    with Cons.IH bs show ?case by (simp add: hex_of_byte_inj)
  qed
qed simp

lemma hex_encode_chars: "c \<in> set (hex_encode bs) \<Longrightarrow> is_hex_char c"
  by (auto simp: hex_encode_def hex_of_byte_def is_hex_char_hex_digit byte_div16)

text \<open>\<open>hex.DecodeString\<close> accepts both letter cases and rejects an odd length.\<close>

definition hex_val :: "char \<Rightarrow> nat option" where
  "hex_val c = (let n = of_char c :: nat in
     if 48 \<le> n \<and> n \<le> 57 then Some (n - 48)
     else if 97 \<le> n \<and> n \<le> 102 then Some (n - 87)
     else if 65 \<le> n \<and> n \<le> 70 then Some (n - 55) else None)"

fun hex_decode :: "string \<Rightarrow> bytes option" where
  "hex_decode [] = Some []"
| "hex_decode [_] = None"
| "hex_decode (c # d # cs) = (case (hex_val c, hex_val d, hex_decode cs) of
     (Some a, Some b, Some bs) \<Rightarrow> Some (of_nat (16 * a + b) # bs) | _ \<Rightarrow> None)"

lemma hex_val_hex_digit: "n < 16 \<Longrightarrow> hex_val (hex_digit n) = Some n"
  by (auto simp: hex_val_def hex_digit_def Let_def)

lemma hex_decode_encode [simp]: "hex_decode (hex_encode bs) = Some bs"
proof (induction bs)
  case (Cons b bs)
  have "of_nat (16 * (unat b div 16) + unat b mod 16) = b"
    by (simp only: mult_div_mod_eq of_nat_unat ucast_id)
  with Cons show ?case
    by (simp add: hex_encode_def hex_of_byte_def hex_val_hex_digit byte_div16)
qed (simp add: hex_encode_def)

text \<open>The conversions \<open>[]byte(s)\<close> and \<open>string(b)\<close>.\<close>

definition bytes_of :: "string \<Rightarrow> bytes" where
  "bytes_of s = map (\<lambda>c. of_nat (of_char c)) s"

definition string_of :: "bytes \<Rightarrow> string" where
  "string_of b = map (\<lambda>w. char_of (unat w)) b"

lemma string_of_bytes_of [simp]: "string_of (bytes_of s) = s"
proof -
  have "char_of (unat (of_nat (of_char c) :: 8 word)) = c" for c
    by (simp add: unat_of_nat)
  then show ?thesis by (simp add: string_of_def bytes_of_def comp_def)
qed

section \<open>Token hashing\<close>

text \<open>
  \<open>hashToken\<close> of packages \<open>auth\<close>, \<open>passwdreset\<close>, \<open>middleware\<close> and \<open>oidc\<close> is the same function,
  \<open>hex.EncodeToString(sha256.Sum256(token))\<close>. SHA-256 is a parameter \<open>sha\<close>: what the code needs of
  it, collision freeness on the tokens at hand, is a hypothesis of the theorems that use it.
\<close>

definition hashToken :: "(string \<Rightarrow> bytes) \<Rightarrow> string \<Rightarrow> string" where
  "hashToken sha token = hex_encode (sha token)"

lemma hashToken_inj: "inj sha \<Longrightarrow> hashToken sha a = hashToken sha b \<longleftrightarrow> a = b"
  by (auto simp: hashToken_def hex_encode_inj dest: injD)

section \<open>Lists and maps\<close>

definition go_get :: "(string \<times> string) list \<Rightarrow> string \<Rightarrow> string" where
  "go_get m k = (case map_of m k of None \<Rightarrow> '''' | Some v \<Rightarrow> v)"

text \<open>Equality of two \<open>map[string]string\<close> values, independent of the order of the entries.\<close>

definition same_map :: "(string \<times> string) list \<Rightarrow> (string \<times> string) list \<Rightarrow> bool" where
  "same_map a b = list_all (\<lambda>k. map_of a k = map_of b k) (map fst a @ map fst b)"

lemma same_map_iff: "same_map a b \<longleftrightarrow> map_of a = map_of b"
proof
  assume *: "same_map a b"
  show "map_of a = map_of b"
  proof
    fix k
    show "map_of a k = map_of b k"
    proof (cases "k \<in> fst ` set a \<union> fst ` set b")
      case True
      with * show ?thesis by (auto simp: same_map_def list_all_iff)
    next
      case False
      then show ?thesis by (simp add: map_of_eq_None_iff [THEN iffD2])
    qed
  qed
qed (simp add: same_map_def list_all_iff)

text \<open>\<open>UPDATE \<dots> SET \<dots> WHERE P\<close> on a table kept as the list of its rows.\<close>

definition sql_update :: "('r \<Rightarrow> bool) \<Rightarrow> ('r \<Rightarrow> 'r) \<Rightarrow> 'r list \<Rightarrow> 'r list" where
  "sql_update P f rows = map (\<lambda>r. if P r then f r else r) rows"

text \<open>The first row satisfying a \<open>WHERE\<close> clause, as \<open>QueryRow\<close> scans it.\<close>

definition sql_first :: "('r \<Rightarrow> bool) \<Rightarrow> 'r list \<Rightarrow> 'r option" where
  "sql_first P rows = List.find P rows"

lemma length_sql_update [simp]: "length (sql_update P f rows) = length rows"
  by (simp add: sql_update_def)

lemma sql_update_set: "r' \<in> set (sql_update P f rows) \<longleftrightarrow>
    (\<exists>r \<in> set rows. r' = (if P r then f r else r))"
  by (auto simp: sql_update_def)

lemma bex_sql_update: "(\<exists>r \<in> set (sql_update P f rows). X r) \<longleftrightarrow>
    (\<exists>r \<in> set rows. X (if P r then f r else r))"
  by (auto simp: sql_update_def)

lemma map_sql_update: "(\<And>r. P r \<Longrightarrow> g (f r) = g r) \<Longrightarrow> map g (sql_update P f rows) = map g rows"
  by (simp add: sql_update_def)

lemma sql_first_Some: "sql_first P rows = Some r \<Longrightarrow> r \<in> set rows \<and> P r"
  by (auto simp: sql_first_def find_Some_iff)

lemma sql_first_None: "sql_first P rows = None \<longleftrightarrow> (\<forall>r \<in> set rows. \<not> P r)"
  by (auto simp: sql_first_def find_None_iff)

lemma find_ex1: "r \<in> set rows \<Longrightarrow> P r \<Longrightarrow> (\<And>r'. r' \<in> set rows \<Longrightarrow> P r' \<Longrightarrow> r' = r) \<Longrightarrow>
    List.find P rows = Some r"
proof (induction rows)
  case (Cons a rows)
  show ?case
  proof (cases "P a")
    case True
    then show ?thesis using Cons.prems(3) [of a] by simp
  next
    case False
    with Cons.prems(1,2) have "r \<in> set rows" by auto
    then have "List.find P rows = Some r" using Cons.prems(2,3) by (intro Cons.IH) auto
    with False show ?thesis by simp
  qed
qed simp

lemma length_filter_mono: "(\<And>x. x \<in> set xs \<Longrightarrow> P x \<Longrightarrow> Q x) \<Longrightarrow>
    length (filter P xs) \<le> length (filter Q xs)"
  by (induction xs) auto

end
