(* ===== verification/Redis_Server.thy ===== *)
theory Redis_Server
  imports ZT_Prelude
begin

text \<open>
  The Redis server, as the backend's go-redis client sees it. Redis is not part of the repository:
  the code under \<open>src/\<close> only issues commands. A server is therefore a parameter, a record
  \<open>'r, 'd redis\<close> of command functions over a state type \<open>'r\<close>, and every definition that talks to
  Redis takes it as an argument. \<open>'d\<close> is the type of the documents the component stores as JSON
  (\<open>json.Marshal\<close> before \<open>SET\<close>, \<open>json.Unmarshal\<close> after \<open>GET\<close>).

  The locale \<open>redis_laws\<close> states the documented behaviour the components rely on: \<open>see s t k\<close> is
  the live entry of key \<open>k\<close> at time \<open>t\<close>, and a command that replies without an error has exactly
  the documented effect on it. Nothing is assumed of a command that fails: after a timeout the
  command may or may not have been executed. The last section gives a server that satisfies the
  laws, used to instantiate the parameter.
\<close>

section \<open>Commands and replies\<close>

text \<open>\<open>RErr\<close> is a transport or server error, \<open>RNil\<close> is \<open>redis.Nil\<close>.\<close>

datatype 'a reply = RErr | RNil | ROk 'a

datatype 'd rval = RStr string | RInt int | RDoc 'd | RSet "string list"

type_synonym 'd rentry = "'d rval \<times> instant option"

record ('r, 'd) redis =
  rGet :: "'r \<Rightarrow> instant \<Rightarrow> string \<Rightarrow> 'd rval reply"
  rExists :: "'r \<Rightarrow> instant \<Rightarrow> string \<Rightarrow> int reply"
  rTTL :: "'r \<Rightarrow> instant \<Rightarrow> string \<Rightarrow> duration reply"
  rSMembers :: "'r \<Rightarrow> instant \<Rightarrow> string \<Rightarrow> string list reply"
  rSet :: "'r \<Rightarrow> instant \<Rightarrow> string \<Rightarrow> 'd rval \<Rightarrow> duration \<Rightarrow> 'r \<times> unit reply"
  rSetNX :: "'r \<Rightarrow> instant \<Rightarrow> string \<Rightarrow> 'd rval \<Rightarrow> duration \<Rightarrow> 'r \<times> bool reply"
  rIncr :: "'r \<Rightarrow> instant \<Rightarrow> string \<Rightarrow> 'r \<times> int reply"
  rExpire :: "'r \<Rightarrow> instant \<Rightarrow> string \<Rightarrow> duration \<Rightarrow> 'r \<times> bool reply"
  rDel :: "'r \<Rightarrow> instant \<Rightarrow> string list \<Rightarrow> 'r \<times> int reply"
  rGetDel :: "'r \<Rightarrow> instant \<Rightarrow> string \<Rightarrow> 'r \<times> 'd rval reply"
  rSAdd :: "'r \<Rightarrow> instant \<Rightarrow> string \<Rightarrow> string \<Rightarrow> 'r \<times> int reply"
  rSRem :: "'r \<Rightarrow> instant \<Rightarrow> string \<Rightarrow> string list \<Rightarrow> 'r \<times> int reply"

text \<open>An entry with its expiry is live strictly before it.\<close>

definition live :: "instant \<Rightarrow> 'd rentry option \<Rightarrow> 'd rentry option" where
  "live t e = (case e of None \<Rightarrow> None
     | Some (v, None) \<Rightarrow> Some (v, None)
     | Some (v, Some x) \<Rightarrow> if t < x then Some (v, Some x) else None)"

lemma live_simps [simp]:
  "live t None = None"
  "live t (Some (v, None)) = Some (v, None)"
  "t < x \<Longrightarrow> live t (Some (v, Some x)) = Some (v, Some x)"
  "\<not> t < x \<Longrightarrow> live t (Some (v, Some x)) = None"
  by (simp_all add: live_def)

lemma live_live [simp]: "t \<le> t' \<Longrightarrow> live t' (live t e) = live t' e"
  by (auto simp: live_def split: option.splits)

text \<open>The members of a set key; a missing key is the empty set, another type is no set.\<close>

definition members :: "'d rentry option \<Rightarrow> string list" where
  "members e = (case e of Some (RSet xs, _) \<Rightarrow> xs | _ \<Rightarrow> [])"

definition is_set_entry :: "'d rentry option \<Rightarrow> bool" where
  "is_set_entry e = (case e of None \<Rightarrow> True | Some (RSet _, _) \<Rightarrow> True | _ \<Rightarrow> False)"

definition entry_expiry :: "'d rentry option \<Rightarrow> instant option" where
  "entry_expiry e = (case e of Some (_, x) \<Rightarrow> x | None \<Rightarrow> None)"

text \<open>\<open>INCR\<close> on a missing key counts from 0; on a key that holds no integer it is an error.\<close>

definition incr_value :: "'d rentry option \<Rightarrow> int option" where
  "incr_value e = (case e of None \<Rightarrow> Some 1 | Some (RInt n, _) \<Rightarrow> Some (n + 1) | _ \<Rightarrow> None)"

lemma entry_simps [simp]:
  "members None = []" "members (Some (RSet xs, x)) = xs"
  "is_set_entry None" "is_set_entry (Some (RSet xs, x))"
  "\<not> is_set_entry (Some (RStr s, x))" "\<not> is_set_entry (Some (RInt n, x))"
  "\<not> is_set_entry (Some (RDoc d, x))"
  "entry_expiry None = None" "entry_expiry (Some (v, x)) = x"
  "incr_value None = Some 1" "incr_value (Some (RInt n, x)) = Some (n + 1)"
  by (simp_all add: members_def is_set_entry_def entry_expiry_def incr_value_def)

text \<open>\<open>StringCmd.Int64\<close> and \<open>StringCmd.Int\<close>: an error reply or a value that is no integer is an error.\<close>

definition reply_int :: "'d rval reply \<Rightarrow> int option" where
  "reply_int r = (case r of ROk (RInt n) \<Rightarrow> Some n
     | ROk (RStr s) \<Rightarrow> (case Atoi s of (n, None) \<Rightarrow> Some n | _ \<Rightarrow> None) | _ \<Rightarrow> None)"

section \<open>The contract of the server\<close>

locale redis_laws =
  fixes R :: "('r, 'd) redis"
    and see :: "'r \<Rightarrow> instant \<Rightarrow> string \<Rightarrow> 'd rentry option"
  assumes see_later: "t \<le> t' \<Longrightarrow> see s t' k = live t' (see s t k)"
    and get_ok: "rGet R s t k = ROk v \<Longrightarrow> \<exists>x. see s t k = Some (v, x)"
    and get_nil: "rGet R s t k = RNil \<Longrightarrow> see s t k = None"
    and exists_ok: "rExists R s t k = ROk n \<Longrightarrow> 0 < n \<longleftrightarrow> see s t k \<noteq> None"
    and ttl_pos: "rTTL R s t k = ROk d \<Longrightarrow> see s t k = Some (v, Some x) \<Longrightarrow>
        go_second \<le> x - t \<Longrightarrow> 0 < d"
    and ttl_gone: "rTTL R s t k = ROk d \<Longrightarrow> see s t k = None \<Longrightarrow> d < 0"
    and ttl_forever: "rTTL R s t k = ROk d \<Longrightarrow> see s t k = Some (v, None) \<Longrightarrow> d < 0"
    and smembers_ok: "rSMembers R s t k = ROk xs \<Longrightarrow>
        is_set_entry (see s t k) \<and> set xs = set (members (see s t k))"
    and set_ok: "rSet R s t k v d = (s', ROk u) \<Longrightarrow> 0 < d \<Longrightarrow>
        see s' t = (see s t)(k \<mapsto> (v, Some (t + d)))"
    and setnx_ok: "rSetNX R s t k v d = (s', ROk b) \<Longrightarrow> 0 < d \<Longrightarrow>
        b = (see s t k = None) \<and>
        see s' t = (if b then (see s t)(k \<mapsto> (v, Some (t + d))) else see s t)"
    and incr_ok: "rIncr R s t k = (s', ROk n) \<Longrightarrow>
        incr_value (see s t k) = Some n \<and>
        see s' t = (see s t)(k \<mapsto> (RInt n, entry_expiry (see s t k)))"
    and expire_ok: "rExpire R s t k d = (s', ROk b) \<Longrightarrow> 0 < d \<Longrightarrow>
        see s' t = (case see s t k of None \<Rightarrow> see s t
                    | Some (v, _) \<Rightarrow> (see s t)(k \<mapsto> (v, Some (t + d))))"
    and del_ok: "rDel R s t ks = (s', ROk n) \<Longrightarrow>
        see s' t = (\<lambda>k. if k \<in> set ks then None else see s t k)"
    and getdel_ok: "rGetDel R s t k = (s', ROk v) \<Longrightarrow>
        (\<exists>x. see s t k = Some (v, x)) \<and> see s' t = (see s t)(k := None)"
    and getdel_nil: "rGetDel R s t k = (s', RNil) \<Longrightarrow> see s t k = None \<and> see s' t = see s t"
    and sadd_ok: "rSAdd R s t k m = (s', ROk n) \<Longrightarrow>
        is_set_entry (see s t k) \<and>
        (\<exists>xs. set xs = insert m (set (members (see s t k))) \<and>
          see s' t = (see s t)(k \<mapsto> (RSet xs, entry_expiry (see s t k))))"
    and srem_ok: "rSRem R s t k ms = (s', ROk n) \<Longrightarrow>
        is_set_entry (see s t k) \<and>
        (\<exists>xs. set xs = set (members (see s t k)) - set ms \<and>
          see s' t = (see s t)(k := (if xs = [] then None
            else Some (RSet xs, entry_expiry (see s t k)))))"
begin

lemma see_live: "see s t k = Some (v, Some x) \<Longrightarrow> t < x"
  using see_later [of t t s k] by (auto simp: live_def split: if_splits)

lemma see_gone: "t \<le> t' \<Longrightarrow> see s t k = None \<Longrightarrow> see s t' k = None"
  by (simp add: see_later)

lemma see_set_later:
  assumes "rSet R s t k v d = (s', ROk u)" "0 < d" "t \<le> t'"
  shows "see s' t' k = (if t' < t + d then Some (v, Some (t + d)) else None)"
  using set_ok [OF assms(1,2)] see_later [OF assms(3), of s' k] by (simp add: live_def)

lemma see_set_other:
  assumes "rSet R s t k v d = (s', ROk u)" "0 < d" "t \<le> t'" "k' \<noteq> k"
  shows "see s' t' k' = see s t' k'"
  using set_ok [OF assms(1,2)] see_later [OF assms(3)] assms(4) by simp

lemma get_missing: "see s t k = None \<Longrightarrow> rGet R s t k \<in> {RErr, RNil}"
  using get_ok [of s t k] by (cases "rGet R s t k") auto

lemma getdel_missing: "see s t k = None \<Longrightarrow> rGetDel R s t k = (s', r) \<Longrightarrow> r \<in> {RErr, RNil}"
  using getdel_ok [of s t k s'] by (cases r) auto

lemma setnx_twice:
  assumes "rSetNX R s t k v d = (s', ROk True)" "0 < d" "t \<le> t'" "t' < t + d"
    and "rSetNX R s' t' k v' d' = (s'', ROk b)" "0 < d'"
  shows "\<not> b"
proof -
  have "see s' t k = Some (v, Some (t + d))"
    using setnx_ok [OF assms(1,2)] by simp
  with see_later [OF assms(3), of s' k] assms(4) have "see s' t' k \<noteq> None" by simp
  then show ?thesis using setnx_ok [OF assms(5,6)] by simp
qed

end

section \<open>A server satisfying the contract\<close>

text \<open>
  A map from keys to entries that ignores expired ones, and a switch for an outage, in which every
  command fails. It instantiates the parameter in the witnesses.
\<close>

record 'd mem_redis =
  mem_kv :: "string \<Rightarrow> 'd rentry option"
  mem_up :: bool

definition mem_see :: "'d mem_redis \<Rightarrow> instant \<Rightarrow> string \<Rightarrow> 'd rentry option" where
  "mem_see s t k = live t (mem_kv s k)"

definition mem_put :: "'d mem_redis \<Rightarrow> string \<Rightarrow> 'd rentry option \<Rightarrow> 'd mem_redis" where
  "mem_put s k e = s\<lparr>mem_kv := (mem_kv s)(k := e)\<rparr>"

definition guard_up :: "'d mem_redis \<Rightarrow> 'd mem_redis \<times> 'a reply \<Rightarrow> 'd mem_redis \<times> 'a reply" where
  "guard_up s r = (if mem_up s then r else (s, RErr))"

definition mem_server :: "('d mem_redis, 'd) redis" where
  "mem_server = \<lparr>
    rGet = (\<lambda>s t k. if \<not> mem_up s then RErr else
      (case mem_see s t k of None \<Rightarrow> RNil | Some (v, _) \<Rightarrow> ROk v)),
    rExists = (\<lambda>s t k. if \<not> mem_up s then RErr else ROk (if mem_see s t k = None then 0 else 1)),
    rTTL = (\<lambda>s t k. if \<not> mem_up s then RErr else ROk
      (case mem_see s t k of None \<Rightarrow> -2 | Some (_, None) \<Rightarrow> -1 | Some (_, Some x) \<Rightarrow> x - t)),
    rSMembers = (\<lambda>s t k. if \<not> mem_up s \<or> \<not> is_set_entry (mem_see s t k) then RErr
      else ROk (members (mem_see s t k))),
    rSet = (\<lambda>s t k v d. guard_up s (mem_put s k (Some (v, Some (t + d))), ROk ())),
    rSetNX = (\<lambda>s t k v d. guard_up s
      (if mem_see s t k = None then (mem_put s k (Some (v, Some (t + d))), ROk True)
       else (s, ROk False))),
    rIncr = (\<lambda>s t k. guard_up s (case incr_value (mem_see s t k) of None \<Rightarrow> (s, RErr)
      | Some n \<Rightarrow> (mem_put s k (Some (RInt n, entry_expiry (mem_see s t k))), ROk n))),
    rExpire = (\<lambda>s t k d. guard_up s (case mem_see s t k of None \<Rightarrow> (s, ROk False)
      | Some (v, _) \<Rightarrow> (mem_put s k (Some (v, Some (t + d))), ROk True))),
    rDel = (\<lambda>s t ks. guard_up s
      (s\<lparr>mem_kv := (\<lambda>k. if k \<in> set ks then None else mem_kv s k)\<rparr>, ROk (int (length ks)))),
    rGetDel = (\<lambda>s t k. guard_up s (case mem_see s t k of None \<Rightarrow> (s, RNil)
      | Some (v, _) \<Rightarrow> (mem_put s k None, ROk v))),
    rSAdd = (\<lambda>s t k m. guard_up s (if \<not> is_set_entry (mem_see s t k) then (s, RErr) else
      (mem_put s k (Some (RSet (List.insert m (members (mem_see s t k))),
         entry_expiry (mem_see s t k))), ROk 1))),
    rSRem = (\<lambda>s t k ms. guard_up s (if \<not> is_set_entry (mem_see s t k) then (s, RErr) else
      (let xs = filter (\<lambda>x. x \<notin> set ms) (members (mem_see s t k)) in
        (mem_put s k (if xs = [] then None else Some (RSet xs, entry_expiry (mem_see s t k))),
         ROk (int (length ms))))))\<rparr>"

lemma mem_see_put [simp]: "mem_see (mem_put s k e) t = (mem_see s t)(k := live t e)"
  by (auto simp: mem_see_def mem_put_def)

lemma mem_see_expiry: "live t (Some (v, entry_expiry (mem_see s t k))) =
    Some (v, entry_expiry (mem_see s t k))"
  by (auto simp: mem_see_def live_def entry_expiry_def split: option.splits if_splits)

lemmas mem_defs = mem_server_def guard_up_def mem_see_expiry Let_def

lemma mem_sadd:
  assumes "rSAdd mem_server s t k m = (s', ROk n)"
  shows "is_set_entry (mem_see s t k) \<and>
    mem_see s' t = (mem_see s t)(k \<mapsto> (RSet (List.insert m (members (mem_see s t k))),
      entry_expiry (mem_see s t k)))"
  using assms by (auto simp: mem_defs split: if_splits)

lemma mem_srem:
  assumes "rSRem mem_server s t k ms = (s', ROk n)"
  shows "is_set_entry (mem_see s t k) \<and>
    (let xs = filter (\<lambda>x. x \<notin> set ms) (members (mem_see s t k)) in
      mem_see s' t = (mem_see s t)(k := (if xs = [] then None
        else Some (RSet xs, entry_expiry (mem_see s t k)))))"
  using assms by (auto simp: mem_defs split: if_splits)

interpretation mem: redis_laws mem_server mem_see
proof (unfold_locales, goal_cases)
  case 1
  then show ?case by (simp add: mem_see_def)
next
  case (13 s t ks s' n)
  then show ?case by (auto simp: mem_defs mem_see_def split: if_splits)
next
  case (16 s t k m s' n)
  show ?case
    using mem_sadd [OF 16] by (intro conjI exI [of _ "List.insert m (members (mem_see s t k))"]) auto
next
  case (17 s t k ms s' n)
  show ?case
    using mem_srem [OF 17]
    by (intro conjI exI [of _ "filter (\<lambda>x. x \<notin> set ms) (members (mem_see s t k))"])
      (auto simp: Let_def)
qed (auto simp: mem_defs split: option.splits if_splits)

section \<open>A server without an outage\<close>

text \<open>
  The laws above speak of commands that were answered. The next contract is for runs in which the
  server answers: \<open>up\<close> is a condition on the server that every command keeps, and a command on a key
  of the right type is not refused.
\<close>

definition plain_entry :: "'d rentry option \<Rightarrow> bool" where
  "plain_entry e = (case e of Some (RSet _, _) \<Rightarrow> False | _ \<Rightarrow> True)"

lemma plain_entry_simps [simp]:
  "plain_entry None" "plain_entry (Some (RStr s, x))" "plain_entry (Some (RInt n, x))"
  "plain_entry (Some (RDoc d, x))" "\<not> plain_entry (Some (RSet xs, x))"
  by (simp_all add: plain_entry_def)

locale redis_up = redis_laws +
  fixes up :: "'a \<Rightarrow> bool"
  assumes get_up: "up s \<Longrightarrow> plain_entry (see s t k) \<Longrightarrow> rGet R s t k \<noteq> RErr"
    and ttl_up: "up s \<Longrightarrow> rTTL R s t k \<noteq> RErr \<and> rTTL R s t k \<noteq> RNil"
    and exists_up: "up s \<Longrightarrow> rExists R s t k \<noteq> RErr \<and> rExists R s t k \<noteq> RNil"
    and set_up: "up s \<Longrightarrow> rSet R s t k v d = (s', r) \<Longrightarrow> up s' \<and> r = ROk ()"
    and setnx_up: "up s \<Longrightarrow> rSetNX R s t k v d = (s', rb) \<Longrightarrow> up s' \<and> (\<exists>b. rb = ROk b)"
    and incr_up: "up s \<Longrightarrow> rIncr R s t k = (s', ri) \<Longrightarrow>
        up s' \<and> (incr_value (see s t k) \<noteq> None \<longrightarrow> (\<exists>n. ri = ROk n))"
    and expire_up: "up s \<Longrightarrow> rExpire R s t k d = (s', rb) \<Longrightarrow> up s' \<and> (\<exists>b. rb = ROk b)"
    and del_up: "up s \<Longrightarrow> rDel R s t ks = (s', ri) \<Longrightarrow> up s' \<and> (\<exists>n. ri = ROk n)"
    and getdel_up: "up s \<Longrightarrow> rGetDel R s t k = (s', rv) \<Longrightarrow>
        up s' \<and> (plain_entry (see s t k) \<longrightarrow> rv \<noteq> RErr)"
    and smembers_up: "up s \<Longrightarrow> is_set_entry (see s t k) \<Longrightarrow> \<exists>xs. rSMembers R s t k = ROk xs"
    and sadd_up: "up s \<Longrightarrow> rSAdd R s t k m = (s', ri) \<Longrightarrow>
        up s' \<and> (is_set_entry (see s t k) \<longrightarrow> (\<exists>n. ri = ROk n))"
    and srem_up: "up s \<Longrightarrow> rSRem R s t k ms = (s', ri) \<Longrightarrow>
        up s' \<and> (is_set_entry (see s t k) \<longrightarrow> (\<exists>n. ri = ROk n))"
begin

text \<open>With the server up, each command is a function of what is seen.\<close>

lemma get_value:
  assumes "up s" "plain_entry (see s t k)"
  shows "rGet R s t k = (case see s t k of None \<Rightarrow> RNil | Some (v, _) \<Rightarrow> ROk v)"
proof (cases "rGet R s t k")
  case (ROk v)
  then show ?thesis using get_ok [OF ROk] by auto
qed (use get_up [OF assms] get_nil [of s t k] in auto)

text \<open>A counter: the number of increments a key records.\<close>

lemma incr_effect:
  assumes "up s" "incr_value (see s t k) = Some n"
  obtains s' where "rIncr R s t k = (s', ROk n)" "up s'"
    "see s' t = (see s t)(k \<mapsto> (RInt n, entry_expiry (see s t k)))"
proof (cases "rIncr R s t k")
  case (Pair s' r)
  with incr_up [OF assms(1) Pair] assms(2) obtain m where "r = ROk m" "up s'" by auto
  with incr_ok [of s t k s' m] Pair assms(2) that show ?thesis by auto
qed

lemma ttl_some: "up s \<Longrightarrow> \<exists>d. rTTL R s t k = ROk d"
  using ttl_up [of s t k] by (cases "rTTL R s t k") auto

lemma set_effect:
  assumes "up s" "0 < d"
  obtains s' where "rSet R s t k v d = (s', ROk ())" "up s'"
    "see s' t = (see s t)(k \<mapsto> (v, Some (t + d)))"
proof (cases "rSet R s t k v d")
  case (Pair s' r)
  with set_up [OF assms(1) Pair] set_ok [of s t k v d s' "()"] assms(2) that show ?thesis by simp
qed

lemma getdel_effect:
  assumes "up s" "plain_entry (see s t k)"
  obtains s' where "up s'" "see s' t = (see s t)(k := None)"
    "rGetDel R s t k = (s', case see s t k of None \<Rightarrow> RNil | Some (v, _) \<Rightarrow> ROk v)"
proof (cases "rGetDel R s t k")
  case (Pair s' r)
  with getdel_up [OF assms(1) Pair] assms(2) have up: "up s'" "r \<noteq> RErr" by auto
  show ?thesis
  proof (cases r)
    case RErr
    with up show ?thesis by simp
  next
    case RNil
    with getdel_nil [of s t k s'] Pair up(1) that [of s'] show ?thesis by (simp add: fun_upd_idem)
  next
    case (ROk v)
    with getdel_ok [of s t k s' v] Pair up(1) that [of s'] show ?thesis by auto
  qed
qed

lemma del_effect:
  assumes "up s"
  obtains s' n where "rDel R s t ks = (s', ROk n)" "up s'"
    "see s' t = (\<lambda>k. if k \<in> set ks then None else see s t k)"
proof (cases "rDel R s t ks")
  case (Pair s' r)
  with del_up [OF assms Pair] del_ok [of s t ks s'] that show ?thesis by auto
qed

lemma smembers_effect:
  assumes "up s" "is_set_entry (see s t k)"
  obtains xs where "rSMembers R s t k = ROk xs" "set xs = set (members (see s t k))"
  using smembers_up [OF assms] smembers_ok [of s t k] that by auto

lemma sadd_effect:
  assumes "up s" "is_set_entry (see s t k)"
  obtains s' n xs where "rSAdd R s t k m = (s', ROk n)" "up s'"
    "set xs = insert m (set (members (see s t k)))"
    "see s' t = (see s t)(k \<mapsto> (RSet xs, entry_expiry (see s t k)))"
proof (cases "rSAdd R s t k m")
  case (Pair s' r)
  with sadd_up [OF assms(1) Pair] assms(2) obtain n where "r = ROk n" "up s'" by auto
  with sadd_ok [of s t k m s' n] Pair that show ?thesis by auto
qed

lemma srem_effect:
  assumes "up s" "is_set_entry (see s t k)"
  obtains s' n xs where "rSRem R s t k ms = (s', ROk n)" "up s'"
    "set xs = set (members (see s t k)) - set ms"
    "see s' t = (see s t)(k := (if xs = [] then None else Some (RSet xs, entry_expiry (see s t k))))"
proof (cases "rSRem R s t k ms")
  case (Pair s' r)
  with srem_up [OF assms(1) Pair] assms(2) obtain n where "r = ROk n" "up s'" by auto
  with srem_ok [of s t k ms s' n] Pair that show ?thesis by blast
qed

lemma expire_effect:
  assumes "up s" "0 < d"
  obtains s' b where "rExpire R s t k d = (s', ROk b)" "up s'"
    "see s' t = (case see s t k of None \<Rightarrow> see s t | Some (v, _) \<Rightarrow> (see s t)(k \<mapsto> (v, Some (t + d))))"
proof (cases "rExpire R s t k d")
  case (Pair s' r)
  with expire_up [OF assms(1) Pair] expire_ok [of s t k d s'] assms(2) that show ?thesis by auto
qed

end

interpretation mem: redis_up mem_server mem_see mem_up
  by unfold_locales
    (auto simp: mem_defs mem_put_def plain_entry_def split: option.splits if_splits rval.splits prod.splits)

text \<open>A pipeline sends its commands in one batch; each is executed, and \<open>Exec\<close> reports an error when
  one of them failed.\<close>

definition sent :: "'r \<times> 'a reply \<Rightarrow> 'r \<times> bool" where
  "sent p = (fst p, case snd p of ROk _ \<Rightarrow> True | _ \<Rightarrow> False)"

fun pipe_exec :: "('r \<Rightarrow> 'r \<times> bool) list \<Rightarrow> 'r \<Rightarrow> 'r \<times> bool" where
  "pipe_exec [] s = (s, True)"
| "pipe_exec (c # cs) s = (case c s of (s1, b1) \<Rightarrow> (case pipe_exec cs s1 of (s2, b2) \<Rightarrow> (s2, b1 \<and> b2)))"

lemma sent_simps [simp]: "sent (s, ROk x) = (s, True)" "sent (s, RErr) = (s, False)" "sent (s, RNil) = (s, False)"
  by (simp_all add: sent_def)

end
