(* ===== verification/Go_Net.thy ===== *)
theory Go_Net
  imports ZT_Prelude
begin

unbundle bit_operations_syntax

text \<open>
  The part of Go's standard packages \<open>net\<close> and \<open>net/netip\<close> that the backend uses: parsing of
  addresses, of \<open>host:port\<close> pairs and of CIDR blocks, membership in a block, and the loopback and
  private ranges. The parsers follow the library's loops: octets without leading zeros, at most four
  hexadecimal digits per group, one \<open>::\<close>, an embedded IPv4 tail, a zone after \<open>%\<close>.
\<close>

section \<open>Addresses\<close>

text \<open>\<open>netip.Addr\<close>: an IPv4 address of 4 bytes or an IPv6 address of 16 bytes with its zone.\<close>

datatype netip_addr = IP4 bytes | IP6 bytes string

fun index_of :: "char \<Rightarrow> string \<Rightarrow> nat option" where
  "index_of c [] = None"
| "index_of c (x # xs) = (if x = c then Some 0 else map_option Suc (index_of c xs))"

definition last_index :: "char \<Rightarrow> string \<Rightarrow> nat option" where
  "last_index c s = map_option (\<lambda>i. length s - 1 - i) (index_of c (rev s))"

fun digits_val :: "nat \<Rightarrow> string \<Rightarrow> nat" where
  "digits_val n [] = n"
| "digits_val n (c # cs) = digits_val (n * 10 + digit_val c) cs"

definition parse_octet :: "string \<Rightarrow> 8 word option" where
  "parse_octet p =
    (if p = [] \<or> \<not> list_all is_digit p \<or> (1 < length p \<and> hd p = CHR ''0'') \<or> 255 < digits_val 0 p
     then None else Some (of_nat (digits_val 0 p)))"

definition parse_v4 :: "string \<Rightarrow> bytes option" where
  "parse_v4 s = (case map parse_octet (Split (CHR ''.'') s) of
     [Some a, Some b, Some c, Some d] \<Rightarrow> Some [a, b, c, d] | _ \<Rightarrow> None)"

definition group_bytes :: "string \<Rightarrow> bytes" where
  "group_bytes g = (let v = foldl (\<lambda>a c. a * 16 + the (hex_val c)) 0 g
     in [of_nat (v div 256), of_nat (v mod 256)])"

text \<open>The loop of \<open>netip.parseIPv6\<close>; the first argument counts the groups that still fit.\<close>

fun v6_loop :: "nat \<Rightarrow> bytes \<Rightarrow> nat option \<Rightarrow> string \<Rightarrow> (bytes \<times> nat option \<times> string) option" where
  "v6_loop 0 acc ell s = Some (acc, ell, s)"
| "v6_loop (Suc n) acc ell s =
    (let g = takeWhile (\<lambda>c. hex_val c \<noteq> None) s; r = drop (length g) s in
     if g = [] \<or> 4 < length g then None
     else if r \<noteq> [] \<and> hd r = CHR ''.'' then
       (if (ell = None \<and> length acc \<noteq> 12) \<or> 16 < length acc + 4 then None
        else map_option (\<lambda>b. (acc @ b, ell, [])) (parse_v4 s))
     else (let acc' = acc @ group_bytes g in
       case r of [] \<Rightarrow> Some (acc', ell, [])
       | c # r' \<Rightarrow>
         (case r' of [] \<Rightarrow> None
          | c' # r'' \<Rightarrow>
            if c \<noteq> CHR '':'' then None
            else if c' = CHR '':'' then
              (if ell \<noteq> None then None
               else if r'' = [] then Some (acc', Some (length acc'), [])
               else v6_loop n acc' (Some (length acc')) r'')
            else v6_loop n acc' ell r')))"

definition v6_finish :: "bytes \<times> nat option \<times> string \<Rightarrow> bytes option" where
  "v6_finish x = (case x of (acc, ell, s) \<Rightarrow>
     if s \<noteq> [] then None
     else if length acc < 16 then
       map_option (\<lambda>e. take e acc @ replicate (16 - length acc) 0 @ drop e acc) ell
     else if ell \<noteq> None then None else Some acc)"

definition parse_v6 :: "string \<Rightarrow> bytes option" where
  "parse_v6 s =
    (if HasPrefix s ''::'' then
       (if drop 2 s = [] then Some (replicate 16 0)
        else Option.bind (v6_loop 8 [] (Some 0) (drop 2 s)) v6_finish)
     else Option.bind (v6_loop 8 [] None s) v6_finish)"

definition ParseAddr :: "string \<Rightarrow> netip_addr option" where
  "ParseAddr s =
    (case dropWhile (\<lambda>c. c \<notin> set ''.:%'') s of
       [] \<Rightarrow> None
     | c # _ \<Rightarrow>
       if c = CHR ''.'' then map_option IP4 (parse_v4 s)
       else if c = CHR '':'' then
         (case index_of (CHR ''%'') s of
            None \<Rightarrow> map_option (\<lambda>b. IP6 b []) (parse_v6 s)
          | Some i \<Rightarrow> if drop (Suc i) s = [] then None
                       else map_option (\<lambda>b. IP6 b (drop (Suc i) s)) (parse_v6 (take i s)))
       else None)"

definition v4_prefix :: bytes where
  "v4_prefix = replicate 10 0 @ [255, 255]"

text \<open>\<open>net.ParseIP\<close>: the 16-byte form; an address with a zone is no \<open>net.IP\<close>.\<close>

definition ParseIP :: "string \<Rightarrow> bytes option" where
  "ParseIP s = (case ParseAddr s of
     None \<Rightarrow> None
   | Some (IP4 b) \<Rightarrow> Some (v4_prefix @ b)
   | Some (IP6 b z) \<Rightarrow> if z = [] then Some b else None)"

definition To4 :: "bytes \<Rightarrow> bytes option" where
  "To4 ip = (if length ip = 4 then Some ip
     else if length ip = 16 \<and> take 12 ip = v4_prefix then Some (drop 12 ip) else None)"

text \<open>\<open>net.SplitHostPort\<close>, with its bracket rules; \<open>None\<close> is its error.\<close>

definition SplitHostPort :: "string \<Rightarrow> (string \<times> string) option" where
  "SplitHostPort s =
    (case last_index (CHR '':'') s of
       None \<Rightarrow> None
     | Some i \<Rightarrow>
       (if HasPrefix s ''['' then
          (case index_of (CHR '']'') s of
             None \<Rightarrow> None
           | Some e \<Rightarrow>
             if Suc e \<noteq> i then None
             else if CHR ''['' \<in> set (drop 1 s) \<or> CHR '']'' \<in> set (drop (Suc e) s) then None
             else Some (take (e - 1) (drop 1 s), drop (Suc i) s))
        else if CHR '':'' \<in> set (take i s) then None
        else if CHR ''['' \<in> set s \<or> CHR '']'' \<in> set s then None
        else Some (take i s, drop (Suc i) s)))"

section \<open>CIDR blocks\<close>

record ip_net =
  net_ip :: bytes
  net_mask :: bytes

text \<open>\<open>net.CIDRMask\<close>: whole bytes of ones, then \<open>^byte(0xff >> n)\<close>, then zeros.\<close>

definition mask_byte :: "nat \<Rightarrow> 8 word" where
  "mask_byte k = (if 8 \<le> k then 255 else NOT (drop_bit k 255))"

definition CIDRMask :: "nat \<Rightarrow> nat \<Rightarrow> bytes" where
  "CIDRMask ones len = map (\<lambda>i. mask_byte (ones - 8 * i)) [0..<len]"

definition mask_ip :: "bytes \<Rightarrow> bytes \<Rightarrow> bytes" where
  "mask_ip ip m = map2 (AND) ip m"

text \<open>\<open>net.dtoi\<close> followed by the test that the whole mask text was consumed.\<close>

definition parse_ones :: "string \<Rightarrow> nat option" where
  "parse_ones m = (if m = [] \<or> \<not> list_all is_digit m \<or> 0xFFFFFF \<le> digits_val 0 m
     then None else Some (digits_val 0 m))"

definition ParseCIDR :: "string \<Rightarrow> ip_net option" where
  "ParseCIDR s =
    (case index_of (CHR ''/'') s of
       None \<Rightarrow> None
     | Some i \<Rightarrow>
       (case (ParseAddr (take i s), parse_ones (drop (Suc i) s)) of
          (Some (IP4 b), Some n) \<Rightarrow>
            if 32 < n then None
            else Some \<lparr>net_ip = mask_ip b (CIDRMask n 4), net_mask = CIDRMask n 4\<rparr>
        | (Some (IP6 b z), Some n) \<Rightarrow>
            if z \<noteq> [] \<or> 128 < n then None
            else Some \<lparr>net_ip = mask_ip b (CIDRMask n 16), net_mask = CIDRMask n 16\<rparr>
        | _ \<Rightarrow> None))"

text \<open>\<open>(*IPNet).Contains\<close>, with \<open>networkNumberAndMask\<close> written out.\<close>

definition net_number_mask :: "ip_net \<Rightarrow> (bytes \<times> bytes) option" where
  "net_number_mask n =
    (let ip = (case To4 (net_ip n) of Some b \<Rightarrow> b | None \<Rightarrow> net_ip n); m = net_mask n in
     if length m = 4 then (if length ip = 4 then Some (ip, m) else None)
     else if length m = 16 then Some (ip, if length ip = 4 then drop 12 m else m)
     else None)"

definition net_contains :: "ip_net \<Rightarrow> bytes \<Rightarrow> bool" where
  "net_contains n ip =
    (case net_number_mask n of None \<Rightarrow> False
     | Some (nn, m) \<Rightarrow>
       (let x = (case To4 ip of Some b \<Rightarrow> b | None \<Rightarrow> ip) in
        length x = length nn \<and> list_all (\<lambda>i. nn ! i AND m ! i = x ! i AND m ! i) [0..<length x]))"

definition IsLoopback :: "bytes \<Rightarrow> bool" where
  "IsLoopback ip = (case To4 ip of Some b \<Rightarrow> b ! 0 = 127 | None \<Rightarrow> ip = replicate 15 0 @ [1])"

definition IsPrivate :: "bytes \<Rightarrow> bool" where
  "IsPrivate ip = (case To4 ip of
     Some b \<Rightarrow> b ! 0 = 10 \<or> (b ! 0 = 172 \<and> b ! 1 AND 0xf0 = 16) \<or> (b ! 0 = 192 \<and> b ! 1 = 168)
   | None \<Rightarrow> length ip = 16 \<and> ip ! 0 AND 0xfe = 0xfc)"

section \<open>Formatting\<close>

text \<open>\<open>net.IP.String\<close>: dotted decimal for IPv4, otherwise hexadecimal groups with the first longest
  run of at least two zero groups written as \<open>::\<close>.\<close>

fun nat_dec :: "nat \<Rightarrow> string" where
  "nat_dec n = (if n < 10 then [char_of (48 + n)] else nat_dec (n div 10) @ [char_of (48 + n mod 10)])"

fun nat_hex :: "nat \<Rightarrow> string" where
  "nat_hex n = (if n < 16 then [hex_digit n] else nat_hex (n div 16) @ [hex_digit (n mod 16)])"

declare nat_dec.simps [simp del]
declare nat_hex.simps [simp del]

fun ip_groups :: "bytes \<Rightarrow> nat list" where
  "ip_groups (a # b # bs) = (unat a * 256 + unat b) # ip_groups bs"
| "ip_groups _ = []"

definition zero_run :: "nat list \<Rightarrow> nat \<times> nat" where
  "zero_run gs = foldl (\<lambda>(s, l) i. let k = length (takeWhile (\<lambda>g. g = 0) (drop i gs))
     in if 2 \<le> k \<and> l < k then (i, k) else (s, l)) (0, 0) [0..<length gs]"

definition ip_string :: "bytes \<Rightarrow> string" where
  "ip_string ip = (case To4 ip of
     Some b \<Rightarrow> Join ''.'' (map (nat_dec \<circ> unat) b)
   | None \<Rightarrow> (let gs = ip_groups ip; (s, l) = zero_run gs; f = Join '':'' \<circ> map nat_hex in
       if l = 0 then f gs else f (take s gs) @ ''::'' @ f (drop (s + l) gs)))"

section \<open>Facts\<close>

lemma bit_byte_ones: "bit (255 :: 8 word) j \<longleftrightarrow> j < 8"
proof -
  have eq: "(255 :: 8 word) = mask 8" by (simp add: mask_eq_exp_minus_1)
  show ?thesis unfolding eq by (subst bit_mask_iff) (auto simp: mask_eq_exp_minus_1)
qed

lemma bit_mask_byte: "bit (mask_byte k) j \<longleftrightarrow> j < 8 \<and> 8 - k \<le> j"
proof (cases "8 \<le> k")
  case True
  then show ?thesis unfolding mask_byte_def using bit_byte_ones [of j] by simp
next
  case False
  have "bit (NOT (drop_bit k (255 :: 8 word))) j \<longleftrightarrow> j < 8 \<and> \<not> k + j < 8"
    using bit_byte_ones [of "k + j"] by (simp add: bit_not_iff bit_drop_bit_eq)
  with False show ?thesis unfolding mask_byte_def by auto
qed

text \<open>Two bytes agree under a prefix mask exactly when their \<open>k\<close> leading bits agree.\<close>

lemma masked_byte_eq:
  "a AND mask_byte k = b AND mask_byte k \<longleftrightarrow> (\<forall>j < 8. 8 - k \<le> j \<longrightarrow> bit a j = bit (b :: 8 word) j)"
  by (auto simp: bit_eq_iff bit_and_iff bit_mask_byte)

lemma length_mask [simp]: "length (CIDRMask n l) = l"
  by (simp add: CIDRMask_def)

lemma length_mask_ip [simp]: "length (mask_ip ip m) = min (length ip) (length m)"
  by (simp add: mask_ip_def)

lemma mask_ip_nth: "i < length ip \<Longrightarrow> i < length m \<Longrightarrow> mask_ip ip m ! i = ip ! i AND m ! i"
  by (simp add: mask_ip_def)

lemma nth_CIDRMask: "i < l \<Longrightarrow> CIDRMask n l ! i = mask_byte (n - 8 * i)"
  by (simp add: CIDRMask_def)

lemma parse_v4_length: "parse_v4 s = Some b \<Longrightarrow> length b = 4"
  by (auto simp: parse_v4_def split: list.splits option.splits)

lemma To4_v4 [simp]: "length b = 4 \<Longrightarrow> To4 (v4_prefix @ b) = Some b"
  by (simp add: To4_def v4_prefix_def)

end
