(* ===== verification/Access_Policy.thy ===== *)
theory Access_Policy
  imports Go_Net Complex_Main
begin

text \<open>
  Where and from which device a login may come: \<open>internal/auth/ip_allowlist.go\<close>,
  \<open>internal/auth/device_trust.go\<close>, \<open>pkg/geoip/geoip.go\<close> and the reading side of
  \<open>internal/settings/cache.go\<close> as the interface \<open>auth.SettingReader\<close>.
\<close>

section \<open>Settings\<close>

text \<open>\<open>auth.SettingReader\<close>: the three typed getters, each with the caller's default.\<close>

record setting_reader =
  GetInt :: "string \<Rightarrow> int \<Rightarrow> int"
  GetString :: "string \<Rightarrow> string \<Rightarrow> string"
  GetBool :: "string \<Rightarrow> bool \<Rightarrow> bool"

section \<open>Geolocation\<close>

record location =
  loc_country :: string
  loc_country_code :: string
  loc_city :: string
  loc_lat :: real
  loc_lon :: real

text \<open>The fields of a \<open>geoip2.City\<close> record that \<open>Lookup\<close> reads; the MaxMind reader is a parameter
  (a function from addresses, \<open>None\<close> its error).\<close>

record geo_city =
  gc_country :: string
  gc_country_iso :: string
  gc_city :: string
  gc_lat :: real
  gc_lon :: real
  gc_registered :: string
  gc_registered_iso :: string

text \<open>\<open>geoip.Service\<close>: the optional open database.\<close>

type_synonym geoip_service = "(bytes \<Rightarrow> geo_city option) option"

definition mk_loc :: "string \<Rightarrow> string \<Rightarrow> string \<Rightarrow> real \<Rightarrow> real \<Rightarrow> location" where
  "mk_loc country code city lat lon = \<lparr>loc_country = country, loc_country_code = code,
     loc_city = city, loc_lat = lat, loc_lon = lon\<rparr>"

definition mockIPs :: "(string \<times> location) list" where
  "mockIPs = [
    (''8.8.8.8'', mk_loc ''United States'' ''US'' ''Mountain View'' (37386/1000) (- (122083/1000))),
    (''81.2.69.142'', mk_loc ''United Kingdom'' ''GB'' ''London'' (51507/1000) (- (127/1000))),
    (''1.1.1.1'', mk_loc ''Australia'' ''AU'' ''Sydney'' (- (33868/1000)) (151209/1000)),
    (''100.0.0.1'', mk_loc ''Japan'' ''JP'' ''Tokyo'' (35676/1000) (13965/100)),
    (''100.0.0.2'', mk_loc ''United Kingdom'' ''GB'' ''London'' (51507/1000) (- (127/1000))),
    (''100.0.0.3'', mk_loc ''United States'' ''US'' ''New York'' (407128/10000) (- (74006/1000)))]"

definition Lookup :: "geoip_service \<Rightarrow> string \<Rightarrow> location option" where
  "Lookup g ipStr =
    (case ParseIP ipStr of
       None \<Rightarrow> None
     | Some parsed \<Rightarrow>
       (case map_of mockIPs ipStr of
          Some loc \<Rightarrow> Some loc
        | None \<Rightarrow>
          (case g of
             Some reader \<Rightarrow>
               (case reader parsed of
                  None \<Rightarrow> None
                | Some c \<Rightarrow>
                  Some (if gc_country c = ''''
                        then mk_loc (gc_registered c) (gc_registered_iso c) (gc_city c) (gc_lat c) (gc_lon c)
                        else mk_loc (gc_country c) (gc_country_iso c) (gc_city c) (gc_lat c) (gc_lon c)))
           | None \<Rightarrow>
               if IsLoopback parsed \<or> IsPrivate parsed then Some (mk_loc ''Localhost'' '''' ''Local'' 0 0)
               else None)))"

definition formatLocation :: "location \<Rightarrow> string" where
  "formatLocation l =
    (if loc_city l \<noteq> '''' \<and> loc_country l \<noteq> '''' then loc_city l @ '', '' @ loc_country l
     else if loc_country l \<noteq> '''' then loc_country l else ''Unknown'')"

section \<open>IP and country allowlists\<close>

definition parseIP :: "string \<Rightarrow> bytes option" where
  "parseIP s0 =
    (let s = TrimSpace s0 in
     case ParseIP s of
       Some ip \<Rightarrow> Some ip
     | None \<Rightarrow> (case SplitHostPort s of None \<Rightarrow> None | Some (host, _) \<Rightarrow> ParseIP host))"

definition splitEntries :: "string \<Rightarrow> string list" where
  "splitEntries s =
    filter (\<lambda>p. p \<noteq> '''') (map TrimSpace
      (Split (CHR '','') (map (\<lambda>c. if c = CHR 0x0A then CHR '','' else c) s)))"

definition entry_allows :: "bytes \<Rightarrow> string \<Rightarrow> bool" where
  "entry_allows ip entry =
    (if CHR ''/'' \<in> set entry
     then (case ParseCIDR entry of Some network \<Rightarrow> net_contains network ip | None \<Rightarrow> False)
     else ParseIP entry = Some ip)"

definition isIPAllowed :: "string \<Rightarrow> string \<Rightarrow> bool" where
  "isIPAllowed ipStr allowlist0 =
    (let allowlist = TrimSpace allowlist0 in
     if allowlist = '''' then True
     else case parseIP ipStr of
       None \<Rightarrow> False
     | Some ip \<Rightarrow> list_ex (entry_allows ip) (splitEntries allowlist))"

definition isCountryAllowed :: "string \<Rightarrow> string \<Rightarrow> geoip_service option \<Rightarrow> bool" where
  "isCountryAllowed ipStr allowlist g =
    (case g of
       None \<Rightarrow> True
     | Some geo \<Rightarrow>
       if TrimSpace allowlist = '''' then True
       else case parseIP ipStr of
         None \<Rightarrow> True
       | Some ip \<Rightarrow>
         if IsLoopback ip \<or> IsPrivate ip then True
         else case Lookup geo (ip_string ip) of
           None \<Rightarrow> True
         | Some loc \<Rightarrow>
           if loc_country_code loc = '''' then True
           else list_ex (\<lambda>entry. ToUpper entry = ToUpper (loc_country_code loc)) (splitEntries allowlist))"

section \<open>Device trust\<close>

text \<open>\<open>compareVersions\<close>: the loop over the longer of the two component lists, missing components 0,
  unparsable ones whatever \<open>Atoi\<close> returns beside its error.\<close>

fun compare_parts :: "string list \<Rightarrow> string list \<Rightarrow> int" where
  "compare_parts [] [] = 0"
| "compare_parts ps qs =
    (let n1 = (case ps of [] \<Rightarrow> 0 | p # _ \<Rightarrow> fst (Atoi p));
         n2 = (case qs of [] \<Rightarrow> 0 | q # _ \<Rightarrow> fst (Atoi q))
     in if n1 < n2 then -1 else if n1 > n2 then 1 else compare_parts (tl ps) (tl qs))"

definition compareVersions :: "string \<Rightarrow> string \<Rightarrow> int" where
  "compareVersions v1 v2 = compare_parts (Split (CHR ''.'') v1) (Split (CHR ''.'') v2)"

definition splitAndTrim :: "string \<Rightarrow> string list" where
  "splitAndTrim s = filter (\<lambda>p. p \<noteq> '''') (map TrimSpace (Split (CHR '','') s))"

definition name_listed :: "string \<Rightarrow> string \<Rightarrow> bool" where
  "name_listed raw name =
    (raw = '''' \<or> (name \<noteq> '''' \<and> list_ex (\<lambda>allowed. EqualFold allowed name) (splitAndTrim raw)))"

definition version_ok :: "setting_reader \<Rightarrow> string \<Rightarrow> string \<Rightarrow> bool" where
  "version_ok st key version =
    (let minVer = GetString st key '''' in
     minVer = '''' \<or> (version \<noteq> '''' \<and> \<not> compareVersions version minVer < 0))"

definition isDeviceAllowed :: "(string \<times> string) list \<Rightarrow> setting_reader option \<Rightarrow> bool" where
  "isDeviceAllowed deviceInfo settings =
    (case settings of
       None \<Rightarrow> True
     | Some st \<Rightarrow>
       if \<not> GetBool st ''device_trust_enabled'' False then True
       else if deviceInfo = [] then False
       else
         (let os = TrimSpace (go_get deviceInfo ''os'');
              osVersion = TrimSpace (go_get deviceInfo ''os_version'');
              browser = TrimSpace (go_get deviceInfo ''browser'');
              browserVersion = TrimSpace (go_get deviceInfo ''browser_version'');
              isMobile = (TrimSpace (go_get deviceInfo ''mobile'') = ''true'')
          in if GetBool st ''device_trust_block_mobile'' False \<and>
                (isMobile \<or> EqualFold os ''ios'' \<or> EqualFold os ''android'') then False
             else if \<not> name_listed (GetString st ''device_trust_allowed_os'' '''') os then False
             else if EqualFold os ''macos'' \<and>
                \<not> version_ok st ''device_trust_min_os_version_mac'' osVersion then False
             else if \<not> EqualFold os ''macos'' \<and> EqualFold os ''windows'' \<and>
                \<not> version_ok st ''device_trust_min_os_version_win'' osVersion then False
             else if \<not> name_listed (GetString st ''device_trust_allowed_browsers'' '''') browser then False
             else if EqualFold browser ''chrome'' then
                version_ok st ''device_trust_min_browser_version_chrome'' browserVersion
             else if EqualFold browser ''safari'' then
                version_ok st ''device_trust_min_browser_version_safari'' browserVersion
             else if EqualFold browser ''firefox'' then
                version_ok st ''device_trust_min_browser_version_firefox'' browserVersion
             else if EqualFold browser ''edge'' then
                version_ok st ''device_trust_min_browser_version_edge'' browserVersion
             else True))"

section \<open>Version order\<close>

definition head_num :: "string list \<Rightarrow> int" where
  "head_num ps = (case ps of [] \<Rightarrow> 0 | p # _ \<Rightarrow> fst (Atoi p))"

lemma compare_parts_unfold: "compare_parts ps qs =
    (if ps = [] \<and> qs = [] then 0
     else if head_num ps < head_num qs then -1
     else if head_num ps > head_num qs then 1
     else compare_parts (tl ps) (tl qs))"
  by (cases "(ps, qs)" rule: compare_parts.cases) (auto simp: head_num_def Let_def)

lemma compare_parts_antisym: "compare_parts qs ps = - compare_parts ps qs"
proof (induction "length ps + length qs" arbitrary: ps qs rule: less_induct)
  case less
  show ?case
  proof (cases "ps = [] \<and> qs = []")
    case True
    then show ?thesis by simp
  next
    case False
    then have "length (tl ps) + length (tl qs) < length ps + length qs"
      by (cases ps; cases qs) auto
    from less [OF this] show ?thesis
      by (simp add: compare_parts_unfold [of ps qs] compare_parts_unfold [of qs ps])
  qed
qed

lemma compare_parts_step: "head_num xs = head_num ys \<Longrightarrow>
    compare_parts xs ys = compare_parts (tl xs) (tl ys)"
  by (cases "xs = [] \<and> ys = []") (auto simp: compare_parts_unfold [of xs ys])

lemma compare_parts_le_head: "compare_parts xs ys \<le> 0 \<Longrightarrow> head_num xs \<le> head_num ys"
  by (cases "xs = [] \<and> ys = []")
    (auto simp: compare_parts_unfold [of xs ys] split: if_splits)

lemma compare_parts_trans:
  "compare_parts ps qs \<le> 0 \<Longrightarrow> compare_parts qs rs \<le> 0 \<Longrightarrow> compare_parts ps rs \<le> 0"
proof (induction "length ps + length qs + length rs" arbitrary: ps qs rs rule: less_induct)
  case less
  show ?case
  proof (cases "ps = [] \<and> qs = [] \<and> rs = []")
    case True
    then show ?thesis by simp
  next
    case False
    then have shorter: "length (tl ps) + length (tl qs) + length (tl rs) < length ps + length qs + length rs"
      by (cases ps; cases qs; cases rs) auto
    from compare_parts_le_head [OF less.prems(1)] compare_parts_le_head [OF less.prems(2)]
    consider "head_num ps < head_num rs" | "head_num ps = head_num qs" "head_num qs = head_num rs"
      by linarith
    then show ?thesis
    proof cases
      case 1
      then show ?thesis
        by (cases "ps = [] \<and> rs = []") (auto simp: compare_parts_unfold [of ps rs])
    next
      case 2
      have "compare_parts (tl ps) (tl rs) \<le> 0"
        using less.hyps [OF shorter] less.prems
          compare_parts_step [OF 2(1)] compare_parts_step [OF 2(2)] by simp
      with compare_parts_step [of ps rs] 2 show ?thesis by simp
    qed
  qed
qed

lemma version_ok_upgrade:
  assumes "version_ok st key v" "compareVersions v v' \<le> 0" "v' \<noteq> ''''"
  shows "version_ok st key v'"
proof (cases "GetString st key '''' = ''''")
  case True
  then show ?thesis by (simp add: version_ok_def)
next
  case False
  let ?m = "GetString st key ''''"
  from assms(1) False have "compareVersions ?m v \<le> 0"
    using compare_parts_antisym [of "Split (CHR ''.'') v" "Split (CHR ''.'') ?m"]
    by (simp add: version_ok_def Let_def compareVersions_def)
  with assms(2) have "compareVersions ?m v' \<le> 0"
    unfolding compareVersions_def by (blast intro: compare_parts_trans)
  then have "\<not> compareVersions v' ?m < 0"
    using compare_parts_antisym [of "Split (CHR ''.'') ?m" "Split (CHR ''.'') v'"]
    by (simp add: compareVersions_def)
  with assms(3) show ?thesis by (simp add: version_ok_def Let_def)
qed

section \<open>Blocks as bit prefixes\<close>

text \<open>Bit \<open>i\<close> of an address, counted from the most significant.\<close>

definition addr_bit :: "bytes \<Rightarrow> nat \<Rightarrow> bool" where
  "addr_bit b i = bit (b ! (i div 8)) (7 - i mod 8)"

lemma masked_bytes_eq:
  assumes "n \<le> 8 * l"
  shows "(\<forall>i < l. and (a ! i) (mask_byte (n - 8 * i)) = and (b ! i) (mask_byte (n - 8 * i))) \<longleftrightarrow>
    (\<forall>i < n. addr_bit a i = addr_bit b i)"
proof
  assume L: "\<forall>i < l. and (a ! i) (mask_byte (n - 8 * i)) = and (b ! i) (mask_byte (n - 8 * i))"
  show "\<forall>i < n. addr_bit a i = addr_bit b i"
  proof (intro allI impI)
    fix i assume "i < n"
    with assms have "i div 8 < l" by auto
    with L have "\<forall>j < 8. 8 - (n - 8 * (i div 8)) \<le> j \<longrightarrow> bit (a ! (i div 8)) j = bit (b ! (i div 8)) j"
      by (simp add: masked_byte_eq)
    moreover have "8 - (n - 8 * (i div 8)) \<le> 7 - i mod 8" using \<open>i < n\<close> div_mult_mod_eq [of i 8] mod_less_divisor [of 8 i] by linarith
    ultimately show "addr_bit a i = addr_bit b i" by (simp add: addr_bit_def)
  qed
next
  assume R: "\<forall>i < n. addr_bit a i = addr_bit b i"
  show "\<forall>i < l. and (a ! i) (mask_byte (n - 8 * i)) = and (b ! i) (mask_byte (n - 8 * i))"
    unfolding masked_byte_eq
  proof (intro allI impI)
    fix i j assume j: "i < l" "j < (8::nat)" "8 - (n - 8 * i) \<le> j"
    define d where "d = 7 - j"
    from j have d: "8 * i + d < n" "d < 8" "7 - d = j" by (auto simp: d_def)
    from d(1) R have "addr_bit a (8 * i + d) = addr_bit b (8 * i + d)" by blast
    moreover have "(8 * i + d) div 8 = i" "(8 * i + d) mod 8 = d" using d(2) by simp_all
    ultimately show "bit (a ! i) j = bit (b ! i) j" using d(3) by (simp add: addr_bit_def)
  qed
qed

lemma v4_net_contains:
  assumes "length b = 4" "n \<le> 32"
  shows "net_contains \<lparr>net_ip = mask_ip b (CIDRMask n 4), net_mask = CIDRMask n 4\<rparr> ip \<longleftrightarrow>
    (\<exists>x. To4 ip = Some x \<and> (\<forall>i < n. addr_bit x i = addr_bit b i))"
proof -
  let ?N = "\<lparr>net_ip = mask_ip b (CIDRMask n 4), net_mask = CIDRMask n 4\<rparr>"
  have num: "net_number_mask ?N = Some (mask_ip b (CIDRMask n 4), CIDRMask n 4)"
    using assms by (simp add: net_number_mask_def To4_def)
  have four: "To4 ip = Some x \<Longrightarrow> length x = 4" for x
    by (auto simp: To4_def split: if_splits)
  have no4: "To4 ip = None \<Longrightarrow> length ip \<noteq> 4" by (auto simp: To4_def)
  have eq: "(\<forall>i < 4. and (mask_ip b (CIDRMask n 4) ! i) (CIDRMask n 4 ! i) = and (x ! i) (CIDRMask n 4 ! i))
      \<longleftrightarrow> (\<forall>i < n. addr_bit x i = addr_bit b i)" if "length x = 4" for x
    using masked_bytes_eq [of n 4 b x] assms that
    by (auto simp: mask_ip_nth nth_CIDRMask and.assoc)
  show ?thesis
  proof (cases "To4 ip")
    case None
    with no4 assms show ?thesis by (simp add: net_contains_def num)
  next
    case (Some x)
    then have "net_contains ?N ip \<longleftrightarrow> (\<forall>i < 4. and (mask_ip b (CIDRMask n 4) ! i) (CIDRMask n 4 ! i)
        = and (x ! i) (CIDRMask n 4 ! i))"
      using four [OF Some] assms by (auto simp: net_contains_def num list_all_iff Ball_def)
    with eq [OF four [OF Some]] Some show ?thesis by simp
  qed
qed

end
