(* ===== verification/Event_Hub.thy ===== *)
theory Event_Hub
  imports ZT_Prelude
begin

text \<open>
  \<open>internal/session/hub.go\<close>: the fan-out of session events to the connected SSE clients. A client is
  a Go channel with a one-element buffer; a send to a full channel is skipped (\<open>select\<close> with
  \<open>default\<close>). The hub is the list of subscribed channels, each with its user and its buffer.
\<close>

datatype event_kind = Change | Revoked | RevokedAll | RevokedOthers

record hub_event =
  ev_kind :: event_kind
  ev_hash :: string

record hub_client =
  hc_id :: nat
  hc_user :: string
  hc_buf :: "hub_event option"

type_synonym event_hub = "hub_client list"

definition Subscribe :: "nat \<Rightarrow> string \<Rightarrow> event_hub \<Rightarrow> event_hub" where
  "Subscribe cid uid h = h @ [\<lparr>hc_id = cid, hc_user = uid, hc_buf = None\<rparr>]"

definition Unsubscribe :: "nat \<Rightarrow> event_hub \<Rightarrow> event_hub" where
  "Unsubscribe cid h = filter (\<lambda>c. hc_id c \<noteq> cid) h"

definition offer :: "hub_event \<Rightarrow> hub_client \<Rightarrow> hub_client" where
  "offer e c = (case hc_buf c of None \<Rightarrow> c\<lparr>hc_buf := Some e\<rparr> | Some _ \<Rightarrow> c)"

definition BroadcastEvent :: "string \<Rightarrow> hub_event \<Rightarrow> event_hub \<Rightarrow> event_hub" where
  "BroadcastEvent uid e h =
    (if uid = '''' then h else map (\<lambda>c. if hc_user c = uid then offer e c else c) h)"

definition Broadcast :: "string \<Rightarrow> event_hub \<Rightarrow> event_hub" where
  "Broadcast uid = BroadcastEvent uid \<lparr>ev_kind = Change, ev_hash = ''''\<rparr>"

definition BroadcastRevoked :: "string \<Rightarrow> string \<Rightarrow> event_hub \<Rightarrow> event_hub" where
  "BroadcastRevoked uid h = BroadcastEvent uid \<lparr>ev_kind = Revoked, ev_hash = h\<rparr>"

definition BroadcastRevokedAll :: "string \<Rightarrow> event_hub \<Rightarrow> event_hub" where
  "BroadcastRevokedAll uid = BroadcastEvent uid \<lparr>ev_kind = RevokedAll, ev_hash = ''''\<rparr>"

definition BroadcastRevokedOthers :: "string \<Rightarrow> string \<Rightarrow> event_hub \<Rightarrow> event_hub" where
  "BroadcastRevokedOthers uid keep = BroadcastEvent uid \<lparr>ev_kind = RevokedOthers, ev_hash = keep\<rparr>"

text \<open>The SSE handler takes the buffered event of its channel.\<close>

definition receive :: "nat \<Rightarrow> event_hub \<Rightarrow> hub_event option \<times> event_hub" where
  "receive cid h =
    (Option.bind (List.find (\<lambda>c. hc_id c = cid) h) hc_buf,
     map (\<lambda>c. if hc_id c = cid then c\<lparr>hc_buf := None\<rparr> else c) h)"

lemmas hub_defs = Broadcast_def BroadcastRevoked_def BroadcastRevokedAll_def
  BroadcastRevokedOthers_def BroadcastEvent_def offer_def

lemma BroadcastEvent_ids [simp]: "map hc_id (BroadcastEvent uid e h) = map hc_id h"
  by (auto simp: BroadcastEvent_def offer_def split: option.splits)

lemma BroadcastEvent_other: "c \<in> set h \<Longrightarrow> hc_user c \<noteq> uid \<Longrightarrow> c \<in> set (BroadcastEvent uid e h)"
  by (force simp: BroadcastEvent_def)

text \<open>An idle client of the user gets the event; one with an unread event keeps the old one.\<close>

lemma BroadcastEvent_delivery:
  assumes "c \<in> set h" "hc_user c = uid" "uid \<noteq> ''''"
  shows "(if hc_buf c = None then c\<lparr>hc_buf := Some e\<rparr> else c) \<in> set (BroadcastEvent uid e h)"
proof -
  have "(if hc_buf c = None then c\<lparr>hc_buf := Some e\<rparr> else c) = offer e c"
    by (auto simp: offer_def split: option.splits)
  moreover have "offer e c \<in> set (BroadcastEvent uid e h)"
    using assms by (force simp: BroadcastEvent_def)
  ultimately show ?thesis by simp
qed

end
