(* ===== verification/Session_Repo.thy ===== *)
theory Session_Repo
  imports Event_Hub Go_Net
begin

text \<open>
  \<open>internal/session/repository.go\<close>: the table \<open>sessions\<close> and every statement the repository runs on
  it. The table is the list of its rows; a statement is a function on it, with the clauses of its
  SQL text as the predicate and the assignment. The argument \<open>ok\<close> of an operation says whether
  PostgreSQL executes it: \<open>False\<close> is the driver error the Go code gets back, the table unchanged
  (a transaction is rolled back). \<open>now\<close> is SQL's \<open>now()\<close>.
\<close>

section \<open>State\<close>

type_synonym device_info = "(string \<times> string) list"

record session_row =
  s_id :: string
  s_user :: string
  s_hash :: string
  s_ip :: "netip_addr option"
  s_ua :: string
  s_device :: device_info
  s_expires :: instant
  s_created :: instant
  s_last :: "instant option"
  s_revoked :: bool
  s_reason :: "string option"

record session_repo =
  rows :: "session_row list"
  hub :: event_hub

datatype 'e repo_error = ErrNotFound | ErrDB | ErrGenerate 'e

abbreviation activeSessionWindow :: duration where
  "activeSessionWindow \<equiv> 5 * go_minute"

abbreviation tokenReuseGrace :: duration where
  "tokenReuseGrace \<equiv> 5 * go_second"

abbreviation staleInitialCutoff :: duration where
  "staleInitialCutoff \<equiv> 90 * go_second"

text \<open>\<open>COALESCE(last_used_at, created_at)\<close>.\<close>

definition last_active :: "session_row \<Rightarrow> instant" where
  "last_active r = (case s_last r of Some t \<Rightarrow> t | None \<Rightarrow> s_created r)"

text \<open>\<open>is_revoked = false AND expires_at > now()\<close>, the clause shared by most statements.\<close>

definition usable :: "instant \<Rightarrow> session_row \<Rightarrow> bool" where
  "usable now r \<longleftrightarrow> \<not> s_revoked r \<and> now < s_expires r"

definition normalizeDeviceInfo :: "device_info \<Rightarrow> device_info" where
  "normalizeDeviceInfo d = filter (\<lambda>(k, v). k \<noteq> '''' \<and> length k \<le> 40 \<and> length v \<le> 80) d"

definition parseAddr :: "string \<Rightarrow> netip_addr option" where
  "parseAddr addr = ParseAddr (case SplitHostPort addr of Some (h, _) \<Rightarrow> h | None \<Rightarrow> addr)"

section \<open>Statements\<close>

text \<open>\<open>INSERT\<close> fails on the unique index of \<open>refresh_token_hash\<close> and on the primary key.\<close>

definition insert_row :: "session_row \<Rightarrow> session_row list \<Rightarrow> session_row list option" where
  "insert_row r rs = (if s_hash r \<in> s_hash ` set rs \<or> s_id r \<in> s_id ` set rs then None else Some (rs @ [r]))"

definition Create :: "bool \<Rightarrow> string \<Rightarrow> instant \<Rightarrow> string \<Rightarrow> string \<Rightarrow> string \<Rightarrow> string \<Rightarrow> device_info \<Rightarrow>
    instant \<Rightarrow> session_repo \<Rightarrow> session_repo \<times> ('e repo_error + unit)" where
  "Create ok newid now userID tokenHash ip userAgent deviceInfo expiresAt st =
    (case (if ok then insert_row \<lparr>s_id = newid, s_user = userID, s_hash = tokenHash,
        s_ip = parseAddr ip, s_ua = userAgent, s_device = normalizeDeviceInfo deviceInfo,
        s_expires = expiresAt, s_created = now, s_last = None, s_revoked = False, s_reason = None\<rparr> (rows st)
      else None) of
       None \<Rightarrow> (st, Inl ErrDB)
     | Some rs \<Rightarrow> (st\<lparr>rows := rs, hub := Broadcast userID (hub st)\<rparr>, Inr ()))"

definition same_device :: "string \<Rightarrow> string \<Rightarrow> device_info \<Rightarrow> session_row \<Rightarrow> bool" where
  "same_device ip userAgent deviceInfo r \<longleftrightarrow>
     s_ip r = parseAddr ip \<and> s_ua r = userAgent \<and> same_map (s_device r) (normalizeDeviceInfo deviceInfo)"

definition RevokeForDevice :: "bool \<Rightarrow> instant \<Rightarrow> string \<Rightarrow> string \<Rightarrow> string \<Rightarrow> device_info \<Rightarrow>
    session_repo \<Rightarrow> session_repo \<times> ('e repo_error + unit)" where
  "RevokeForDevice ok now userID ip userAgent deviceInfo st =
    (let P = (\<lambda>r. s_user r = userID \<and> usable now r \<and> same_device ip userAgent deviceInfo r) in
     if \<not> ok then (st, Inl ErrDB)
     else (st\<lparr>rows := sql_update P (\<lambda>r. r\<lparr>s_revoked := True, s_last := Some now,
              s_reason := Some ''device_replaced''\<rparr>) (rows st),
             hub := (if list_ex P (rows st) then Broadcast userID (hub st) else hub st)\<rparr>, Inr ()))"

definition FindUserIDByHash :: "bool \<Rightarrow> instant \<Rightarrow> string \<Rightarrow> session_repo \<Rightarrow> 'e repo_error + string" where
  "FindUserIDByHash ok now hash st =
    (if \<not> ok then Inl ErrDB
     else case sql_first (\<lambda>r. s_hash r = hash \<and> usable now r \<and> now - activeSessionWindow < last_active r)
        (rows st) of
       None \<Rightarrow> Inl ErrNotFound | Some r \<Rightarrow> Inr (s_user r))"

text \<open>
  The callback \<open>generate\<close> gets the owner, the last activity and the expiry of the locked row and
  returns the replacement's hash, address, user agent, device and expiry, or an error, and whatever
  else it computed (the token pair that \<open>RefreshTokens\<close> keeps in a captured variable).
\<close>

definition RotateSession :: "bool \<Rightarrow> string \<Rightarrow> instant \<Rightarrow> string \<Rightarrow>
    (string \<Rightarrow> instant \<Rightarrow> instant \<Rightarrow> 'e + (string \<times> string \<times> string \<times> device_info \<times> instant) \<times> 'x) \<Rightarrow>
    session_repo \<Rightarrow> session_repo \<times> ('e repo_error + 'x)" where
  "RotateSession ok newid now oldHash generate st =
    (if \<not> ok then (st, Inl ErrDB)
     else case sql_first (\<lambda>r. s_hash r = oldHash \<and> usable now r) (rows st) of
       None \<Rightarrow> (st, Inl ErrNotFound)
     | Some r \<Rightarrow>
       (case generate (s_user r) (last_active r) (s_expires r) of
          Inl e \<Rightarrow> (st, Inl (ErrGenerate e))
        | Inr ((newHash, ip, ua, deviceInfo, expiresAt), x) \<Rightarrow>
          (case insert_row \<lparr>s_id = newid, s_user = s_user r, s_hash = newHash, s_ip = parseAddr ip,
              s_ua = ua, s_device = normalizeDeviceInfo deviceInfo, s_expires = expiresAt,
              s_created = now, s_last = Some now, s_revoked = False, s_reason = None\<rparr>
              (sql_update (\<lambda>q. s_hash q = oldHash)
                (\<lambda>q. q\<lparr>s_revoked := True, s_last := Some now, s_reason := Some ''rotation''\<rparr>) (rows st)) of
             None \<Rightarrow> (st, Inl ErrDB)
           | Some rs \<Rightarrow> (st\<lparr>rows := rs\<rparr>, Inr x))))"

definition Revoke :: "bool \<Rightarrow> instant \<Rightarrow> string \<Rightarrow> session_repo \<Rightarrow> session_repo \<times> ('e repo_error + unit)" where
  "Revoke ok now hash st =
    (let P = (\<lambda>r. s_hash r = hash \<and> \<not> s_revoked r) in
     if \<not> ok then (st, Inl ErrDB)
     else case sql_first P (rows st) of
       None \<Rightarrow> (st, Inr ())
     | Some r \<Rightarrow> (st\<lparr>rows := sql_update P (\<lambda>r. r\<lparr>s_revoked := True, s_last := Some now,
              s_reason := Some ''logout''\<rparr>) (rows st),
            hub := Broadcast (s_user r) (hub st)\<rparr>, Inr ()))"

text \<open>\<open>CheckReuse\<close>: the empty user ID is "no reuse".\<close>

definition CheckReuse :: "bool \<Rightarrow> instant \<Rightarrow> string \<Rightarrow> session_repo \<Rightarrow> 'e repo_error + string" where
  "CheckReuse ok now hash st =
    (if \<not> ok then Inl ErrDB
     else case sql_first (\<lambda>r. s_hash r = hash \<and> s_revoked r \<and> s_reason r = Some ''rotation'' \<and>
          last_active r \<le> now - tokenReuseGrace) (rows st) of
       None \<Rightarrow> Inr '''' | Some r \<Rightarrow> Inr (s_user r))"

text \<open>\<open>RevokeAllForUser\<close> also calls the OIDC revoker when one is wired; its state is threaded.\<close>

definition RevokeAllForUser :: "bool \<Rightarrow> (string \<Rightarrow> 'o \<Rightarrow> 'o \<times> bool) option \<Rightarrow> string \<Rightarrow>
    session_repo \<times> 'o \<Rightarrow> (session_repo \<times> 'o) \<times> ('e repo_error + unit)" where
  "RevokeAllForUser ok oidc userID w =
    (case w of (st, o1) \<Rightarrow>
       if \<not> ok then ((st, o1), Inl ErrDB)
       else
         (let st' = st\<lparr>rows := sql_update (\<lambda>r. s_user r = userID \<and> \<not> s_revoked r)
                  (\<lambda>r. r\<lparr>s_revoked := True, s_reason := Some ''mass_revoke''\<rparr>) (rows st),
                hub := BroadcastRevokedAll userID (hub st)\<rparr> in
          case oidc of
            None \<Rightarrow> ((st', o1), Inr ())
          | Some f \<Rightarrow> (case f userID o1 of (o2, done) \<Rightarrow>
              ((st', o2), if done then Inr () else Inl ErrDB))))"

definition RevokeOtherSessions :: "bool \<Rightarrow> instant \<Rightarrow> string \<Rightarrow> string \<Rightarrow> session_repo \<Rightarrow>
    session_repo \<times> ('e repo_error + unit)" where
  "RevokeOtherSessions ok now userID currentHash st =
    (let P = (\<lambda>r. s_user r = userID \<and> usable now r \<and> s_hash r \<noteq> currentHash) in
     if \<not> ok then (st, Inl ErrDB)
     else (st\<lparr>rows := sql_update P (\<lambda>r. r\<lparr>s_revoked := True, s_last := Some now,
              s_reason := Some ''revoke_others''\<rparr>) (rows st),
             hub := (if list_ex P (rows st) then BroadcastRevokedOthers userID currentHash (hub st)
                     else hub st)\<rparr>, Inr ()))"

text \<open>
  The subquery of \<open>EvictExcessSessions\<close>: the \<open>keep\<close> most recently active rows (ties in table order).
  PostgreSQL rejects a negative \<open>LIMIT\<close>.
\<close>

definition kept_ids :: "string \<Rightarrow> int \<Rightarrow> session_row list \<Rightarrow> string list" where
  "kept_ids userID keep rs = map s_id (take (nat keep)
     (sort_key (\<lambda>r. - last_active r) (filter (\<lambda>r. s_user r = userID \<and> \<not> s_revoked r) rs)))"

definition EvictExcessSessions :: "bool \<Rightarrow> string \<Rightarrow> int \<Rightarrow> session_repo \<Rightarrow>
    session_repo \<times> ('e repo_error + unit)" where
  "EvictExcessSessions ok userID keep st =
    (if \<not> ok \<or> keep < 0 then (st, Inl ErrDB)
     else (st\<lparr>rows := sql_update
              (\<lambda>r. s_user r = userID \<and> \<not> s_revoked r \<and> s_id r \<notin> set (kept_ids userID keep (rows st)))
              (\<lambda>r. r\<lparr>s_revoked := True, s_reason := Some ''evicted''\<rparr>) (rows st),
             hub := Broadcast userID (hub st)\<rparr>, Inr ()))"

definition RevokeByID :: "bool \<Rightarrow> instant \<Rightarrow> string \<Rightarrow> string \<Rightarrow> session_repo \<Rightarrow>
    session_repo \<times> ('e repo_error + unit)" where
  "RevokeByID ok now sid userID st =
    (let P = (\<lambda>r. s_id r = sid \<and> s_user r = userID \<and> \<not> s_revoked r) in
     if \<not> ok then (st, Inl ErrDB)
     else case sql_first P (rows st) of
       None \<Rightarrow> (st, Inl ErrNotFound)
     | Some r \<Rightarrow> (st\<lparr>rows := sql_update P (\<lambda>r. r\<lparr>s_revoked := True, s_last := Some now,
              s_reason := Some ''revoke_by_id''\<rparr>) (rows st),
            hub := Broadcast userID (BroadcastRevoked userID (s_hash r) (hub st))\<rparr>, Inr ()))"

definition stale_initial :: "instant \<Rightarrow> session_row \<Rightarrow> bool" where
  "stale_initial now r \<longleftrightarrow> usable now r \<and> s_last r = None \<and>
     s_created r < now - staleInitialCutoff \<and> now - 10 * go_minute < s_created r"

definition RevokeStaleInitialSessions :: "bool \<Rightarrow> instant \<Rightarrow> session_repo \<Rightarrow>
    session_repo \<times> ('e repo_error + int)" where
  "RevokeStaleInitialSessions ok now st =
    (if \<not> ok then (st, Inl ErrDB)
     else
       (let hit = filter (stale_initial now) (rows st) in
        (st\<lparr>rows := sql_update (stale_initial now) (\<lambda>r. r\<lparr>s_revoked := True, s_last := Some now,
              s_reason := Some ''stale_initial''\<rparr>) (rows st),
            hub := fold (\<lambda>r. BroadcastRevoked (s_user r) (s_hash r)) hit (hub st)\<rparr>,
         Inr (int (length hit)))))"

definition cleanup_hit :: "instant \<Rightarrow> session_row \<Rightarrow> bool" where
  "cleanup_hit now r \<longleftrightarrow> s_expires r < now \<or> s_revoked r \<or> last_active r \<le> now - activeSessionWindow"

definition DeleteExpired :: "bool \<Rightarrow> instant \<Rightarrow> session_repo \<Rightarrow> session_repo \<times> ('e repo_error + int)" where
  "DeleteExpired ok now st =
    (if \<not> ok then (st, Inl ErrDB)
     else (st\<lparr>rows := filter (\<lambda>r. \<not> cleanup_hit now r) (rows st)\<rparr>,
           Inr (int (length (filter (cleanup_hit now) (rows st))))))"

text \<open>The read models. \<open>GetActiveSessions\<close> feeds the anomaly detection, \<open>ListForUser\<close> the session page.\<close>

definition GetActiveSessions :: "bool \<Rightarrow> instant \<Rightarrow> string \<Rightarrow> session_repo \<Rightarrow> 'e repo_error + session_row list" where
  "GetActiveSessions ok now userID st =
    (if \<not> ok then Inl ErrDB else Inr (filter (\<lambda>r. s_user r = userID \<and> usable now r) (rows st)))"

definition ListForUser :: "bool \<Rightarrow> instant \<Rightarrow> string \<Rightarrow> string \<Rightarrow> session_repo \<Rightarrow>
    'e repo_error + (session_row \<times> bool) list" where
  "ListForUser ok now userID currentHash st =
    (if \<not> ok then Inl ErrDB
     else
       (let live = sort_key (\<lambda>r. - last_active r) (filter (\<lambda>r. s_user r = userID \<and> usable now r \<and>
              now - activeSessionWindow < last_active r) (rows st))
        in Inr (map (\<lambda>r. (r, True)) (filter (\<lambda>r. s_hash r = currentHash) live) @
                map (\<lambda>r. (r, False)) (filter (\<lambda>r. s_hash r \<noteq> currentHash) live))))"

section \<open>Well-formedness and the token view\<close>

text \<open>The primary key and the unique index of migration 31: identifiers and hashes are distinct.\<close>

definition wf_repo :: "session_repo \<Rightarrow> bool" where
  "wf_repo st \<longleftrightarrow> distinct (map s_id (rows st)) \<and> distinct (map s_hash (rows st))"

text \<open>
  What the rest of the system needs of the table: which token hash is accepted at a given time, for
  which user and until when.
\<close>

definition token_view :: "session_repo \<Rightarrow> instant \<Rightarrow> string \<Rightarrow> (string \<times> instant) option" where
  "token_view st now h = map_option (\<lambda>r. (s_user r, s_expires r))
     (sql_first (\<lambda>r. s_hash r = h \<and> usable now r) (rows st))"

text \<open>A hash is retired when every row that carries it is revoked (or none carries it).\<close>

definition retired :: "string \<Rightarrow> session_repo \<Rightarrow> bool" where
  "retired h st \<longleftrightarrow> (\<forall>r \<in> set (rows st). s_hash r = h \<longrightarrow> s_revoked r)"

definition live_count :: "string \<Rightarrow> session_repo \<Rightarrow> nat" where
  "live_count uid st = length (filter (\<lambda>r. s_user r = uid \<and> \<not> s_revoked r) (rows st))"

text \<open>The assignments of the \<open>UPDATE\<close> statements revoke and never touch identity, owner or expiry.\<close>

definition revoking :: "(session_row \<Rightarrow> session_row) \<Rightarrow> bool" where
  "revoking f \<longleftrightarrow> (\<forall>r. s_revoked (f r) \<and> s_id (f r) = s_id r \<and> s_hash (f r) = s_hash r \<and>
     s_user (f r) = s_user r \<and> s_expires (f r) = s_expires r)"

lemma revokingI [intro]:
  "revoking (\<lambda>r. r\<lparr>s_revoked := True, s_last := l, s_reason := x\<rparr>)"
  "revoking (\<lambda>r. r\<lparr>s_revoked := True, s_reason := x\<rparr>)"
  "revoking (\<lambda>r. r\<lparr>s_revoked := True\<rparr>)"
  by (simp_all add: revoking_def)

lemma map_revoking [simp]:
  assumes "revoking f"
  shows "map s_hash (sql_update P f rs) = map s_hash rs" "map s_id (sql_update P f rs) = map s_id rs"
  using assms by (auto simp: revoking_def intro!: map_sql_update)

lemma wf_revoking: "revoking f \<Longrightarrow> rows st' = sql_update P f (rows st) \<Longrightarrow> wf_repo st \<Longrightarrow> wf_repo st'"
  by (simp add: wf_repo_def)

lemma retired_revoking: "revoking f \<Longrightarrow> rows st' = sql_update P f (rows st) \<Longrightarrow> retired h st \<Longrightarrow> retired h st'"
  by (auto simp: retired_def revoking_def sql_update_set split: if_splits)

lemma retired_view: "retired h st \<Longrightarrow> token_view st now h = None"
  by (auto simp: token_view_def retired_def sql_first_None usable_def)

lemma find_by_hash:
  assumes "distinct (map s_hash rs)" "r \<in> set rs" "s_hash r = h" "Q r"
  shows "sql_first (\<lambda>q. s_hash q = h \<and> Q q) rs = Some r"
  unfolding sql_first_def
  by (rule find_ex1) (use assms in \<open>auto simp: distinct_map dest: inj_onD\<close>)

lemma token_view_eq:
  assumes "wf_repo st"
  shows "token_view st now h = Some (u, e) \<longleftrightarrow>
    (\<exists>r \<in> set (rows st). s_hash r = h \<and> usable now r \<and> s_user r = u \<and> s_expires r = e)"
proof
  assume "token_view st now h = Some (u, e)"
  then show "\<exists>r \<in> set (rows st). s_hash r = h \<and> usable now r \<and> s_user r = u \<and> s_expires r = e"
    by (auto simp: token_view_def dest!: sql_first_Some)
next
  assume "\<exists>r \<in> set (rows st). s_hash r = h \<and> usable now r \<and> s_user r = u \<and> s_expires r = e"
  then show "token_view st now h = Some (u, e)"
    using assms find_by_hash [of "rows st" _ h "usable now"] by (auto simp: token_view_def wf_repo_def)
qed

lemma option_pair_eqI: "(\<And>u e. x = Some (u, e) \<longleftrightarrow> y = Some (u, e)) \<Longrightarrow> x = y"
  by (cases x; cases y) auto

text \<open>The effect of a revoking statement on the view, from its \<open>WHERE\<close> clause.\<close>

lemma view_revoking:
  assumes wf: "wf_repo st" and f: "revoking f" and st': "rows st' = sql_update P f (rows st)"
    and P: "\<And>r. r \<in> set (rows st) \<Longrightarrow> usable t r \<Longrightarrow> P r \<longleftrightarrow> Q (s_hash r) (s_user r)"
  shows "token_view st' t h = (case token_view st t h of None \<Rightarrow> None
    | Some (u, e) \<Rightarrow> if Q h u then None else Some (u, e))"
proof (rule option_pair_eqI)
  fix u e
  have wf': "wf_repo st'" using wf_revoking [OF f st' wf] .
  have "token_view st' t h = Some (u, e) \<longleftrightarrow>
      (\<exists>r \<in> set (rows st). \<not> P r \<and> s_hash r = h \<and> usable t r \<and> s_user r = u \<and> s_expires r = e)"
    using f unfolding token_view_eq [OF wf'] st' bex_sql_update revoking_def usable_def
    by (intro bex_cong refl) auto
  also have "\<dots> \<longleftrightarrow> token_view st t h = Some (u, e) \<and> \<not> Q h u"
    using P unfolding token_view_eq [OF wf] by blast
  finally show "token_view st' t h = Some (u, e) \<longleftrightarrow>
      (case token_view st t h of None \<Rightarrow> None | Some (u, e) \<Rightarrow> if Q h u then None else Some (u, e)) = Some (u, e)"
    by (auto split: option.splits if_splits)
qed

lemma insert_row_Some: "insert_row r rs = Some rs' \<Longrightarrow> rs' = rs @ [r]"
  by (auto simp: insert_row_def split: if_splits)

lemma view_insert:
  assumes "wf_repo st" "insert_row r (rows st) = Some rs" "rows st' = rs"
  shows "wf_repo st'" "token_view st' t h =
    (if h = s_hash r then (if usable t r then Some (s_user r, s_expires r) else None) else token_view st t h)"
proof -
  from assms(2) have rs: "rs = rows st @ [r]"
    and fresh: "s_id r \<notin> s_id ` set (rows st)" "s_hash r \<notin> s_hash ` set (rows st)"
    by (auto simp: insert_row_def split: if_splits)
  from fresh(2) have new: "\<forall>q \<in> set (rows st). s_hash q \<noteq> s_hash r" by (auto simp: image_iff)
  show wf': "wf_repo st'"
    using assms(1) fresh unfolding wf_repo_def assms(3) rs by simp
  show "token_view st' t h =
    (if h = s_hash r then (if usable t r then Some (s_user r, s_expires r) else None) else token_view st t h)"
    by (rule option_pair_eqI)
      (use new in \<open>auto simp: token_view_eq [OF wf'] token_view_eq [OF assms(1)] assms(3) rs\<close>)
qed

section \<open>Operations on the view\<close>

lemma Create_ok:
  assumes "Create ok nid now uid h ip ua d e st = (st', Inr ())"
  shows "\<exists>rs. insert_row \<lparr>s_id = nid, s_user = uid, s_hash = h, s_ip = parseAddr ip, s_ua = ua,
      s_device = normalizeDeviceInfo d, s_expires = e, s_created = now, s_last = None,
      s_revoked = False, s_reason = None\<rparr> (rows st) = Some rs \<and> rows st' = rs"
  using assms by (auto simp: Create_def split: option.splits if_splits)

lemma Create_view:
  assumes "wf_repo st" "Create ok nid now uid h ip ua d e st = (st', Inr ())"
  shows "wf_repo st'" "token_view st' t k =
    (if k = h then (if t < e then Some (uid, e) else None) else token_view st t k)"
  using Create_ok [OF assms(2)] view_insert [OF assms(1)] by (auto simp: usable_def)

lemma RotateSession_ok:
  assumes "RotateSession ok nid now old gen st = (st', Inr x)"
  obtains r newHash ip ua d e where
    "r \<in> set (rows st)" "s_hash r = old" "usable now r"
    "gen (s_user r) (last_active r) (s_expires r) = Inr ((newHash, ip, ua, d, e), x)"
    "insert_row \<lparr>s_id = nid, s_user = s_user r, s_hash = newHash, s_ip = parseAddr ip, s_ua = ua,
        s_device = normalizeDeviceInfo d, s_expires = e, s_created = now, s_last = Some now,
        s_revoked = False, s_reason = None\<rparr>
      (sql_update (\<lambda>q. s_hash q = old)
        (\<lambda>q. q\<lparr>s_revoked := True, s_last := Some now, s_reason := Some ''rotation''\<rparr>) (rows st))
      = Some (rows st')"
  using assms
  by (auto simp: RotateSession_def dest!: sql_first_Some
      split: option.splits if_splits sum.splits prod.splits)

lemma RotateSession_error_frame:
  "RotateSession ok nid now old gen st = (st', Inl e) \<Longrightarrow> st' = st"
  by (auto simp: RotateSession_def split: option.splits if_splits sum.splits prod.splits)

text \<open>A successful rotation swaps the two hashes and changes nothing else.\<close>

lemma RotateSession_row:
  assumes wf: "wf_repo st" and ok: "RotateSession ok nid now old gen st = (st', Inr x)"
  obtains r newHash ip ua d e' where
    "r \<in> set (rows st)" "s_hash r = old" "usable now r" "token_view st now old = Some (s_user r, s_expires r)"
    "gen (s_user r) (last_active r) (s_expires r) = Inr ((newHash, ip, ua, d, e'), x)"
    "newHash \<noteq> old" "wf_repo st'"
    "\<And>t k. token_view st' t k = (if k = newHash then (if t < e' then Some (s_user r, e') else None)
       else if k = old then None else token_view st t k)"
proof -
  from ok obtain r newHash ip ua d e' where r: "r \<in> set (rows st)" "s_hash r = old" "usable now r"
    and g: "gen (s_user r) (last_active r) (s_expires r) = Inr ((newHash, ip, ua, d, e'), x)"
    and ins: "insert_row \<lparr>s_id = nid, s_user = s_user r, s_hash = newHash, s_ip = parseAddr ip, s_ua = ua,
        s_device = normalizeDeviceInfo d, s_expires = e', s_created = now, s_last = Some now,
        s_revoked = False, s_reason = None\<rparr>
      (sql_update (\<lambda>q. s_hash q = old)
        (\<lambda>q. q\<lparr>s_revoked := True, s_last := Some now, s_reason := Some ''rotation''\<rparr>) (rows st))
      = Some (rows st')"
    by (rule RotateSession_ok)
  let ?f = "\<lambda>q. q\<lparr>s_revoked := True, s_last := Some now, s_reason := Some ''rotation''\<rparr>"
  define m where "m = st\<lparr>rows := sql_update (\<lambda>q. s_hash q = old) ?f (rows st)\<rparr>"
  have mrows: "rows m = sql_update (\<lambda>q. s_hash q = old) ?f (rows st)" by (simp add: m_def)
  have wfm: "wf_repo m" by (rule wf_revoking [OF _ mrows wf]) auto
  have vm: "token_view m t k = (if k = old then None else token_view st t k)" for t k
    using view_revoking [OF wf revokingI(1) mrows, of t "\<lambda>h u. h = old" k]
    by (auto split: option.splits)
  have "token_view st now old = Some (s_user r, s_expires r)"
    using r by (auto simp: token_view_eq [OF wf])
  moreover have "newHash \<noteq> old"
  proof
    assume eq: "newHash = old"
    have "s_hash ` set (rows m) = s_hash ` set (rows st)"
      using map_revoking(1) [OF revokingI(1)] unfolding mrows by (metis list.set_map)
    with r have "old \<in> s_hash ` set (rows m)" by auto
    with ins eq show False by (auto simp: insert_row_def mrows split: if_splits)
  qed
  moreover note view_insert [OF wfm, folded mrows, OF ins [folded mrows] refl]
  ultimately show thesis
    using r by (intro that [of r newHash ip ua d e']) (auto simp: g vm usable_def)
qed

lemma RotateSession_view:
  assumes wf: "wf_repo st" and ok: "RotateSession ok nid now old gen st = (st', Inr x)"
  obtains u e la newHash ip ua d e' where
    "token_view st now old = Some (u, e)" "gen u la e = Inr ((newHash, ip, ua, d, e'), x)"
    "newHash \<noteq> old" "wf_repo st'"
    "\<And>t k. token_view st' t k = (if k = newHash then (if t < e' then Some (u, e') else None)
       else if k = old then None else token_view st t k)"
  by (rule RotateSession_row [OF assms]) (rule that)

lemma revoking_ops_rows:
  "Revoke ok now h st = (st', r1) \<Longrightarrow> st' = st \<or> rows st' = sql_update (\<lambda>r. s_hash r = h \<and> \<not> s_revoked r)
     (\<lambda>r. r\<lparr>s_revoked := True, s_last := Some now, s_reason := Some ''logout''\<rparr>) (rows st)"
  "RevokeForDevice ok now uid ip ua d st = (st', r2) \<Longrightarrow> st' = st \<or> rows st' = sql_update
     (\<lambda>r. s_user r = uid \<and> usable now r \<and> same_device ip ua d r)
     (\<lambda>r. r\<lparr>s_revoked := True, s_last := Some now, s_reason := Some ''device_replaced''\<rparr>) (rows st)"
  "RevokeOtherSessions ok now uid h st = (st', r3) \<Longrightarrow> st' = st \<or> rows st' = sql_update
     (\<lambda>r. s_user r = uid \<and> usable now r \<and> s_hash r \<noteq> h)
     (\<lambda>r. r\<lparr>s_revoked := True, s_last := Some now, s_reason := Some ''revoke_others''\<rparr>) (rows st)"
  "EvictExcessSessions ok uid keep st = (st', r4) \<Longrightarrow> st' = st \<or> rows st' = sql_update
     (\<lambda>r. s_user r = uid \<and> \<not> s_revoked r \<and> s_id r \<notin> set (kept_ids uid keep (rows st)))
     (\<lambda>r. r\<lparr>s_revoked := True, s_reason := Some ''evicted''\<rparr>) (rows st)"
  "RevokeByID ok now sid uid st = (st', r5) \<Longrightarrow> st' = st \<or> rows st' = sql_update
     (\<lambda>r. s_id r = sid \<and> s_user r = uid \<and> \<not> s_revoked r)
     (\<lambda>r. r\<lparr>s_revoked := True, s_last := Some now, s_reason := Some ''revoke_by_id''\<rparr>) (rows st)"
  "RevokeStaleInitialSessions ok now st = (st', r6) \<Longrightarrow> st' = st \<or> rows st' = sql_update (stale_initial now)
     (\<lambda>r. r\<lparr>s_revoked := True, s_last := Some now, s_reason := Some ''stale_initial''\<rparr>) (rows st)"
  "RevokeAllForUser ok oidc uid (st, o1) = ((st', o2), r7) \<Longrightarrow> st' = st \<or> rows st' = sql_update
     (\<lambda>r. s_user r = uid \<and> \<not> s_revoked r)
     (\<lambda>r. r\<lparr>s_revoked := True, s_reason := Some ''mass_revoke''\<rparr>) (rows st)"
  by (auto simp: Revoke_def RevokeForDevice_def RevokeOtherSessions_def EvictExcessSessions_def RevokeByID_def
      RevokeStaleInitialSessions_def RevokeAllForUser_def Let_def
      split: if_splits option.splits prod.splits)

lemma DeleteExpired_rows:
  "DeleteExpired ok now st = (st', r) \<Longrightarrow> st' = st \<or> rows st' = filter (\<lambda>r. \<not> cleanup_hit now r) (rows st)"
  by (auto simp: DeleteExpired_def split: if_splits)

lemma RevokeAllForUser_view:
  assumes "wf_repo st" "RevokeAllForUser True oidc uid (st, o1) = ((st', o2), r)"
  shows "wf_repo st'" "token_view st' t k = (case token_view st t k of None \<Rightarrow> None
    | Some (u, e) \<Rightarrow> if u = uid then None else Some (u, e))"
proof -
  have rows': "rows st' = sql_update (\<lambda>r. s_user r = uid \<and> \<not> s_revoked r)
     (\<lambda>r. r\<lparr>s_revoked := True, s_reason := Some ''mass_revoke''\<rparr>) (rows st)"
    using assms(2) by (auto simp: RevokeAllForUser_def Let_def split: option.splits prod.splits)
  show "wf_repo st'" by (rule wf_revoking [OF revokingI(2) rows' assms(1)])
  show "token_view st' t k = (case token_view st t k of None \<Rightarrow> None
    | Some (u, e) \<Rightarrow> if u = uid then None else Some (u, e))"
    by (rule view_revoking [OF assms(1) revokingI(2) rows', where Q = "\<lambda>h u. u = uid"])
      (auto simp: usable_def)
qed

section \<open>The interface of the refresh-token store\<close>

text \<open>
  What \<open>auth.SessionStore\<close> promises its clients, over an abstract store: rotation consumes the
  presented hash and installs the new one for the same user, fails without effect otherwise, and
  \<open>RevokeAllForUser\<close> takes every token of the user out.
\<close>

locale refresh_tokens =
  fixes inv :: "'s \<Rightarrow> bool"
    and view :: "'s \<Rightarrow> instant \<Rightarrow> string \<Rightarrow> (string \<times> instant) option"
    and rotate :: "instant \<Rightarrow> string \<Rightarrow>
      (string \<Rightarrow> instant \<Rightarrow> instant \<Rightarrow> 'e + (string \<times> string \<times> string \<times> device_info \<times> instant) \<times> 'x) \<Rightarrow>
      's \<Rightarrow> 's \<times> ('e repo_error + 'x)"
    and revoke_all :: "string \<Rightarrow> 's \<Rightarrow> 's"
  assumes rotate_ok: "inv s \<Longrightarrow> rotate now old gen s = (s', Inr x) \<Longrightarrow>
      \<exists>u e la nh ip ua d e'. view s now old = Some (u, e) \<and>
        gen u la e = Inr ((nh, ip, ua, d, e'), x) \<and> nh \<noteq> old \<and> inv s' \<and>
        (\<forall>t k. view s' t k = (if k = nh then (if t < e' then Some (u, e') else None)
           else if k = old then None else view s t k))"
    and rotate_err: "rotate now old gen s = (s', Inl er) \<Longrightarrow> s' = s"
    and rotate_dead: "view s now old = None \<Longrightarrow> \<exists>er. rotate now old gen s = (s, Inl er)"
    and revoke_all_ok: "inv s \<Longrightarrow> inv (revoke_all u s) \<and>
      view (revoke_all u s) t k = (case view s t k of None \<Rightarrow> None
        | Some (v, e) \<Rightarrow> if v = u then None else Some (v, e))"
begin

lemma rotated_is_dead:
  "inv s \<Longrightarrow> rotate now old gen s = (s', Inr x) \<Longrightarrow> view s' t old = None"
  using rotate_ok [of s now old gen s' x] by auto

lemma rotate_twice:
  assumes "inv s" "rotate now old gen s = (s', Inr x)"
  shows "\<exists>er. rotate now' old gen' s' = (s', Inl er)"
  by (rule rotate_dead) (rule rotated_is_dead [OF assms])

lemma rotate_keeps_expiry:
  assumes "inv s" "rotate now old gen s = (s', Inr x)"
    and keep: "\<And>u la e y. gen u la e = Inr y \<Longrightarrow> snd (snd (snd (snd (fst y)))) = e"
  shows "\<exists>u e nh. view s now old = Some (u, e) \<and>
    (\<forall>t k. k \<noteq> old \<longrightarrow> view s' t k = (if k = nh then (if t < e then Some (u, e) else None) else view s t k))"
proof -
  from rotate_ok [OF assms(1,2)] obtain u e la nh ip ua d e' where
    v: "view s now old = Some (u, e)" "gen u la e = Inr ((nh, ip, ua, d, e'), x)"
    and w: "\<forall>t k. view s' t k = (if k = nh then (if t < e' then Some (u, e') else None)
           else if k = old then None else view s t k)"
    by blast
  from keep [OF v(2)] have "e' = e" by simp
  with v w show ?thesis by auto
qed

lemma revoked_user_cannot_rotate:
  assumes "inv s" "view s now h = Some (u, e)"
  shows "\<exists>er. rotate now h gen (revoke_all u s) = (revoke_all u s, Inl er)"
  by (rule rotate_dead) (use revoke_all_ok [OF assms(1)] assms(2) in simp)

end

definition revoke_all_rows :: "string \<Rightarrow> session_repo \<Rightarrow> session_repo" where
  "revoke_all_rows uid st =
    fst (fst (RevokeAllForUser True None uid (st, ()) :: (session_repo \<times> unit) \<times> (unit repo_error + unit)))"

interpretation sess: refresh_tokens wf_repo token_view "RotateSession True nid" revoke_all_rows
  for nid :: string
proof (unfold_locales, goal_cases)
  case (1 s now old gen s' x)
  show ?case by (rule RotateSession_view [OF 1]) blast
next
  case (2 now old gen s s' er)
  then show ?case by (rule RotateSession_error_frame)
next
  case (3 s now old gen)
  then show ?case by (auto simp: token_view_def RotateSession_def)
next
  case (4 s u t k)
  obtain st' o2 r where eq: "(RevokeAllForUser True None u (s, ()) ::
      (session_repo \<times> unit) \<times> (unit repo_error + unit)) = ((st', o2), r)"
    by (metis prod.exhaust)
  then have "revoke_all_rows u s = st'" by (simp add: revoke_all_rows_def)
  with RevokeAllForUser_view [OF 4 eq] show ?case by simp
qed

section \<open>Histories of the table\<close>

text \<open>
  Every operation that changes the table, with the inputs of one call. \<open>OpRotate\<close> is a refresh: its
  callback keeps the expiry of the row, as \<open>RefreshTokens\<close> does. \<open>apply_op\<close> is one call, which
  PostgreSQL may refuse; the reachable tables are those of any sequence of calls.
\<close>

datatype repo_op =
    OpCreate string instant string string string string device_info instant
  | OpRotate string instant string string string string device_info
  | OpRevoke instant string
  | OpRevokeForDevice instant string string string device_info
  | OpRevokeAll string
  | OpRevokeOthers instant string string
  | OpEvict string int
  | OpRevokeByID instant string string
  | OpRevokeStale instant
  | OpDeleteExpired instant

fun apply_op :: "bool \<Rightarrow> repo_op \<Rightarrow> session_repo \<Rightarrow> session_repo" where
  "apply_op ok (OpCreate nid now uid h ip ua d e) st =
     fst (Create ok nid now uid h ip ua d e st :: session_repo \<times> (unit repo_error + unit))"
| "apply_op ok (OpRotate nid now old nh ip ua d) st =
     fst (RotateSession ok nid now old (\<lambda>u la e. Inr ((nh, ip, ua, d, e), ())) st
       :: session_repo \<times> (unit repo_error + unit))"
| "apply_op ok (OpRevoke now h) st = fst (Revoke ok now h st :: session_repo \<times> (unit repo_error + unit))"
| "apply_op ok (OpRevokeForDevice now uid ip ua d) st =
     fst (RevokeForDevice ok now uid ip ua d st :: session_repo \<times> (unit repo_error + unit))"
| "apply_op ok (OpRevokeAll uid) st =
     fst (fst (RevokeAllForUser ok None uid (st, ()) :: (session_repo \<times> unit) \<times> (unit repo_error + unit)))"
| "apply_op ok (OpRevokeOthers now uid h) st =
     fst (RevokeOtherSessions ok now uid h st :: session_repo \<times> (unit repo_error + unit))"
| "apply_op ok (OpEvict uid keep) st =
     fst (EvictExcessSessions ok uid keep st :: session_repo \<times> (unit repo_error + unit))"
| "apply_op ok (OpRevokeByID now sid uid) st =
     fst (RevokeByID ok now sid uid st :: session_repo \<times> (unit repo_error + unit))"
| "apply_op ok (OpRevokeStale now) st =
     fst (RevokeStaleInitialSessions ok now st :: session_repo \<times> (unit repo_error + int))"
| "apply_op ok (OpDeleteExpired now) st =
     fst (DeleteExpired ok now st :: session_repo \<times> (unit repo_error + int))"

fun inserts :: "repo_op \<Rightarrow> string \<Rightarrow> bool" where
  "inserts (OpCreate nid now uid h ip ua d e) k = (h = k)"
| "inserts (OpRotate nid now old nh ip ua d) k = (nh = k)"
| "inserts _ k = False"

inductive repo_steps :: "session_repo \<Rightarrow> repo_op list \<Rightarrow> session_repo \<Rightarrow> bool" where
  repo_refl: "repo_steps st [] st"
| repo_step: "repo_steps st ops st' \<Longrightarrow> repo_steps st (ops @ [op]) (apply_op ok op st')"

inductive_cases repo_steps_snocE: "repo_steps st (ops @ [op]) st'"

definition empty_repo :: session_repo where
  "empty_repo = \<lparr>rows = [], hub = []\<rparr>"

text \<open>Every call leaves the table, revokes some rows, deletes some, or revokes some and inserts one.\<close>

lemma sql_update_never [simp]: "sql_update (\<lambda>_. False) f rs = rs"
  by (simp add: sql_update_def)

lemma pair_fstI: "fst p = x \<Longrightarrow> p = (x, snd p)"
  by (cases p) auto

lemma apply_op_rows:
  assumes "apply_op ok op st = st'"
  shows "(\<exists>P f. revoking f \<and> rows st' = sql_update P f (rows st)) \<or>
    (\<exists>P. rows st' = filter P (rows st)) \<or>
    (\<exists>P f r. revoking f \<and> insert_row r (sql_update P f (rows st)) = Some (rows st') \<and> inserts op (s_hash r))"
proof (cases "st' = st")
  case True
  then have "rows st' = filter (\<lambda>_. True) (rows st)" by simp
  then show ?thesis by blast
next
  case False
  show ?thesis
  proof (cases op)
    case (OpCreate nid now uid h ip ua d e)
    with assms obtain r where "(Create ok nid now uid h ip ua d e st ::
        session_repo \<times> (unit repo_error + unit)) = (st', r)" by (metis apply_op.simps(1) prod.collapse)
    moreover with False have "r = Inr ()"
      by (auto simp: Create_def split: option.splits)
    ultimately obtain rs where "insert_row \<lparr>s_id = nid, s_user = uid, s_hash = h, s_ip = parseAddr ip,
        s_ua = ua, s_device = normalizeDeviceInfo d, s_expires = e, s_created = now, s_last = None,
        s_revoked = False, s_reason = None\<rparr> (rows st) = Some (rows st')"
      using Create_ok by blast
    then have "revoking (\<lambda>r. r\<lparr>s_revoked := True\<rparr>) \<and> insert_row \<lparr>s_id = nid, s_user = uid, s_hash = h,
        s_ip = parseAddr ip, s_ua = ua, s_device = normalizeDeviceInfo d, s_expires = e, s_created = now,
        s_last = None, s_revoked = False, s_reason = None\<rparr>
        (sql_update (\<lambda>_. False) (\<lambda>r. r\<lparr>s_revoked := True\<rparr>) (rows st)) = Some (rows st')"
      by auto
    then show ?thesis using OpCreate by fastforce
  next
    case (OpRotate nid now old nh ip ua d)
    let ?g = "\<lambda>u la e. Inr ((nh, ip, ua, d, e), ())"
    from OpRotate assms obtain r where rot: "(RotateSession ok nid now old ?g st ::
        session_repo \<times> (unit repo_error + unit)) = (st', r)" by (metis apply_op.simps(2) prod.collapse)
    with False have "r = Inr ()" by (cases r) (auto dest: RotateSession_error_frame)
    with rot have "(RotateSession ok nid now old ?g st :: session_repo \<times> (unit repo_error + unit)) = (st', Inr ())"
      by simp
    then show ?thesis
      by (rule RotateSession_ok) (use OpRotate in \<open>fastforce intro: revokingI\<close>)
  next
    case (OpRevokeAll uid)
    let ?call = "RevokeAllForUser ok None uid (st, ()) :: (session_repo \<times> unit) \<times> (unit repo_error + unit)"
    have "?call = ((fst (fst ?call), ()), snd ?call)" by (simp add: prod_eq_iff)
    then have "?call = ((st', ()), snd ?call)" using OpRevokeAll assms by simp
    from revoking_ops_rows(7) [OF this] False show ?thesis by (blast intro: revokingI)
  next
    case (OpRevoke now h)
    with assms have "fst (Revoke ok now h st :: session_repo \<times> (unit repo_error + unit)) = st'" by simp
    from revoking_ops_rows(1) [OF pair_fstI [OF this]] False show ?thesis by (blast intro: revokingI)
  next
    case (OpRevokeForDevice now uid ip ua d)
    with assms have "fst (RevokeForDevice ok now uid ip ua d st :: session_repo \<times> (unit repo_error + unit)) = st'" by simp
    from revoking_ops_rows(2) [OF pair_fstI [OF this]] False show ?thesis by (blast intro: revokingI)
  next
    case (OpRevokeOthers now uid h)
    with assms have "fst (RevokeOtherSessions ok now uid h st :: session_repo \<times> (unit repo_error + unit)) = st'" by simp
    from revoking_ops_rows(3) [OF pair_fstI [OF this]] False show ?thesis by (blast intro: revokingI)
  next
    case (OpEvict uid keep)
    with assms have "fst (EvictExcessSessions ok uid keep st :: session_repo \<times> (unit repo_error + unit)) = st'" by simp
    from revoking_ops_rows(4) [OF pair_fstI [OF this]] False show ?thesis by (blast intro: revokingI)
  next
    case (OpRevokeByID now sid uid)
    with assms have "fst (RevokeByID ok now sid uid st :: session_repo \<times> (unit repo_error + unit)) = st'" by simp
    from revoking_ops_rows(5) [OF pair_fstI [OF this]] False show ?thesis by (blast intro: revokingI)
  next
    case (OpRevokeStale now)
    with assms have "fst (RevokeStaleInitialSessions ok now st :: session_repo \<times> (unit repo_error + int)) = st'" by simp
    from revoking_ops_rows(6) [OF pair_fstI [OF this]] False show ?thesis by (blast intro: revokingI)
  next
    case (OpDeleteExpired now)
    with assms have "fst (DeleteExpired ok now st :: session_repo \<times> (unit repo_error + int)) = st'" by simp
    from DeleteExpired_rows [OF pair_fstI [OF this]] False show ?thesis by (blast intro: revokingI)
  qed
qed

lemma apply_op_wf:
  assumes "wf_repo st"
  shows "wf_repo (apply_op ok op st)"
  using apply_op_rows [OF refl, of ok op st]
proof (elim disjE exE conjE)
  fix P f assume "revoking f" "rows (apply_op ok op st) = sql_update P f (rows st)"
  then show ?thesis using assms by (rule wf_revoking)
next
  fix P assume "rows (apply_op ok op st) = filter P (rows st)"
  then show ?thesis using assms by (simp add: wf_repo_def distinct_map_filter)
next
  fix P f r assume f: "revoking f" and ins: "insert_row r (sql_update P f (rows st)) = Some (rows (apply_op ok op st))"
  have "wf_repo (st\<lparr>rows := sql_update P f (rows st)\<rparr>)"
    by (rule wf_revoking [OF f _ assms]) simp
  then show ?thesis using view_insert(1) [of "st\<lparr>rows := sql_update P f (rows st)\<rparr>" r] ins by simp
qed

lemma apply_op_retired:
  assumes "retired h st" "\<not> inserts op h"
  shows "retired h (apply_op ok op st)"
  using apply_op_rows [OF refl, of ok op st]
proof (elim disjE exE conjE)
  fix P f assume "revoking f" "rows (apply_op ok op st) = sql_update P f (rows st)"
  then show ?thesis using assms(1) by (rule retired_revoking)
next
  fix P assume "rows (apply_op ok op st) = filter P (rows st)"
  then show ?thesis using assms(1) by (simp add: retired_def)
next
  fix P f r assume f: "revoking f" and "inserts op (s_hash r)"
    and ins: "insert_row r (sql_update P f (rows st)) = Some (rows (apply_op ok op st))"
  with assms(2) have "s_hash r \<noteq> h" by auto
  moreover have "retired h (st\<lparr>rows := sql_update P f (rows st)\<rparr>)"
    by (rule retired_revoking [OF f _ assms(1)]) simp
  moreover have "rows (apply_op ok op st) = sql_update P f (rows st) @ [r]"
    using ins by (auto simp: insert_row_def split: if_splits)
  ultimately show ?thesis by (simp add: retired_def)
qed

lemma repo_steps_retired:
  "repo_steps st ops st' \<Longrightarrow> retired h st \<Longrightarrow> list_all (\<lambda>op. \<not> inserts op h) ops \<Longrightarrow> retired h st'"
  by (induction rule: repo_steps.induct) (auto intro: apply_op_retired)

lemma repo_steps_wf: "repo_steps st ops st' \<Longrightarrow> wf_repo st \<Longrightarrow> wf_repo st'"
  by (induction rule: repo_steps.induct) (auto intro: apply_op_wf)

lemma wf_empty_repo [simp]: "wf_repo empty_repo"
  by (simp add: wf_repo_def empty_repo_def)

lemma rotated_retired:
  assumes "wf_repo st" "RotateSession ok nid now old gen st = (st', Inr x)"
  shows "retired old st'"
proof -
  have "wf_repo st'" and "token_view st' t old = None" for t
    by (rule RotateSession_view [OF assms]; simp)+
  then have "\<not> usable t r" if "r \<in> set (rows st')" "s_hash r = old" for t r
    using token_view_eq [of st' t old "s_user r" "s_expires r"] that by auto
  then show ?thesis
    by (metis retired_def usable_def lt_ex)
qed

section \<open>The session cap\<close>

lemma length_le_ids:
  assumes "distinct (map s_id rs)" "\<And>r. r \<in> set rs \<Longrightarrow> P r \<Longrightarrow> s_id r \<in> set ids"
  shows "length (filter P rs) \<le> length ids"
proof -
  have "length (filter P rs) = card (s_id ` set (filter P rs))"
    using assms(1) by (metis distinct_card distinct_map_filter length_map list.set_map)
  also have "\<dots> \<le> card (set ids)"
    using assms(2) by (intro card_mono) auto
  also have "\<dots> \<le> length ids" by (rule card_length)
  finally show ?thesis .
qed

lemma Evict_live_count:
  assumes "wf_repo st" "EvictExcessSessions True uid keep st = (st', Inr ())"
  shows "live_count uid st' \<le> nat keep"
proof -
  let ?ids = "kept_ids uid keep (rows st)"
  from assms(2) have keep: "0 \<le> keep" and rows': "rows st' = sql_update
      (\<lambda>r. s_user r = uid \<and> \<not> s_revoked r \<and> s_id r \<notin> set ?ids)
      (\<lambda>r. r\<lparr>s_revoked := True, s_reason := Some ''evicted''\<rparr>) (rows st)"
    by (auto simp: EvictExcessSessions_def split: if_splits)
  have "live_count uid st' \<le> length ?ids"
    unfolding live_count_def
  proof (rule length_le_ids)
    show "distinct (map s_id (rows st'))"
      using wf_revoking [OF revokingI(2) rows' assms(1)] by (simp add: wf_repo_def)
  next
    fix r assume "r \<in> set (rows st')" and live: "s_user r = uid \<and> \<not> s_revoked r"
    then obtain q where "q \<in> set (rows st)"
      "r = (if s_user q = uid \<and> \<not> s_revoked q \<and> s_id q \<notin> set ?ids
        then q\<lparr>s_revoked := True, s_reason := Some ''evicted''\<rparr> else q)"
      unfolding rows' sql_update_set by blast
    with live show "s_id r \<in> set ?ids" by (auto split: if_splits)
  qed
  also have "\<dots> \<le> nat keep" by (simp add: kept_ids_def)
  finally show ?thesis .
qed

lemma live_count_mono:
  assumes "rows st' = sql_update P f (rows st)" "revoking f"
  shows "live_count uid st' \<le> live_count uid st"
proof -
  have "filter (\<lambda>r. s_user r = uid \<and> \<not> s_revoked r) (sql_update P f rs) =
      filter (\<lambda>r. s_user r = uid \<and> \<not> s_revoked r \<and> \<not> P r) rs" for rs
    using assms(2) by (induction rs) (auto simp: sql_update_def revoking_def)
  then show ?thesis
    using length_filter_mono [of "rows st" "\<lambda>r. s_user r = uid \<and> \<not> s_revoked r \<and> \<not> P r"
        "\<lambda>r. s_user r = uid \<and> \<not> s_revoked r"]
    by (simp add: live_count_def assms(1))
qed

lemma Create_live_count:
  assumes "Create ok nid now uid h ip ua d e st = (st', Inr ())"
  shows "live_count uid st' = Suc (live_count uid st)"
  using Create_ok [OF assms] by (auto simp: live_count_def dest!: insert_row_Some)

section \<open>Properties\<close>

text \<open>A small table used by the witnesses: one session of user \<open>u1\<close>.\<close>

definition demo_row :: session_row where
  "demo_row = \<lparr>s_id = ''a'', s_user = ''u1'', s_hash = ''h1'', s_ip = None, s_ua = ''ua'', s_device = [],
     s_expires = 1000 * go_minute, s_created = 0, s_last = None, s_revoked = False, s_reason = None\<rparr>"

definition demo_repo :: session_repo where
  "demo_repo = \<lparr>rows = [demo_row], hub = []\<rparr>"

definition demo_gen :: "string \<Rightarrow> instant \<Rightarrow> instant \<Rightarrow>
    unit + (string \<times> string \<times> string \<times> device_info \<times> instant) \<times> unit" where
  "demo_gen u la e = Inr ((''h2'', '''', ''ua'', [], e), ())"

definition demo_rotated :: session_repo where
  "demo_rotated = fst (RotateSession True ''b'' go_minute ''h1'' demo_gen demo_repo)"

lemma demo_wf [simp]: "wf_repo demo_repo"
  by (simp add: demo_repo_def wf_repo_def)

lemma demo_rotation: "RotateSession True ''b'' go_minute ''h1'' demo_gen demo_repo = (demo_rotated, Inr ())"
  by (simp add: demo_rotated_def RotateSession_def demo_repo_def demo_row_def demo_gen_def sql_first_def
      usable_def insert_row_def sql_update_def)

text \<open>C2: a refresh token is single-use. Once a rotation has consumed its hash, then after any
  further history of the table that does not insert the very same hash again (creations, other
  rotations, revocations, cleanups, refused statements), a rotation with it fails and changes
  nothing, whatever the clock, the callback and the state of the database.\<close>

theorem rotation_single_use:
  assumes "wf_repo st"
    and "RotateSession ok nid now old gen st = (st1, Inr x)"
    and "repo_steps st1 ops st2" and "list_all (\<lambda>op. \<not> inserts op old) ops"
  shows "\<exists>er. RotateSession ok' nid' now' old gen' st2 = (st2, Inl er)"
proof -
  have "retired old st2"
    using repo_steps_retired [OF assms(3) rotated_retired [OF assms(1,2)] assms(4)] .
  then have "sql_first (\<lambda>r. s_hash r = old \<and> usable now' r) (rows st2) = None"
    by (auto simp: sql_first_None retired_def usable_def)
  then show ?thesis by (auto simp: RotateSession_def)
qed

theorem rotation_single_use_witness:
  "\<exists>er. RotateSession True ''c'' (2 * go_minute) ''h1'' demo_gen
      (apply_op True (OpRevoke go_minute ''h2'') demo_rotated) =
     (apply_op True (OpRevoke go_minute ''h2'') demo_rotated, Inl er)"
  by (rule rotation_single_use [OF demo_wf demo_rotation, where ops = "[OpRevoke go_minute ''h2'']"])
    (use repo_step [OF repo_refl, of demo_rotated "OpRevoke go_minute ''h2''" True] in simp_all)

text \<open>replay of a rotated token is recognised. Right after a rotation, \<open>CheckReuse\<close> on the
  consumed hash names the owner of the session from five seconds on, and reports nothing before
  (concurrent duplicates of one refresh are not taken for theft).\<close>

lemma rotated_token_reuse_detected:
  assumes "wf_repo st" "RotateSession ok nid now old gen st = (st1, Inr x)"
  shows "\<exists>u e. token_view st now old = Some (u, e) \<and>
    (CheckReuse True now' old st1 :: 'e repo_error + string) =
      Inr (if now + tokenReuseGrace \<le> now' then u else '''')"
proof (rule RotateSession_ok [OF assms(2)])
  fix r newHash ip ua d e
  assume r: "r \<in> set (rows st)" "s_hash r = old" "usable now r"
    and ins: "insert_row \<lparr>s_id = nid, s_user = s_user r, s_hash = newHash, s_ip = parseAddr ip, s_ua = ua,
        s_device = normalizeDeviceInfo d, s_expires = e, s_created = now, s_last = Some now,
        s_revoked = False, s_reason = None\<rparr>
      (sql_update (\<lambda>q. s_hash q = old)
        (\<lambda>q. q\<lparr>s_revoked := True, s_last := Some now, s_reason := Some ''rotation''\<rparr>) (rows st))
      = Some (rows st1)"
  define q where "q = r\<lparr>s_revoked := True, s_last := Some now, s_reason := Some ''rotation''\<rparr>"
  let ?P = "\<lambda>r. s_revoked r \<and> s_reason r = Some ''rotation'' \<and> last_active r \<le> now' - tokenReuseGrace"
  have wf1: "distinct (map s_hash (rows st1))"
    using RotateSession_view [OF assms] by (metis wf_repo_def)
  have q: "q \<in> set (rows st1)" "s_hash q = old" "s_user q = s_user r" "?P q \<longleftrightarrow> now + tokenReuseGrace \<le> now'"
    using r by (auto simp: q_def last_active_def insert_row_Some [OF ins] sql_update_set)
  have only: "p = q" if "p \<in> set (rows st1)" "s_hash p = old" for p
    using wf1 q(1,2) that by (auto simp: distinct_map dest: inj_onD)
  have "sql_first (\<lambda>p. s_hash p = old \<and> ?P p) (rows st1) = (if ?P q then Some q else None)"
    using find_by_hash [OF wf1 q(1,2), of ?P] only by (auto simp: sql_first_None)
  moreover have "token_view st now old = Some (s_user r, s_expires r)"
    using r by (auto simp: token_view_eq [OF assms(1)])
  ultimately show ?thesis using q(3,4) by (auto simp: CheckReuse_def)
qed

text \<open>C13: the cleanup job forgets rotations. After one run of \<open>DeleteExpired\<close> no hash at all is
  reported by \<open>CheckReuse\<close>, at any time: the rows marked \<open>rotation\<close> are deleted with the other
  revoked rows, so a token stolen and rotated before the run can be replayed afterwards without
  the reuse response.\<close>

theorem cleanup_disables_reuse_detection:
  "(CheckReuse True now' h (fst (DeleteExpired True now st :: session_repo \<times> ('d repo_error + int)))
     :: 'e repo_error + string) = Inr ''''"
proof -
  have "sql_first (\<lambda>r. s_hash r = h \<and> s_revoked r \<and> s_reason r = Some ''rotation'' \<and>
      last_active r \<le> now' - tokenReuseGrace) (filter (\<lambda>r. \<not> cleanup_hit now r) (rows st)) = None"
    by (auto simp: sql_first_None cleanup_hit_def)
  then show ?thesis by (simp add: CheckReuse_def DeleteExpired_def)
qed

text \<open>\<open>RevokeAllForUser\<close> takes exactly the user's tokens out of circulation: afterwards no token
  of that user is accepted at any time, and every other user's tokens are accepted as before.\<close>

lemma revoke_all_exact:
  assumes "wf_repo st" "RevokeAllForUser True oidc uid (st, o1) = ((st', o2), r)"
  shows "wf_repo st' \<and> token_view st' t k = (case token_view st t k of None \<Rightarrow> None
    | Some (u, e) \<Rightarrow> if u = uid then None else Some (u, e))"
  using RevokeAllForUser_view [OF assms] by simp

end
