(* ===== verification/Login_Guard.thy ===== *)
theory Login_Guard
  imports Access_Policy Redis_Server Session_Repo
begin

text \<open>
  The guards of \<open>internal/auth/service.go\<close> around the password check: the lockout counters in Redis and
  the risk score with its anomaly detection. Coordinates and distances (\<open>float64\<close> in the code) are
  real numbers: rounding is not modelled.
\<close>

section \<open>Configuration and world\<close>

text \<open>The fields of \<open>auth.Service\<close> used here (\<open>None\<close> is nil) and SHA-256, a parameter.\<close>

record ('r, 'd) guard_cfg =
  c_rdb :: "('r, 'd) redis option"
  c_settings :: "setting_reader option"
  c_geoip :: "geoip_service option"
  c_mailer :: bool
  c_sha :: "string \<Rightarrow> bytes"

text \<open>A queued \<open>SendSecurityAlert\<close>; its error is only logged.\<close>

record alert =
  al_to :: string
  al_type :: string
  al_ip :: string
  al_location :: string
  al_details :: string

record 'r guard_world =
  w_rd :: 'r
  w_mail :: "alert list"

definition setting_int :: "setting_reader option \<Rightarrow> string \<Rightarrow> int \<Rightarrow> int" where
  "setting_int st key d = (case st of None \<Rightarrow> d | Some s \<Rightarrow> GetInt s key d)"

definition setting_bool :: "setting_reader option \<Rightarrow> string \<Rightarrow> bool \<Rightarrow> bool" where
  "setting_bool st key d = (case st of None \<Rightarrow> d | Some s \<Rightarrow> GetBool s key d)"

text \<open>The location text of an alert, as \<open>Login\<close>, \<open>completeLogin\<close> and \<open>recordFailedAttempt\<close> compute it.\<close>

definition alert_location :: "geoip_service option \<Rightarrow> string \<Rightarrow> string" where
  "alert_location g ip = (case g of None \<Rightarrow> ''Unknown''
     | Some geo \<Rightarrow> (case Lookup geo ip of None \<Rightarrow> ''Unknown'' | Some l \<Rightarrow> formatLocation l))"

section \<open>Formatting\<close>

definition int_dec :: "int \<Rightarrow> string" where
  "int_dec i = (if i < 0 then ''-'' @ nat_dec (nat (- i)) else nat_dec (nat i))"

text \<open>\<open>time.Duration.String\<close> on whole non-negative seconds.\<close>

definition dur_string :: "duration \<Rightarrow> string" where
  "dur_string d = (let s = nat (d div go_second) in
     (if s \<ge> 3600 then nat_dec (s div 3600) @ ''h'' else []) @
     (if s \<ge> 60 then nat_dec (s div 60 mod 60) @ ''m'' else []) @ nat_dec (s mod 60) @ ''s'')"

definition round_second :: "duration \<Rightarrow> duration" where
  "round_second d = (d + go_second div 2) div go_second * go_second"

text \<open>\<open>%.1f\<close> of a non-negative number, ties to even.\<close>

definition fixed1 :: "real \<Rightarrow> string" where
  "fixed1 x = (let n = \<lfloor>10 * x\<rfloor>; f = 10 * x - of_int n;
     m = (if f > 1/2 \<or> (f = 1/2 \<and> odd n) then n + 1 else n)
     in int_dec (m div 10) @ ''.'' @ int_dec (m mod 10))"

section \<open>Lockout\<close>

definition lockoutKey :: "(string \<Rightarrow> bytes) \<Rightarrow> string \<Rightarrow> string" where
  "lockoutKey sha email = ''login:locked:'' @ hex_encode (sha email)"

definition failKey :: "(string \<Rightarrow> bytes) \<Rightarrow> string \<Rightarrow> string" where
  "failKey sha email = ''login:fails:'' @ hex_encode (sha email)"

text \<open>The unused default schedule, and the one \<open>recordFailedAttempt\<close> applies past \<open>max_login_attempts\<close>.\<close>

definition progressiveLockout :: "int \<Rightarrow> duration" where
  "progressiveLockout attempts =
    (if attempts < 5 then 0 else if attempts < 8 then go_minute
     else if attempts < 11 then 5 * go_minute else 30 * go_minute)"

definition lock_duration :: "int \<Rightarrow> duration" where
  "lock_duration diff = (if diff < 3 then go_minute else if diff < 6 then 5 * go_minute else 30 * go_minute)"

text \<open>\<open>Some d\<close> is \<open>AccountLockedError\<close> with \<open>RetryAfter = d\<close>.\<close>

definition checkLockout :: "('r, 'd, 'm) guard_cfg_scheme \<Rightarrow> instant \<Rightarrow> string \<Rightarrow> 'r \<Rightarrow> duration option" where
  "checkLockout C now email s =
    (case c_rdb C of
       None \<Rightarrow> None
     | Some R \<Rightarrow> (case rTTL R s now (lockoutKey (c_sha C) email) of
         ROk ttl \<Rightarrow> if ttl > 0 then Some ttl else None | _ \<Rightarrow> None))"

definition lockout_alert :: "('r, 'd, 'm) guard_cfg_scheme \<Rightarrow> string \<Rightarrow> string \<Rightarrow> duration \<Rightarrow> alert" where
  "lockout_alert C email ip d = \<lparr>al_to = email, al_type = ''account_lockout'', al_ip = ip,
     al_location = (if ip = '''' then ''Unknown'' else alert_location (c_geoip C) ip),
     al_details = ''Your account has been temporarily locked for '' @ dur_string d @
       '' due to multiple failed login attempts.''\<rparr>"

text \<open>An error of \<open>INCR\<close> is dropped and leaves the count 0; the reply of \<open>SET\<close> is not looked at.\<close>

definition recordFailedAttempt :: "('r, 'd, 'm) guard_cfg_scheme \<Rightarrow> instant \<Rightarrow> string \<Rightarrow> string \<Rightarrow>
    ('r, 'w) guard_world_scheme \<Rightarrow> ('r, 'w) guard_world_scheme" where
  "recordFailedAttempt C now email ip w =
    (case c_rdb C of
       None \<Rightarrow> w
     | Some R \<Rightarrow>
       (case rIncr R (w_rd w) now (failKey (c_sha C) email) of (s1, rep) \<Rightarrow>
         (let count = (case rep of ROk n \<Rightarrow> n | _ \<Rightarrow> 0);
              maxAttempts = setting_int (c_settings C) ''max_login_attempts'' 5
          in if count \<ge> maxAttempts then
               (let d = lock_duration (count - maxAttempts);
                    s2 = fst (rSet R s1 now (lockoutKey (c_sha C) email) (RStr ''1'') d)
                in w\<lparr>w_rd := s2, w_mail := w_mail w @ (if c_mailer C then [lockout_alert C email ip d] else [])\<rparr>)
             else w\<lparr>w_rd := s1\<rparr>)))"

definition clearFailedAttempts :: "('r, 'd, 'm) guard_cfg_scheme \<Rightarrow> instant \<Rightarrow> string \<Rightarrow>
    ('r, 'w) guard_world_scheme \<Rightarrow> ('r, 'w) guard_world_scheme" where
  "clearFailedAttempts C now email w =
    (case c_rdb C of None \<Rightarrow> w
     | Some R \<Rightarrow> w\<lparr>w_rd := fst (rDel R (w_rd w) now [failKey (c_sha C) email, lockoutKey (c_sha C) email])\<rparr>)"

definition UnlockUser :: "('r, 'd, 'm) guard_cfg_scheme \<Rightarrow> instant \<Rightarrow> string \<Rightarrow>
    ('r, 'w) guard_world_scheme \<Rightarrow> ('r, 'w) guard_world_scheme" where
  "UnlockUser C now email w = clearFailedAttempts C now email w"

section \<open>Device fingerprints\<close>

text \<open>\<open>strings.Fields\<close>; the first argument holds the word being read, reversed.\<close>

fun fields_loop :: "string \<Rightarrow> string \<Rightarrow> string list" where
  "fields_loop acc [] = (if acc = [] then [] else [rev acc])"
| "fields_loop acc (c # cs) =
    (if is_space c then (if acc = [] then fields_loop [] cs else rev acc # fields_loop [] cs)
     else fields_loop (c # acc) cs)"

definition Fields :: "string \<Rightarrow> string list" where
  "Fields s = fields_loop [] s"

definition normalizeUserAgent :: "string \<Rightarrow> string" where
  "normalizeUserAgent ua = ToLower (Join '' '' (Fields (TrimSpace ua)))"

definition majorVersion :: "string \<Rightarrow> string" where
  "majorVersion v0 = (let v = TrimSpace v0 in if v = '''' then ''''
     else (case Split (CHR ''.'') v of [] \<Rightarrow> '''' | p # _ \<Rightarrow> p))"

definition deviceFingerprint :: "string \<Rightarrow> device_info \<Rightarrow> string" where
  "deviceFingerprint ua info =
    (if info = [] then normalizeUserAgent ua
     else
       (let low = (\<lambda>k. ToLower (TrimSpace (go_get info k)));
            fp = Join ''|'' [low ''os'', low ''os_version'', low ''browser'',
              majorVersion (TrimSpace (go_get info ''browser_version'')), low ''mobile'', low ''architecture'']
        in if filter (\<lambda>c. c \<noteq> CHR ''|'') fp = '''' then normalizeUserAgent ua else fp))"

text \<open>The device column comes back as JSON bytes; every value in it is a string.\<close>

definition sessionDeviceFingerprint :: "session_row \<Rightarrow> string" where
  "sessionDeviceFingerprint r =
    (if s_device r \<noteq> [] then deviceFingerprint (s_ua r) (s_device r) else normalizeUserAgent (s_ua r))"

section \<open>Impossible travel\<close>

definition atan2 :: "real \<Rightarrow> real \<Rightarrow> real" where
  "atan2 y x = (if x > 0 then arctan (y / x)
     else if x < 0 then (if y \<ge> 0 then arctan (y / x) + pi else arctan (y / x) - pi)
     else if y > 0 then pi / 2 else if y < 0 then - pi / 2 else 0)"

definition haversine_a :: "real \<Rightarrow> real \<Rightarrow> real \<Rightarrow> real \<Rightarrow> real" where
  "haversine_a lat1 lon1 lat2 lon2 =
    (let dLat = (lat2 - lat1) * pi / 180; dLon = (lon2 - lon1) * pi / 180;
         radLat1 = lat1 * pi / 180; radLat2 = lat2 * pi / 180
     in sin (dLat / 2) * sin (dLat / 2) + sin (dLon / 2) * sin (dLon / 2) * cos radLat1 * cos radLat2)"

definition haversineDistance :: "real \<Rightarrow> real \<Rightarrow> real \<Rightarrow> real \<Rightarrow> real" where
  "haversineDistance lat1 lon1 lat2 lon2 =
    (let a = haversine_a lat1 lon1 lat2 lon2 in 6371 * (2 * atan2 (sqrt a) (sqrt (1 - a))))"

definition riskSettingInt :: "setting_reader option \<Rightarrow> string \<Rightarrow> int \<Rightarrow> int" where
  "riskSettingInt st key d = (let v = setting_int st key d in if v < 0 then d else v)"

text \<open>\<open>host(ip_address)\<close>, empty for NULL.\<close>

definition host_text :: "netip_addr option \<Rightarrow> string" where
  "host_text a = (case a of None \<Rightarrow> '''' | Some (IP4 b) \<Rightarrow> ip_string b | Some (IP6 b z) \<Rightarrow> ip_string b)"

definition time_diff :: "instant \<Rightarrow> session_row \<Rightarrow> duration" where
  "time_diff now r = (let d = now - last_active r in if d \<le> 0 then go_second else d)"

definition velocity_kmh :: "real \<Rightarrow> duration \<Rightarrow> real" where
  "velocity_kmh distance d = distance / (of_int d / of_int go_hour)"

text \<open>One iteration of the travel loop: \<open>Some\<close> the text when the session reveals impossible travel.\<close>

definition travel_step :: "setting_reader option \<Rightarrow> geoip_service \<Rightarrow> instant \<Rightarrow> string \<Rightarrow> location \<Rightarrow>
    session_row \<Rightarrow> string option" where
  "travel_step st geo now currentIP currLoc r =
    (let ip = host_text (s_ip r) in
     if ip = '''' \<or> ip = currentIP then None
     else case Lookup geo ip of
       None \<Rightarrow> None
     | Some sessLoc \<Rightarrow>
       (let distance = haversineDistance (loc_lat currLoc) (loc_lon currLoc) (loc_lat sessLoc) (loc_lon sessLoc);
            timeDiff = time_diff now r;
            velocity = velocity_kmh distance timeDiff;
            velocityThreshold = of_int (riskSettingInt st ''risk_impossible_travel_velocity_kmh'' 800);
            maxTravelWindow = wrap64 (riskSettingInt st ''risk_impossible_travel_window_hours'' 24 * go_hour);
            minTravelDistance = of_int (riskSettingInt st ''risk_impossible_travel_min_distance_km'' 10)
        in if distance < minTravelDistance then None
           else if velocity > velocityThreshold \<and> timeDiff < maxTravelWindow then
             Some (''Impossible travel detected from '' @ ip @ '' ('' @ formatLocation sessLoc @ '') to '' @
               currentIP @ '' ('' @ formatLocation currLoc @ ''). Distance: '' @ fixed1 distance @
               '' km, Time elapsed: '' @ dur_string (round_second timeDiff) @ '', Velocity: '' @ fixed1 velocity @ '' km/h'')
           else None))"

fun first_travel :: "(session_row \<Rightarrow> string option) \<Rightarrow> session_row list \<Rightarrow> string option" where
  "first_travel f [] = None"
| "first_travel f (r # rs) = (case f r of Some d \<Rightarrow> Some d | None \<Rightarrow> first_travel f rs)"

datatype anomaly = ImpossibleTravel string | NewDevice string

definition detectLoginAnomaly :: "('r, 'd, 'm) guard_cfg_scheme \<Rightarrow> bool \<Rightarrow> instant \<Rightarrow> instant \<Rightarrow> string \<Rightarrow> string \<Rightarrow>
    string \<Rightarrow> device_info \<Rightarrow> session_repo \<Rightarrow> anomaly option" where
  "detectLoginAnomaly C db_ok sqlnow now userID currentIP currentUA info st =
    (case c_geoip C of
       None \<Rightarrow> None
     | Some geo \<Rightarrow>
       (case (GetActiveSessions db_ok sqlnow userID st :: unit repo_error + session_row list) of
          Inl _ \<Rightarrow> None
        | Inr active \<Rightarrow>
          (case Lookup geo currentIP of
             None \<Rightarrow> None
           | Some currLoc \<Rightarrow>
             (let fp = deviceFingerprint currentUA info;
                  isFirstTimeDevice = list_all (\<lambda>r. sessionDeviceFingerprint r \<noteq> fp) active
              in case first_travel (travel_step (c_settings C) geo now currentIP currLoc) active of
                   Some d \<Rightarrow> Some (ImpossibleTravel d)
                 | None \<Rightarrow>
                   if isFirstTimeDevice \<and> active \<noteq> [] then
                     Some (NewDevice (''New/first-time device login from IP '' @ currentIP @ '' ('' @
                       formatLocation currLoc @ '')''))
                   else None))))"

section \<open>Risk score\<close>

definition isWithinSuspiciousHoursWindow :: "int \<Rightarrow> int \<Rightarrow> int \<Rightarrow> bool" where
  "isWithinSuspiciousHoursWindow hour start stop =
    (if hour < 0 \<or> hour > 23 then False
     else if start < 0 \<or> start > 23 \<or> stop < 0 \<or> stop > 23 then hour \<ge> 23 \<or> hour < 5
     else if start = stop then False
     else if start < stop then hour \<ge> start \<and> hour < stop
     else hour \<ge> start \<or> hour < stop)"

text \<open>The three sources of risk, each with its score, its reason and its detail text. \<open>hour\<close> is
  \<open>time.Now().Hour()\<close>, the hour in the server's local time.\<close>

definition anomaly_risk :: "setting_reader option \<Rightarrow> anomaly option \<Rightarrow> (int \<times> string \<times> string) list" where
  "anomaly_risk st a = (case a of None \<Rightarrow> []
     | Some (ImpossibleTravel d) \<Rightarrow> [(riskSettingInt st ''risk_score_impossible_travel'' 80, ''impossible_travel'', d)]
     | Some (NewDevice d) \<Rightarrow> [(riskSettingInt st ''risk_score_new_device'' 30, ''new_device'', d)])"

definition hours_risk :: "setting_reader option \<Rightarrow> int \<Rightarrow> (int \<times> string \<times> string) list" where
  "hours_risk st hour =
    (if isWithinSuspiciousHoursWindow hour (riskSettingInt st ''risk_suspicious_hour_start'' 23)
          (riskSettingInt st ''risk_suspicious_hour_end'' 5)
     then [(riskSettingInt st ''risk_score_suspicious_hours'' 20, ''suspicious_hours'',
            ''Login attempt at suspicious hour: '' @ int_dec hour @ '':00'')]
     else [])"

definition failed_risk :: "setting_reader option \<Rightarrow> int option \<Rightarrow> (int \<times> string \<times> string) list" where
  "failed_risk st count = (case count of None \<Rightarrow> []
     | Some val \<Rightarrow> if val > 0 then
         [(min (wrap64 (val * riskSettingInt st ''risk_score_failed_attempt'' 15))
            (riskSettingInt st ''risk_failed_attempt_max_score'' 45), ''multiple_failed_attempts'',
           ''Recent failed login attempts: '' @ int_dec val)] else [])"

definition calculateRiskScore :: "('r, 'd, 'm) guard_cfg_scheme \<Rightarrow> bool \<Rightarrow> instant \<Rightarrow> instant \<Rightarrow> int \<Rightarrow> string \<Rightarrow>
    string \<Rightarrow> string \<Rightarrow> string \<Rightarrow> device_info \<Rightarrow> session_repo \<Rightarrow> 'r \<Rightarrow> int \<times> string \<times> string" where
  "calculateRiskScore C db_ok sqlnow now hour userID email ip ua info st s =
    (let fails = (case c_rdb C of None \<Rightarrow> None
           | Some R \<Rightarrow> reply_int (rGet R s now (failKey (c_sha C) email)));
         parts = anomaly_risk (c_settings C) (detectLoginAnomaly C db_ok sqlnow now userID ip ua info st) @
           hours_risk (c_settings C) hour @ failed_risk (c_settings C) fails;
         score = foldl (\<lambda>a p. wrap64 (a + fst p)) 0 parts
     in (if score > 100 then 100 else score,
         Join '','' (map (\<lambda>p. fst (snd p)) parts), Join ''; '' (map (\<lambda>p. snd (snd p)) parts)))"

section \<open>Facts: lockout\<close>

lemma guard_keys [key_simps, simp]: "failKey sha e \<noteq> lockoutKey sha e'" "lockoutKey sha e' \<noteq> failKey sha e"
  by (simp_all add: failKey_def lockoutKey_def)

lemma lock_duration_pos [simp]: "0 < lock_duration n"
  by (simp add: lock_duration_def)

abbreviation max_attempts :: "('r, 'd, 'm) guard_cfg_scheme \<Rightarrow> int" where
  "max_attempts C \<equiv> setting_int (c_settings C) ''max_login_attempts'' 5"

text \<open>A run of failed attempts for one account that Redis executed, with the time of the last one.\<close>

inductive failed_logins :: "('r, 'd, 'm) guard_cfg_scheme \<Rightarrow> string \<Rightarrow> 'r guard_world \<Rightarrow> instant \<Rightarrow> nat \<Rightarrow>
    'r guard_world \<Rightarrow> instant \<Rightarrow> bool" for C email w0 t0 where
  none: "failed_logins C email w0 t0 0 w0 t0"
| more: "failed_logins C email w0 t0 n w t \<Longrightarrow> t \<le> t' \<Longrightarrow> c_rdb C = Some R \<Longrightarrow>
    rIncr R (w_rd w) t' (failKey (c_sha C) email) = (s1, ROk c) \<Longrightarrow>
    rSet R s1 t' (lockoutKey (c_sha C) email) (RStr ''1'') (lock_duration (c - max_attempts C)) = (s2, ROk ()) \<Longrightarrow>
    failed_logins C email w0 t0 (Suc n) (recordFailedAttempt C t' email ip w) t'"

context redis_laws
begin

lemma failed_attempt_step:
  assumes C: "c_rdb C = Some R" and incr: "rIncr R (w_rd w) t (failKey (c_sha C) email) = (s1, ROk c)"
    and set: "rSet R s1 t (lockoutKey (c_sha C) email) (RStr ''1'') (lock_duration (c - max_attempts C)) = (s2, ROk ())"
  shows "see (w_rd (recordFailedAttempt C t email ip w)) t =
    (see (w_rd w) t)(failKey (c_sha C) email \<mapsto> (RInt c, entry_expiry (see (w_rd w) t (failKey (c_sha C) email))),
      lockoutKey (c_sha C) email := (if c \<ge> max_attempts C
        then Some (RStr ''1'', Some (t + lock_duration (c - max_attempts C)))
        else see (w_rd w) t (lockoutKey (c_sha C) email)))"
  using incr_ok [OF incr] set_ok [OF set] set by (auto simp: recordFailedAttempt_def C incr fun_eq_iff)

lemma failed_logins_count:
  assumes "failed_logins C email w0 t0 n w t" "c_rdb C = Some R"
    and "see (w_rd w0) t0 (failKey (c_sha C) email) = None" "see (w_rd w0) t0 (lockoutKey (c_sha C) email) = None"
  shows "see (w_rd w) t (failKey (c_sha C) email) = (if n = 0 then None else Some (RInt (int n), None)) \<and>
    see (w_rd w) t (lockoutKey (c_sha C) email) \<in>
      (if 0 < n \<and> max_attempts C \<le> int n
       then {Some (RStr ''1'', Some (t + lock_duration (int n - max_attempts C)))} else {None})"
  using assms(1)
proof (induction rule: failed_logins.induct)
  case none
  then show ?case using assms by simp
next
  case (more n w t t' R' s1 c s2 ip)
  have R': "R' = R" using more(3) assms(2) by simp
  let ?f = "failKey (c_sha C) email" and ?l = "lockoutKey (c_sha C) email"
  have old: "see (w_rd w) t' ?f = (if n = 0 then None else Some (RInt (int n), None))"
    using more.IH see_later [OF more(2), of "w_rd w" ?f] by auto
  have oldl: "max_attempts C \<le> int (Suc n) \<or> see (w_rd w) t' ?l = None"
    using more.IH see_later [OF more(2), of "w_rd w" ?l] by (auto split: if_splits)
  have c: "c = int (Suc n)"
    using incr_ok [OF more(4) [unfolded R']] old by (auto simp: incr_value_def split: if_splits)
  show ?case
    unfolding failed_attempt_step [OF assms(2) more(4) [unfolded R'] more(5) [unfolded R']]
    using old oldl c by auto
qed

end

section \<open>Facts: distance\<close>

lemma haversine_a_sym: "haversine_a lat1 lon1 lat2 lon2 = haversine_a lat2 lon2 lat1 lon1"
proof -
  have swap: "sin ((b - a) * pi / 180 / 2) * sin ((b - a) * pi / 180 / 2) =
      sin ((a - b) * pi / 180 / 2) * sin ((a - b) * pi / 180 / 2)" for a b :: real
  proof -
    have "(b - a) * pi / 180 / 2 = - ((a - b) * pi / 180 / 2)" by argo
    then show ?thesis by (simp only: sin_minus minus_mult_minus)
  qed
  show ?thesis
    using swap [of lat2 lat1] swap [of lon2 lon1] by (simp add: haversine_a_def Let_def mult.assoc mult.commute mult.left_commute)
qed

lemma cos_latitude: "\<bar>l\<bar> \<le> 90 \<Longrightarrow> 0 \<le> cos (l * pi / 180)"
proof (rule cos_ge_zero)
  assume l: "\<bar>l\<bar> \<le> 90"
  then have "- 90 * pi \<le> l * pi" "l * pi \<le> 90 * pi"
    using pi_ge_zero by (intro mult_right_mono; simp add: abs_le_iff)+
  then show "- (pi / 2) \<le> l * pi / 180" "l * pi / 180 \<le> pi / 2" by simp_all
qed

lemma haversine_a_nonneg:
  assumes "\<bar>lat1\<bar> \<le> 90" "\<bar>lat2\<bar> \<le> 90"
  shows "0 \<le> haversine_a lat1 lon1 lat2 lon2"
  using assms by (simp add: haversine_a_def Let_def cos_latitude)

lemma cos_half_sum: "(1 - cos (q - p)) / 2 + cos p * cos q = (1 + cos (p + q)) / 2" for p q :: real
  by (simp add: cos_diff cos_add diff_divide_distrib add_divide_distrib)

lemma haversine_a_le_one:
  assumes "\<bar>lat1\<bar> \<le> 90" "\<bar>lat2\<bar> \<le> 90"
  shows "haversine_a lat1 lon1 lat2 lon2 \<le> 1"
proof -
  let ?p = "lat1 * pi / 180" and ?q = "lat2 * pi / 180" and ?s = "sin ((lon2 - lon1) * pi / 180 / 2)"
  have "?s * ?s \<le> 1" using sin_squared_eq [of "(lon2 - lon1) * pi / 180 / 2"] by (simp add: power2_eq_square)
  then have "?s * ?s * (cos ?p * cos ?q) \<le> cos ?p * cos ?q"
    using assms cos_latitude by (intro mult_left_le_one_le) auto
  moreover have "sin ((lat2 - lat1) * pi / 180 / 2) * sin ((lat2 - lat1) * pi / 180 / 2) = (1 - cos (?q - ?p)) / 2"
  proof -
    have "?q - ?p = 2 * ((lat2 - lat1) * pi / 180 / 2)" by argo
    then show ?thesis by (simp only: cos_double_sin power2_eq_square) simp
  qed
  moreover have "(1 - cos (?q - ?p)) / 2 + cos ?p * cos ?q = (1 + cos (?p + ?q)) / 2"
    by (rule cos_half_sum)
  moreover have "(1 + cos (?p + ?q)) / 2 \<le> 1" using cos_le_one [of "?p + ?q"] by simp
  ultimately show ?thesis
    unfolding haversine_a_def Let_def mult.assoc by linarith
qed

lemma atan2_quadrant: "0 \<le> y \<Longrightarrow> 0 \<le> x \<Longrightarrow> 0 \<le> atan2 y x \<and> atan2 y x \<le> pi / 2"
  using arctan_ubound [of "y / x"] by (auto simp: atan2_def zero_le_arctan_iff less_imp_le)

section \<open>Facts: risk score\<close>

lemma riskSettingInt_nonneg: "0 \<le> d \<Longrightarrow> 0 \<le> riskSettingInt st key d"
  by (simp add: riskSettingInt_def Let_def)

definition score_range :: "setting_reader option \<Rightarrow> bool" where
  "score_range st \<longleftrightarrow> (\<forall>(key, d, hi) \<in> set [(''risk_score_impossible_travel'', 80, 100), (''risk_score_new_device'', 30, 100),
     (''risk_score_suspicious_hours'', 20, 100), (''risk_score_failed_attempt'', 15, 50),
     (''risk_failed_attempt_max_score'', 45, 100)]. riskSettingInt st key d \<le> (hi :: int))"

lemma score_fold:
  fixes parts :: "(int \<times> string \<times> string) list"
  assumes "\<And>p. p \<in> set parts \<Longrightarrow> 0 \<le> fst p \<and> fst p \<le> 100" "length parts \<le> 3"
  shows "foldl (\<lambda>a p. wrap64 (a + fst p)) 0 parts = sum_list (map fst parts) \<and> 0 \<le> sum_list (map fst parts)"
proof -
  have "foldl (\<lambda>a p. wrap64 (a + fst p)) n ps = n + sum_list (map fst ps) \<and> 0 \<le> sum_list (map fst ps)"
    if "0 \<le> n" "n + 100 * int (length ps) \<le> 1000" "\<And>p. p \<in> set ps \<Longrightarrow> 0 \<le> fst p \<and> fst p \<le> 100"
    for n and ps :: "(int \<times> string \<times> string) list"
    using that
  proof (induction ps arbitrary: n)
    case (Cons p ps)
    have p: "0 \<le> fst p" "fst p \<le> 100" using Cons.prems(3) by auto
    then have "wrap64 (n + fst p) = n + fst p" using Cons.prems(1,2) by (intro wrap64_id) auto
    moreover have "foldl (\<lambda>a p. wrap64 (a + fst p)) (n + fst p) ps = n + fst p + sum_list (map fst ps) \<and>
        0 \<le> sum_list (map fst ps)"
    proof (rule Cons.IH)
      show "n + fst p + 100 * int (length ps) \<le> 1000" using Cons.prems(2) p by simp
    qed (use Cons.prems p in auto)
    ultimately show ?case using p by simp
  qed simp
  from this [of 0 parts] assms show ?thesis by simp
qed

lemma failed_risk_range:
  assumes "score_range st" "\<And>n. count = Some n \<Longrightarrow> n < 2 ^ 56" "p \<in> set (failed_risk st count)"
  shows "0 \<le> fst p \<and> fst p \<le> 100"
proof -
  from assms(3) obtain val where val: "count = Some val" "0 < val"
    by (auto simp: failed_risk_def split: option.splits if_splits)
  let ?u = "riskSettingInt st ''risk_score_failed_attempt'' 15" and ?m = "riskSettingInt st ''risk_failed_attempt_max_score'' 45"
  have u: "0 \<le> ?u" "?u \<le> 50" "0 \<le> ?m" "?m \<le> 100"
    using assms(1) riskSettingInt_nonneg by (auto simp: score_range_def)
  have prod: "0 \<le> val * ?u" "val * ?u \<le> 2 ^ 56 * 50"
    using u val(2) assms(2) [OF val(1)] by (simp, intro mult_mono) auto
  then have "wrap64 (val * ?u) = val * ?u" by (intro wrap64_id) auto
  with assms(3) val u prod show ?thesis by (auto simp: failed_risk_def)
qed

lemma other_risk_range:
  assumes "score_range st" "p \<in> set (anomaly_risk st a @ hours_risk st hour)"
  shows "0 \<le> fst p \<and> fst p \<le> 100"
  using assms riskSettingInt_nonneg
  by (cases a; cases "the a")
    (auto simp: anomaly_risk_def hours_risk_def score_range_def split: if_splits)

lemma risk_parts_length: "length (anomaly_risk st a @ hours_risk st hour @ failed_risk st count) \<le> 3"
  by (auto simp: anomaly_risk_def hours_risk_def failed_risk_def split: option.splits anomaly.splits)

section \<open>Properties\<close>


definition demo_guard :: "(unit mem_redis, unit) guard_cfg" where
  "demo_guard = \<lparr>c_rdb = Some mem_server, c_settings = Some \<lparr>GetInt = (\<lambda>k d. if k = ''max_login_attempts'' then 1 else d),
     GetString = (\<lambda>k d. d), GetBool = (\<lambda>k d. d)\<rparr>, c_geoip = None, c_mailer = True, c_sha = bytes_of\<rparr>"

abbreviation demo_guard_world :: "unit mem_redis guard_world" where
  "demo_guard_world \<equiv> \<lparr>w_rd = \<lparr>mem_kv = (\<lambda>_. None), mem_up = True\<rparr>, w_mail = []\<rparr>"

lemma demo_guard_simps [simp]: "c_rdb demo_guard = Some mem_server" "max_attempts demo_guard = 1"
  "c_mailer demo_guard" "c_geoip demo_guard = None"
  by (simp_all add: demo_guard_def setting_int_def)


text \<open>a successful login forgets the failures. After \<open>clearFailedAttempts\<close> with an executed \<open>DEL\<close> the account
  is not locked and the next failed attempt counts from one again; other accounts keep their counters
  and locks (the digest being collision free on the two addresses).\<close>

lemma clear_resets_lockout:
  assumes "redis_laws R see" "c_rdb C = Some R"
    and "rDel R (w_rd w) t [failKey (c_sha C) email, lockoutKey (c_sha C) email] = (s, ROk k)"
    and "t \<le> t'" "c_sha C other \<noteq> c_sha C email"
  shows "checkLockout C t' email (w_rd (clearFailedAttempts C t email w)) = None \<and>
    (\<forall>s' n. rIncr R (w_rd (clearFailedAttempts C t email w)) t' (failKey (c_sha C) email) = (s', ROk n) \<longrightarrow> n = 1) \<and>
    (\<forall>key \<in> {failKey (c_sha C) other, lockoutKey (c_sha C) other}.
      see (w_rd (clearFailedAttempts C t email w)) t' key = see (w_rd w) t' key)"
proof -
  let ?f = "failKey (c_sha C) email" and ?l = "lockoutKey (c_sha C) email"
  have s: "w_rd (clearFailedAttempts C t email w) = s"
    using assms(2,3) by (simp add: clearFailedAttempts_def)
  note del = redis_laws.del_ok [OF assms(1,3)] and later = redis_laws.see_later [OF assms(1,4)]
  have gone: "see s t' ?f = None" "see s t' ?l = None" by (simp_all add: later del)
  have others: "see s t' key = see (w_rd w) t' key" if "key \<in> {failKey (c_sha C) other, lockoutKey (c_sha C) other}" for key
    using that assms(5) by (auto simp: later del failKey_def lockoutKey_def hex_encode_inj)
  have "\<not> 0 < d" if "rTTL R s t' ?l = ROk d" for d
    using redis_laws.ttl_gone [OF assms(1) that gone(2)] by simp
  then have "checkLockout C t' email s = None"
    using assms(2) by (auto simp: checkLockout_def split: reply.splits)
  moreover have "n = 1" if "rIncr R s t' ?f = (s', ROk n)" for s' n
    using redis_laws.incr_ok [OF assms(1) that] gone by simp
  ultimately show ?thesis using s others by blast
qed

text \<open>the risk score is a clamped sum. With score settings inside the ranges the administration accepts and
  fewer than \<open>2 ^ 56\<close> recorded failures, no addition wraps around: the score is the sum of its parts capped
  at 100, in particular between 0 and 100.\<close>

lemma risk_score_clamped_sum:
  assumes "score_range (c_settings C)"
    and "\<And>R n. c_rdb C = Some R \<Longrightarrow> reply_int (rGet R s now (failKey (c_sha C) email)) = Some n \<Longrightarrow> n < 2 ^ 56"
  shows "\<exists>count. fst (calculateRiskScore C db_ok sqlnow now hour uid email ip ua info st s) =
      min 100 (sum_list (map fst (anomaly_risk (c_settings C) (detectLoginAnomaly C db_ok sqlnow now uid ip ua info st) @
        hours_risk (c_settings C) hour @ failed_risk (c_settings C) count))) \<and>
    fst (calculateRiskScore C db_ok sqlnow now hour uid email ip ua info st s) \<in> {0..100}"
proof -
  define count where "count = (case c_rdb C of None \<Rightarrow> None | Some R \<Rightarrow> reply_int (rGet R s now (failKey (c_sha C) email)))"
  have small: "n < 2 ^ 56" if "count = Some n" for n
    using that assms(2) by (auto simp: count_def split: option.splits)
  let ?parts = "anomaly_risk (c_settings C) (detectLoginAnomaly C db_ok sqlnow now uid ip ua info st) @
    hours_risk (c_settings C) hour @ failed_risk (c_settings C) count"
  have range: "0 \<le> fst p \<and> fst p \<le> 100" if "p \<in> set ?parts" for p
    using that failed_risk_range [OF assms(1) small, of count p]
      other_risk_range [OF assms(1), of p "detectLoginAnomaly C db_ok sqlnow now uid ip ua info st" hour] by force
  have "fst (calculateRiskScore C db_ok sqlnow now hour uid email ip ua info st s) = min 100 (sum_list (map fst ?parts))"
    using score_fold [OF range risk_parts_length] by (simp add: calculateRiskScore_def Let_def flip: count_def)
  with score_fold [OF range risk_parts_length] show ?thesis by (intro exI [of _ count]) auto
qed

text \<open>the suspicious-hours test is membership in a cyclic interval of the 24-hour clock: for an hour and
  bounds on the clock it holds exactly when \<open>hour\<close> is reached from \<open>start\<close> before \<open>end\<close> is.\<close>

lemma suspicious_hours_cyclic:
  assumes "hour \<in> {0..23}" "start \<in> {0..23}" "stop \<in> {0..23}"
  shows "isWithinSuspiciousHoursWindow hour start stop \<longleftrightarrow> (hour - start) mod 24 < (stop - start) mod 24"
proof -
  have m: "(x :: int) mod 24 = (if x < 0 then x + 24 else x)" if "- 24 < x" "x < 24" for x
    using that mod_pos_pos_trivial [of x 24] mod_pos_pos_trivial [of "x + 24" 24] by auto
  show ?thesis using assms by (auto simp: isWithinSuspiciousHoursWindow_def m)
qed

text \<open>the great-circle distance. On latitudes between \<open>-90\<close> and \<open>90\<close> both square roots of the formula are of
  non-negative numbers, and the distance is symmetric, zero between equal points and between 0 and half
  the circumference of the Earth.\<close>

lemma haversine_well_defined:
  assumes "\<bar>lat1\<bar> \<le> 90" "\<bar>lat2\<bar> \<le> 90"
  shows "haversine_a lat1 lon1 lat2 lon2 \<in> {0..1} \<and>
    haversineDistance lat1 lon1 lat2 lon2 \<in> {0..6371 * pi} \<and>
    haversineDistance lat1 lon1 lat2 lon2 = haversineDistance lat2 lon2 lat1 lon1 \<and>
    haversineDistance lat1 lon1 lat1 lon1 = 0"
proof -
  let ?a = "haversine_a lat1 lon1 lat2 lon2"
  have a: "0 \<le> ?a" "?a \<le> 1" using haversine_a_nonneg haversine_a_le_one assms by auto
  have "haversineDistance lat1 lon1 lat2 lon2 \<in> {0..6371 * pi}"
    using atan2_quadrant [of "sqrt ?a" "sqrt (1 - ?a)"] a by (simp add: haversineDistance_def Let_def)
  moreover have "haversineDistance lat1 lon1 lat1 lon1 = 0"
    by (simp add: haversineDistance_def haversine_a_def atan2_def Let_def)
  ultimately show ?thesis using a haversine_a_sym [of lat1 lon1 lat2 lon2] by (simp add: haversineDistance_def)
qed

end
