(* ===== verification/Token_Service.thy ===== *)
theory Token_Service
  imports ZT_Prelude
begin

text \<open>
  \<open>internal/auth/keys.go\<close> and \<open>internal/auth/token.go\<close>: the key store, the claims, issuing and
  validating tokens. The library golang-jwt, the private keys and the random source are parameters:
  \<open>jwt_lib\<close> has what the code calls (\<open>SignedString\<close>, \<open>ParseWithClaims\<close>, \<open>Signer.Public\<close>), and the
  locale \<open>jwt_laws\<close> states what it documents. Claim times are in seconds (\<open>jwt.NumericDate\<close> truncates).
\<close>

section \<open>Keys\<close>

record 'k key_entry =
  signer :: 'k
  alg :: string

record 'k key_store =
  keys :: "(string \<times> 'k key_entry) list"
  primary :: string

definition AlgEdDSA :: string where "AlgEdDSA = ''EdDSA''"
definition AlgES256 :: string where "AlgES256 = ''ES256''"
definition AlgRS256 :: string where "AlgRS256 = ''RS256''"

lemmas alg_defs = AlgEdDSA_def AlgES256_def AlgRS256_def

definition IsSupportedAlg :: "string \<Rightarrow> bool" where
  "IsSupportedAlg a = (a \<in> set [AlgEdDSA, AlgES256, AlgRS256])"

definition NewKeyStore :: "'k key_store" where
  "NewKeyStore = \<lparr>keys = [], primary = ''''\<rparr>"

definition addKey :: "string \<Rightarrow> 'k key_entry \<Rightarrow> 'k key_store \<Rightarrow> 'k key_store" where
  "addKey kid e ks = ks\<lparr>keys := (kid, e) # filter (\<lambda>p. fst p \<noteq> kid) (keys ks)\<rparr>"

text \<open>The signing method's \<open>alg\<close> name for a key's algorithm.\<close>

definition signingMethodFor :: "string \<Rightarrow> string" where
  "signingMethodFor a = (if a = AlgES256 then AlgES256 else if a = AlgRS256 then AlgRS256 else AlgEdDSA)"

definition PublicKey :: "('k \<Rightarrow> 'p) \<Rightarrow> 'k key_store \<Rightarrow> string \<Rightarrow> ('p \<times> string) option" where
  "PublicKey pub ks kid = map_option (\<lambda>e. (pub (signer e), alg e)) (map_of (keys ks) kid)"

text \<open>
  \<open>LoadOrGenerateKeyStore\<close>: \<open>load\<close> reads a PKCS#8 file and derives the algorithm from the key,
  \<open>gen\<close> makes a fresh key, \<open>kid\<close> fingerprints the public key; \<open>None\<close> is the error.
\<close>

definition LoadOrGenerateKeyStore :: "(string \<Rightarrow> 'k key_entry option) \<Rightarrow> (string \<Rightarrow> 'k option) \<Rightarrow>
    ('k \<Rightarrow> string) \<Rightarrow> string \<Rightarrow> string \<Rightarrow> string \<Rightarrow> 'k key_store option" where
  "LoadOrGenerateKeyStore load gen kid primaryPath secondaryPath a =
    (if primaryPath = '''' then
       (if \<not> IsSupportedAlg a then None
        else case gen a of None \<Rightarrow> None
          | Some k \<Rightarrow> Some ((addKey (kid k) \<lparr>signer = k, alg = a\<rparr> NewKeyStore)\<lparr>primary := kid k\<rparr>))
     else case load primaryPath of
         None \<Rightarrow> None
       | Some p \<Rightarrow>
         (let ks = (addKey (kid (signer p)) p NewKeyStore)\<lparr>primary := kid (signer p)\<rparr> in
          if secondaryPath = '''' then Some ks
          else case load secondaryPath of
              None \<Rightarrow> Some ks
            | Some s \<Rightarrow> Some (addKey (kid (signer s)) s ks)))"

section \<open>Claims\<close>

record claims =
  UserID :: string
  Email :: string
  Locale :: string
  Roles :: "string list"
  Permissions :: "string list"
  ClientID :: string
  Scopes :: "string list"
  SubType :: string
  TokenUse :: string
  Confirmation :: "string option"
  Issuer :: string
  Subject :: string
  Audience :: "string list"
  JTI :: string
  ExpiresAt :: int
  IssuedAt :: int

definition SubTypeUser :: string where "SubTypeUser = ''user''"
definition SubTypeService :: string where "SubTypeService = ''service''"
definition TokenUseSession :: string where "TokenUseSession = ''session''"
definition TokenUseService :: string where "TokenUseService = ''service''"

lemmas token_consts = SubTypeUser_def SubTypeService_def TokenUseSession_def TokenUseService_def

definition zero_claims :: claims where
  "zero_claims = \<lparr>UserID = '''', Email = '''', Locale = '''', Roles = [], Permissions = [], ClientID = '''',
     Scopes = [], SubType = '''', TokenUse = '''', Confirmation = None, Issuer = '''', Subject = '''',
     Audience = [], JTI = '''', ExpiresAt = 0, IssuedAt = 0\<rparr>"

definition HasPermission :: "claims \<Rightarrow> string \<Rightarrow> string \<Rightarrow> bool" where
  "HasPermission c resource action =
    ((resource @ '':'' @ action) \<in> set (if SubType c = SubTypeService then Scopes c else Permissions c))"

definition numeric_date :: "instant \<Rightarrow> int" where
  "numeric_date t = t div go_second"

section \<open>The JWT library\<close>

text \<open>\<open>jwt.ErrTokenExpired\<close> is told apart from every other error.\<close>

datatype 'c jwt_result = JwtExpired | JwtInvalid | JwtOk 'c

record ('k, 'p, 't) jwt_lib =
  SignedString :: "string \<Rightarrow> string \<Rightarrow> 'k \<Rightarrow> claims \<Rightarrow> 't option"
  ParseWithClaims :: "instant \<Rightarrow> 't \<Rightarrow> (string option \<Rightarrow> string \<Rightarrow> 'p option) \<Rightarrow> claims jwt_result"
  Public :: "'k \<Rightarrow> 'p"

text \<open>
  \<open>made_by p a kid tok c\<close> says that \<open>tok\<close> carries the header \<open>(kid, a)\<close>, the claims \<open>c\<close> and a signature
  that verifies under the public key \<open>p\<close> with algorithm \<open>a\<close>. Compact tokens are a type \<open>'t\<close> of the
  library: no code of the repository looks inside one.
\<close>

locale jwt_laws =
  fixes J :: "('k, 'p, 't) jwt_lib"
    and made_by :: "'p \<Rightarrow> string \<Rightarrow> string option \<Rightarrow> 't \<Rightarrow> claims \<Rightarrow> bool"
  assumes parse_sound: "ParseWithClaims J now tok kf = JwtOk c \<Longrightarrow>
      \<exists>kid a p. kf kid a = Some p \<and> made_by p a kid tok c \<and> now < ExpiresAt c * go_second"
    and sign_made: "SignedString J a kd k c = Some tok \<Longrightarrow> made_by (Public J k) a (Some kd) tok c"
    and parse_complete: "made_by p a kid tok c \<Longrightarrow> kf kid a = Some p \<Longrightarrow>
      now < ExpiresAt c * go_second \<Longrightarrow> ParseWithClaims J now tok kf = JwtOk c"
    and parse_expired: "made_by p a kid tok c \<Longrightarrow> kf kid a = Some p \<Longrightarrow>
      \<not> now < ExpiresAt c * go_second \<Longrightarrow> ParseWithClaims J now tok kf = JwtExpired"
    and parse_refused: "made_by p a kid tok c \<Longrightarrow> kf kid a = None \<Longrightarrow>
      ParseWithClaims J now tok kf = JwtInvalid"
    and made_unique: "made_by p a kid tok c \<Longrightarrow> made_by p' a' kid' tok c' \<Longrightarrow> c = c' \<and> kid = kid' \<and> a = a'"

section \<open>Issuing\<close>

datatype token_error = ErrInvalidToken | ErrExpiredToken | ErrSign | ErrRandom

text \<open>A missing primary key is the zero \<open>keyEntry\<close>: a nil signer, which signing rejects.\<close>

definition Sign :: "('k, 'p, 't) jwt_lib \<Rightarrow> 'k key_store \<Rightarrow> claims \<Rightarrow> token_error + 't" where
  "Sign J ks c = (case map_of (keys ks) (primary ks) of
     None \<Rightarrow> Inl ErrSign
   | Some e \<Rightarrow> (case SignedString J (signingMethodFor (alg e)) (primary ks) (signer e) c of
        None \<Rightarrow> Inl ErrSign | Some t \<Rightarrow> Inr t))"

record 't token_pair =
  AccessToken :: 't
  RefreshToken :: string

definition session_claims :: "string \<Rightarrow> instant \<Rightarrow> string \<Rightarrow> string \<Rightarrow> string \<Rightarrow> string list \<Rightarrow> string list \<Rightarrow>
    duration \<Rightarrow> claims" where
  "session_claims jti now userID email locale roles permissions accessTTL =
    zero_claims\<lparr>UserID := userID, Email := email, Locale := locale, Roles := roles,
      Permissions := permissions, SubType := SubTypeUser, TokenUse := TokenUseSession, JTI := jti,
      ExpiresAt := numeric_date (now + accessTTL), IssuedAt := numeric_date now\<rparr>"

text \<open>\<open>jti\<close> is \<open>uuid.NewString()\<close>, \<open>opaque\<close> the outcome of \<open>generateOpaqueToken\<close>.\<close>

definition GenerateTokenPair :: "('k, 'p, 't) jwt_lib \<Rightarrow> 'k key_store \<Rightarrow> string \<Rightarrow> bytes option \<Rightarrow>
    instant \<Rightarrow> string \<Rightarrow> string \<Rightarrow> string \<Rightarrow> string list \<Rightarrow> string list \<Rightarrow> duration \<Rightarrow> token_error + 't token_pair" where
  "GenerateTokenPair J ks jti random now userID email locale roles permissions accessTTL =
    (case Sign J ks (session_claims jti now userID email locale roles permissions accessTTL) of
       Inl e \<Rightarrow> Inl e
     | Inr tok \<Rightarrow>
       (case random of
          None \<Rightarrow> Inl ErrRandom
        | Some b \<Rightarrow> Inr \<lparr>AccessToken = tok, RefreshToken = hex_encode b\<rparr>))"

definition service_claims :: "string \<Rightarrow> instant \<Rightarrow> string \<Rightarrow> string \<Rightarrow> string list \<Rightarrow> duration \<Rightarrow> string \<Rightarrow> claims" where
  "service_claims jti now clientID name scopes ttl dpopJKT =
    zero_claims\<lparr>ClientID := clientID, Scopes := scopes, SubType := SubTypeService,
      TokenUse := TokenUseService, Subject := name, JTI := jti,
      ExpiresAt := numeric_date (now + ttl), IssuedAt := numeric_date now,
      Confirmation := (if dpopJKT \<noteq> '''' then Some dpopJKT else None)\<rparr>"

definition GenerateServiceToken :: "('k, 'p, 't) jwt_lib \<Rightarrow> 'k key_store \<Rightarrow> string \<Rightarrow> instant \<Rightarrow>
    string \<Rightarrow> string \<Rightarrow> string list \<Rightarrow> duration \<Rightarrow> string \<Rightarrow> token_error + 't \<times> int" where
  "GenerateServiceToken J ks jti now clientID name scopes ttl dpopJKT =
    (case Sign J ks (service_claims jti now clientID name scopes ttl dpopJKT) of
       Inl e \<Rightarrow> Inl e | Inr tok \<Rightarrow> Inr (tok, ttl div go_second))"

section \<open>Validating\<close>

definition keyfunc :: "('k \<Rightarrow> 'p) \<Rightarrow> 'k key_store \<Rightarrow> string option \<Rightarrow> string \<Rightarrow> 'p option" where
  "keyfunc pub ks kid a = (case kid of
     None \<Rightarrow> None
   | Some kid \<Rightarrow> if kid = '''' then None else
       (case PublicKey pub ks kid of None \<Rightarrow> None
        | Some (p, a') \<Rightarrow> if a \<noteq> a' then None else Some p))"

definition validateToken :: "('k, 'p, 't) jwt_lib \<Rightarrow> 'k key_store \<Rightarrow> instant \<Rightarrow> 't \<Rightarrow> token_error + claims" where
  "validateToken J ks now tok = (case ParseWithClaims J now tok (keyfunc (Public J) ks) of
     JwtExpired \<Rightarrow> Inl ErrExpiredToken | JwtInvalid \<Rightarrow> Inl ErrInvalidToken | JwtOk c \<Rightarrow> Inr c)"

definition ValidateAccessToken :: "('k, 'p, 't) jwt_lib \<Rightarrow> 'k key_store \<Rightarrow> instant \<Rightarrow> 't \<Rightarrow> token_error + claims" where
  "ValidateAccessToken J ks now tok = (case validateToken J ks now tok of
     Inl e \<Rightarrow> Inl e
   | Inr c \<Rightarrow> if TokenUse c \<noteq> TokenUseSession \<and> TokenUse c \<noteq> TokenUseService then Inl ErrInvalidToken else Inr c)"

definition ValidateOIDCAccessToken :: "('k, 'p, 't) jwt_lib \<Rightarrow> 'k key_store \<Rightarrow> instant \<Rightarrow> 't \<Rightarrow> token_error + claims" where
  "ValidateOIDCAccessToken J ks now tok = validateToken J ks now tok"

section \<open>Facts\<close>

text \<open>A key store whose primary key exists and signs under its own algorithm, as the loader builds it.\<close>

definition wf_keys :: "'k key_store \<Rightarrow> bool" where
  "wf_keys ks \<longleftrightarrow> primary ks \<noteq> '''' \<and> (\<exists>e. map_of (keys ks) (primary ks) = Some e) \<and>
     (\<forall>e \<in> snd ` set (keys ks). IsSupportedAlg (alg e))"

lemma map_of_filter_neq: "map_of (filter (\<lambda>p. fst p \<noteq> k) xs) j = (if j = k then None else map_of xs j)"
  by (induction xs) auto

lemma addKey_lookup: "map_of (keys (addKey kid e ks)) k = (if k = kid then Some e else map_of (keys ks) k)"
  by (simp add: addKey_def map_of_filter_neq)

lemma signingMethodFor_supported: "IsSupportedAlg a \<Longrightarrow> signingMethodFor a = a"
  by (auto simp: IsSupportedAlg_def signingMethodFor_def alg_defs)

context jwt_laws
begin

lemma validate_sound:
  assumes "validateToken J ks now tok = Inr c"
  shows "\<exists>kid e. map_of (keys ks) kid = Some e \<and> made_by (Public J (signer e)) (alg e) (Some kid) tok c \<and>
    now < ExpiresAt c * go_second"
proof -
  from assms have "ParseWithClaims J now tok (keyfunc (Public J) ks) = JwtOk c"
    by (auto simp: validateToken_def split: jwt_result.splits)
  from parse_sound [OF this] obtain kid a p where kf: "keyfunc (Public J) ks kid a = Some p"
    and rest: "made_by p a kid tok c" "now < ExpiresAt c * go_second" by blast
  from kf obtain k e where "kid = Some k" "map_of (keys ks) k = Some e" "a = alg e" "p = Public J (signer e)"
    by (auto simp: keyfunc_def PublicKey_def split: option.splits if_splits)
  with rest show ?thesis by blast
qed

lemma sign_validate:
  assumes "wf_keys ks" "Sign J ks c = Inr tok"
    and keep: "map_of (keys ks') (primary ks) = map_of (keys ks) (primary ks)"
  shows "validateToken J ks' now tok =
    (if now < ExpiresAt c * go_second then Inr c else Inl ErrExpiredToken)"
proof -
  from assms(1) obtain e where e: "map_of (keys ks) (primary ks) = Some e" "IsSupportedAlg (alg e)"
    by (force simp: wf_keys_def dest: map_of_SomeD)
  with assms(2) have "SignedString J (alg e) (primary ks) (signer e) c = Some tok"
    by (auto simp: Sign_def signingMethodFor_supported split: option.splits)
  then have made: "made_by (Public J (signer e)) (alg e) (Some (primary ks)) tok c"
    by (rule sign_made)
  have kf: "keyfunc (Public J) ks' (Some (primary ks)) (alg e) = Some (Public J (signer e))"
    using assms(1) e keep by (simp add: keyfunc_def PublicKey_def wf_keys_def)
  show ?thesis
    using parse_complete [OF made, where kf = "keyfunc (Public J) ks'", OF kf]
      parse_expired [OF made, where kf = "keyfunc (Public J) ks'", OF kf] by (auto simp: validateToken_def)
qed

lemma no_use_rejected:
  assumes "Sign J ks c = Inr tok" "wf_keys ks" "TokenUse c = ''''"
  shows "\<not> is_ok (ValidateAccessToken J ks now tok)"
  using sign_validate [OF assms(2,1) refl, of now] assms(3)
  by (simp add: ValidateAccessToken_def token_consts)

end

section \<open>A library satisfying the contract\<close>

text \<open>Symbolic tokens, as in protocol models: a token shows its header and claims and remembers the
  key that signed it. Used to instantiate the parameter.\<close>

datatype sym_token = SymToken string "string option" nat claims

definition sym_jwt :: "(nat, nat, sym_token) jwt_lib" where
  "sym_jwt = \<lparr>
    SignedString = (\<lambda>a kid k c. Some (SymToken a (Some kid) k c)),
    ParseWithClaims = (\<lambda>now tok kf. case tok of SymToken a kid k c \<Rightarrow>
      if kf kid a \<noteq> Some k then JwtInvalid
      else if now < ExpiresAt c * go_second then JwtOk c else JwtExpired),
    Public = (\<lambda>k. k)\<rparr>"

definition sym_made :: "nat \<Rightarrow> string \<Rightarrow> string option \<Rightarrow> sym_token \<Rightarrow> claims \<Rightarrow> bool" where
  "sym_made p a kid tok c = (tok = SymToken a kid p c)"

interpretation sym: jwt_laws sym_jwt sym_made
  by unfold_locales (auto simp: sym_jwt_def sym_made_def split: sym_token.splits if_splits)

definition demo_keys :: "nat key_store" where
  "demo_keys = (addKey ''k1'' \<lparr>signer = 7, alg = AlgEdDSA\<rparr> NewKeyStore)\<lparr>primary := ''k1''\<rparr>"

lemma demo_keys_wf [simp]: "wf_keys demo_keys"
  by (simp add: demo_keys_def wf_keys_def addKey_def NewKeyStore_def IsSupportedAlg_def alg_defs)

abbreviation demo_claims :: claims where
  "demo_claims \<equiv> session_claims ''j'' 0 ''u1'' ''e'' ''en'' [] [] go_minute"

section \<open>Properties\<close>

text \<open>C8: issue and validate are inverse until expiry. A pair that \<open>GenerateTokenPair\<close> returns has an
  access token which \<open>ValidateAccessToken\<close> maps back to exactly the claims that were signed until the
  second of its expiry, and rejects as expired from then on. This stays true under every other key
  store that still holds the signing key under its identifier (zero-downtime rotation).\<close>

theorem issued_token_validates:
  assumes "jwt_laws J made" "wf_keys ks"
    and "GenerateTokenPair J ks jti random now uid email loc rls perms ttl = Inr pair"
    and "map_of (keys ks') (primary ks) = map_of (keys ks) (primary ks)"
  shows "ValidateAccessToken J ks' now' (AccessToken pair) =
    (if now' < numeric_date (now + ttl) * go_second
     then Inr (session_claims jti now uid email loc rls perms ttl) else Inl ErrExpiredToken)"
proof -
  let ?c = "session_claims jti now uid email loc rls perms ttl"
  from assms(3) have "Sign J ks ?c = Inr (AccessToken pair)"
    by (auto simp: GenerateTokenPair_def split: sum.splits option.splits)
  from jwt_laws.sign_validate [OF assms(1,2) this assms(4), of now'] show ?thesis
    by (simp add: ValidateAccessToken_def session_claims_def token_consts)
qed

theorem issued_token_validates_witness:
  "ValidateAccessToken sym_jwt demo_keys (30 * go_second) (SymToken AlgEdDSA (Some ''k1'') 7 demo_claims) =
    (if (30 * go_second :: instant) < numeric_date (0 + go_minute) * go_second
     then Inr demo_claims else Inl ErrExpiredToken)"
proof -
  have gen: "GenerateTokenPair sym_jwt demo_keys ''j'' (Some [1]) 0 ''u1'' ''e'' ''en'' [] [] go_minute =
      Inr \<lparr>AccessToken = SymToken AlgEdDSA (Some ''k1'') 7 demo_claims, RefreshToken = hex_encode [1]\<rparr>"
    by (simp add: GenerateTokenPair_def Sign_def demo_keys_def addKey_def NewKeyStore_def sym_jwt_def
        signingMethodFor_def alg_defs)
  show ?thesis
    using issued_token_validates [OF sym.jwt_laws_axioms demo_keys_wf gen refl, of "30 * go_second"] by simp
qed

lemma ValidateAccessToken_sound:
  assumes "jwt_laws J made" "ValidateAccessToken J ks now tok = Inr c"
  obtains kid e where "map_of (keys ks) kid = Some e" "made (Public J (signer e)) (alg e) (Some kid) tok c"
    "now < ExpiresAt c * go_second" "TokenUse c = TokenUseSession \<or> TokenUse c = TokenUseService"
proof -
  from assms(2) have "validateToken J ks now tok = Inr c"
    and "TokenUse c = TokenUseSession \<or> TokenUse c = TokenUseService"
    by (auto simp: ValidateAccessToken_def split: sum.splits if_splits)
  with jwt_laws.validate_sound [OF assms(1)] that show ?thesis by blast
qed


end
