(* ===== verification/AES_Cipher.thy ===== *)
theory AES_Cipher
  imports ZT_Prelude
begin

text \<open>
  \<open>pkg/crypto/aes.go\<close>: authenticated encryption as nonce, ciphertext and tag in one byte string. The
  block cipher and GCM are a parameter (\<open>Seal\<close> and \<open>Open\<close> with a 12-byte nonce); the locale
  \<open>aead_laws\<close> states that opening inverts sealing and that nothing else opens.
\<close>

record aead =
  Seal :: "bytes \<Rightarrow> bytes \<Rightarrow> bytes \<Rightarrow> bytes"
  Open :: "bytes \<Rightarrow> bytes \<Rightarrow> bytes \<Rightarrow> bytes option"

abbreviation gcm_nonce_size :: nat where "gcm_nonce_size \<equiv> 12"

text \<open>\<open>aes.NewCipher\<close> accepts keys of 16, 24 and 32 bytes.\<close>

definition NewCipher_ok :: "bytes \<Rightarrow> bool" where
  "NewCipher_ok key = (length key \<in> set [16, 24, 32])"

text \<open>\<open>random n\<close> is what reading \<open>n\<close> bytes from \<open>rand.Reader\<close> gives.\<close>

definition Encrypt :: "aead \<Rightarrow> (nat \<Rightarrow> bytes option) \<Rightarrow> bytes \<Rightarrow> bytes \<Rightarrow> bytes option" where
  "Encrypt G random key plaintext =
    (if \<not> NewCipher_ok key then None
     else case random gcm_nonce_size of
       None \<Rightarrow> None
     | Some nonce \<Rightarrow> Some (nonce @ Seal G key nonce plaintext))"

definition Decrypt :: "aead \<Rightarrow> bytes \<Rightarrow> bytes \<Rightarrow> bytes option" where
  "Decrypt G key ciphertext =
    (if \<not> NewCipher_ok key then None
     else if length ciphertext < gcm_nonce_size then None
     else Open G key (take gcm_nonce_size ciphertext) (drop gcm_nonce_size ciphertext))"

locale aead_laws =
  fixes G :: aead
  assumes open_seal: "Open G k n (Seal G k n p) = Some p"
    and open_authentic: "Open G k n c = Some p \<Longrightarrow> c = Seal G k n p"
begin

lemma decrypt_encrypt:
  assumes "Encrypt G random key p = Some c" "\<And>b. random gcm_nonce_size = Some b \<Longrightarrow> length b = gcm_nonce_size"
  shows "Decrypt G key c = Some p"
  using assms by (auto simp: Encrypt_def Decrypt_def open_seal split: if_splits option.splits)

lemma decrypt_only_sealed:
  assumes "Decrypt G key c = Some p"
  shows "c = take gcm_nonce_size c @ Seal G key (take gcm_nonce_size c) p"
proof -
  from assms have "drop gcm_nonce_size c = Seal G key (take gcm_nonce_size c) p"
    by (intro open_authentic) (auto simp: Decrypt_def split: if_splits)
  then show ?thesis by (metis append_take_drop_id)
qed

end

text \<open>An instance: the sealed text carries the key and the nonce in clear, so that only they open it.\<close>

definition tagged_aead :: aead where
  "tagged_aead = \<lparr>Seal = (\<lambda>k n p. k @ n @ p),
     Open = (\<lambda>k n c. if take (length (k @ n)) c = k @ n then Some (drop (length (k @ n)) c) else None)\<rparr>"

interpretation tagged: aead_laws tagged_aead
proof (unfold_locales, goal_cases)
  case (2 k n c p)
  then show ?case by (auto simp: tagged_aead_def split: if_splits) (metis append_assoc append_take_drop_id)
qed (simp add: tagged_aead_def)

section \<open>Key rotation\<close>

text \<open>\<open>mfa.Service.decryptHex\<close>: the current key first, then the previous keys in order.\<close>

fun try_keys :: "aead \<Rightarrow> bytes list \<Rightarrow> bytes \<Rightarrow> bytes option" where
  "try_keys G [] enc = None"
| "try_keys G (k # ks) enc = (case Decrypt G k enc of Some p \<Rightarrow> Some p | None \<Rightarrow> try_keys G ks enc)"

definition decryptHex :: "aead \<Rightarrow> bytes \<Rightarrow> bytes list \<Rightarrow> string \<Rightarrow> string option" where
  "decryptHex G encKey prevKeys encHex =
    (case hex_decode encHex of
       None \<Rightarrow> None
     | Some enc \<Rightarrow>
       (case Decrypt G encKey enc of
          Some plain \<Rightarrow> Some (ToUpper (string_of plain))
        | None \<Rightarrow> map_option (\<lambda>plain. ToUpper (string_of plain)) (try_keys G prevKeys enc)))"

lemma try_keys_split: "(\<And>k. k \<in> set as \<Longrightarrow> Decrypt G k enc = None) \<Longrightarrow>
    try_keys G (as @ bs) enc = try_keys G bs enc"
  by (induction as) auto

lemma decryptHex_keys: "decryptHex G encKey prevKeys encHex =
    (case hex_decode encHex of None \<Rightarrow> None
     | Some enc \<Rightarrow> map_option (\<lambda>plain. ToUpper (string_of plain)) (try_keys G (encKey # prevKeys) enc))"
  by (auto simp: decryptHex_def split: option.splits)

lemma decryptHex_found:
  assumes "encKey # prevKeys = as @ k # bs" "\<And>j. j \<in> set as \<Longrightarrow> Decrypt G j enc = None"
    and "Decrypt G k enc = Some (bytes_of s)"
  shows "decryptHex G encKey prevKeys (hex_encode enc) = Some (ToUpper s)"
  unfolding decryptHex_keys assms(1) hex_decode_encode
  using try_keys_split [of as G enc "k # bs"] assms(2,3) by simp

text \<open>stored secrets survive key rotation. A TOTP secret encrypted under some key decrypts, upper-cased,
  under any later configuration that still lists that key, as current or previous key, provided no key
  listed before it opens the same ciphertext.\<close>

lemma secret_survives_key_rotation:
  assumes "aead_laws G" "Encrypt G random key (bytes_of s) = Some c"
    and "\<And>b. random gcm_nonce_size = Some b \<Longrightarrow> length b = gcm_nonce_size"
    and "encKey # prevKeys = as @ key # bs" "\<And>j. j \<in> set as \<Longrightarrow> Decrypt G j c = None"
  shows "decryptHex G encKey prevKeys (hex_encode c) = Some (ToUpper s)"
  using aead_laws.decrypt_encrypt [OF assms(1-3)] decryptHex_found [OF assms(4,5)] by simp

abbreviation demo_key :: "8 word \<Rightarrow> bytes" where "demo_key b \<equiv> replicate 32 b"
abbreviation demo_nonce :: bytes where "demo_nonce \<equiv> replicate 12 7"

end
