(* ===== verification/MFA_Service.thy ===== *)
theory MFA_Service
  imports AES_Cipher Redis_Server
begin

text \<open>
  \<open>internal/mfa/repository.go\<close> and \<open>internal/mfa/service.go\<close>: the table \<open>user_mfa\<close> (one row per user)
  and the TOTP and recovery-code operations. The TOTP library, bcrypt, AES-GCM, the random source and
  Redis are parameters. A statement's first argument says whether PostgreSQL executes it.
\<close>

section \<open>Repository\<close>

record mfa_record =
  SecretEncCol :: string
  PendingSecretEncCol :: "string option"
  EnabledAt :: "instant option"
  RecoveryCodesCol :: "string list"
  PendingRecoveryCodesCol :: "string list"

type_synonym mfa_table = "string \<rightharpoonup> mfa_record"

datatype mfa_error = MfaNotFound | MfaDB | MfaCurrentCodeRequired | MfaInvalidCode | MfaReplayUnavailable
  | MfaCodeAlreadyUsed | MfaDisabled | MfaCipher | MfaGenerate

definition find_mfa :: "bool \<Rightarrow> string \<Rightarrow> mfa_table \<Rightarrow> mfa_error + mfa_record" where
  "find_mfa ok userID tb = (if \<not> ok then Inl MfaDB
     else case tb userID of None \<Rightarrow> Inl MfaNotFound | Some rec \<Rightarrow> Inr rec)"

definition UpsertPending :: "bool \<Rightarrow> string \<Rightarrow> string \<Rightarrow> string list \<Rightarrow> mfa_table \<Rightarrow> mfa_table \<times> (mfa_error + unit)" where
  "UpsertPending ok userID pendingEnc pendingCodes tb =
    (if \<not> ok then (tb, Inl MfaDB)
     else (tb(userID \<mapsto> (case tb userID of
         None \<Rightarrow> \<lparr>SecretEncCol = '''', PendingSecretEncCol = Some pendingEnc, EnabledAt = None,
                   RecoveryCodesCol = [], PendingRecoveryCodesCol = pendingCodes\<rparr>
       | Some rec \<Rightarrow> rec\<lparr>PendingSecretEncCol := Some pendingEnc, PendingRecoveryCodesCol := pendingCodes\<rparr>)),
       Inr ()))"

text \<open>\<open>totp_secret_enc\<close> is \<open>NOT NULL\<close>; a NULL array scans into an empty slice.\<close>

definition Enable :: "bool \<Rightarrow> instant \<Rightarrow> string \<Rightarrow> mfa_table \<Rightarrow> mfa_table \<times> (mfa_error + unit)" where
  "Enable ok now userID tb =
    (if \<not> ok then (tb, Inl MfaDB)
     else case tb userID of
       None \<Rightarrow> (tb, Inl MfaNotFound)
     | Some rec \<Rightarrow> (case PendingSecretEncCol rec of
         None \<Rightarrow> (tb, Inl MfaNotFound)
       | Some enc \<Rightarrow> (tb(userID \<mapsto> rec\<lparr>SecretEncCol := enc, PendingSecretEncCol := None,
           RecoveryCodesCol := PendingRecoveryCodesCol rec, PendingRecoveryCodesCol := [],
           EnabledAt := Some now\<rparr>), Inr ())))"

definition UpdateRecoveryCodes :: "bool \<Rightarrow> string \<Rightarrow> string list \<Rightarrow> mfa_table \<Rightarrow> mfa_table \<times> (mfa_error + unit)" where
  "UpdateRecoveryCodes ok userID codes tb =
    (if \<not> ok then (tb, Inl MfaDB)
     else (tb(userID := map_option (\<lambda>rec. rec\<lparr>RecoveryCodesCol := codes\<rparr>) (tb userID)), Inr ()))"

text \<open>
  \<open>ConsumeRecoveryCode\<close> under its row lock. \<open>ok1\<close> is \<open>BEGIN\<close> and \<open>SELECT\<close>, \<open>ok2\<close> the \<open>UPDATE\<close> and the
  \<open>COMMIT\<close>; a failure rolls back. \<open>codes[:idx:idx]\<close> then \<open>codes[idx+1:]\<close> drops the matched entry.
\<close>

definition ConsumeRecoveryCode :: "bool \<Rightarrow> bool \<Rightarrow> string \<Rightarrow> (string list \<Rightarrow> nat option) \<Rightarrow> mfa_table \<Rightarrow>
    mfa_table \<times> (mfa_error + bool)" where
  "ConsumeRecoveryCode ok1 ok2 userID match_code tb =
    (if \<not> ok1 then (tb, Inl MfaDB)
     else case tb userID of
       None \<Rightarrow> (tb, Inl MfaNotFound)
     | Some rec \<Rightarrow>
       (case match_code (RecoveryCodesCol rec) of
          None \<Rightarrow> (tb, Inr False)
        | Some idx \<Rightarrow>
          if \<not> ok2 then (tb, Inl MfaDB)
          else (tb(userID \<mapsto> rec\<lparr>RecoveryCodesCol :=
                  take idx (RecoveryCodesCol rec) @ drop (Suc idx) (RecoveryCodesCol rec)\<rparr>), Inr True)))"

definition Delete :: "bool \<Rightarrow> string \<Rightarrow> mfa_table \<Rightarrow> mfa_table \<times> (mfa_error + unit)" where
  "Delete ok userID tb = (if \<not> ok then (tb, Inl MfaDB) else (tb(userID := None), Inr ()))"

definition IsEnabled :: "bool \<Rightarrow> string \<Rightarrow> mfa_table \<Rightarrow> bool" where
  "IsEnabled ok userID tb = (case find_mfa ok userID tb of Inl _ \<Rightarrow> False | Inr rec \<Rightarrow> EnabledAt rec \<noteq> None)"

definition IsEnabledForUser :: "bool \<Rightarrow> string \<Rightarrow> mfa_table \<Rightarrow> mfa_error + bool" where
  "IsEnabledForUser ok userID tb = (case find_mfa ok userID tb of
     Inl MfaNotFound \<Rightarrow> Inr False | Inl e \<Rightarrow> Inl e | Inr rec \<Rightarrow> Inr (EnabledAt rec \<noteq> None))"

definition EnabledForUsers :: "bool \<Rightarrow> string list \<Rightarrow> mfa_table \<Rightarrow> mfa_error + string set" where
  "EnabledForUsers ok userIDs tb = (if userIDs = [] then Inr {} else if \<not> ok then Inl MfaDB
     else Inr (set (filter (\<lambda>u. case tb u of None \<Rightarrow> False | Some rec \<Rightarrow> EnabledAt rec \<noteq> None) userIDs)))"

definition SecretEnc :: "bool \<Rightarrow> string \<Rightarrow> mfa_table \<Rightarrow> mfa_error + string" where
  "SecretEnc ok userID tb = (case find_mfa ok userID tb of Inl e \<Rightarrow> Inl e
     | Inr rec \<Rightarrow> if SecretEncCol rec = '''' then Inl MfaNotFound else Inr (SecretEncCol rec))"

definition PendingSecretEnc :: "bool \<Rightarrow> string \<Rightarrow> mfa_table \<Rightarrow> mfa_error + string" where
  "PendingSecretEnc ok userID tb = (case find_mfa ok userID tb of Inl e \<Rightarrow> Inl e
     | Inr rec \<Rightarrow> (case PendingSecretEncCol rec of None \<Rightarrow> Inl MfaNotFound | Some e \<Rightarrow> Inr e))"

definition RecoveryCodes :: "bool \<Rightarrow> string \<Rightarrow> mfa_table \<Rightarrow> mfa_error + string list" where
  "RecoveryCodes ok userID tb = (case find_mfa ok userID tb of Inl e \<Rightarrow> Inl e | Inr rec \<Rightarrow> Inr (RecoveryCodesCol rec))"

section \<open>Service\<close>

text \<open>The service with its libraries: \<open>totp_Validate now code secret\<close>, \<open>bcrypt_Compare hash password\<close>.
  A nil Redis client is \<open>None\<close>.\<close>

record ('r, 'd) mfa_service =
  ms_encKey :: bytes
  ms_prevKeys :: "bytes list"
  ms_rdb :: "('r, 'd) redis option"
  ms_gcm :: aead
  totp_Validate :: "instant \<Rightarrow> string \<Rightarrow> string \<Rightarrow> bool"
  bcrypt_Compare :: "string \<Rightarrow> string \<Rightarrow> bool"

record 'r mfa_world =
  mfa_tb :: mfa_table
  mfa_rd :: 'r

text \<open>Which of the statements of one request PostgreSQL executes.\<close>

datatype mfa_call = CallIsEnabled | CallSecret | CallPending | CallUpsert | CallEnable | CallDelete
  | CallCodesRead | CallCodesWrite

abbreviation usedCodeTTL :: duration where "usedCodeTTL \<equiv> 90 * go_second"

definition usedKey :: "string \<Rightarrow> string \<Rightarrow> string" where
  "usedKey userID code = ''mfa:used:'' @ userID @ '':'' @ code"

definition markUsed :: "('r, 'd) mfa_service \<Rightarrow> instant \<Rightarrow> string \<Rightarrow> string \<Rightarrow> 'r \<Rightarrow> 'r \<times> (mfa_error + bool)" where
  "markUsed S now userID code s =
    (case ms_rdb S of
       None \<Rightarrow> (s, Inl MfaReplayUnavailable)
     | Some R \<Rightarrow> (case rSetNX R s now (usedKey userID code) (RStr ''1'') usedCodeTTL of
         (s', ROk b) \<Rightarrow> (s', Inr (\<not> b))
       | (s', _) \<Rightarrow> (s', Inl MfaReplayUnavailable)))"

definition decrypt_col :: "('r, 'd) mfa_service \<Rightarrow> mfa_error + string \<Rightarrow> mfa_error + string" where
  "decrypt_col S col = (case col of Inl e \<Rightarrow> Inl e
     | Inr encHex \<Rightarrow> (case decryptHex (ms_gcm S) (ms_encKey S) (ms_prevKeys S) encHex of
         None \<Rightarrow> Inl MfaCipher | Some s \<Rightarrow> Inr s))"

definition decryptSecret :: "('r, 'd) mfa_service \<Rightarrow> bool \<Rightarrow> string \<Rightarrow> mfa_table \<Rightarrow> mfa_error + string" where
  "decryptSecret S ok userID tb = decrypt_col S (SecretEnc ok userID tb)"

definition decryptPendingSecret :: "('r, 'd) mfa_service \<Rightarrow> bool \<Rightarrow> string \<Rightarrow> mfa_table \<Rightarrow> mfa_error + string" where
  "decryptPendingSecret S ok userID tb = decrypt_col S (PendingSecretEnc ok userID tb)"

text \<open>
  \<open>generateRecoveryCodes\<close>: eight codes \<open>xxxx-xxxx-xxxx\<close> from six random bytes each, with their bcrypt
  hashes. \<open>rnd i\<close> and \<open>hash i\<close> are the random source and the salted hash in round \<open>i\<close>.
\<close>

definition recovery_code :: "bytes \<Rightarrow> string" where
  "recovery_code b = hex_encode (take 2 b) @ ''-'' @ hex_encode (take 2 (drop 2 b)) @ ''-'' @
     hex_encode (take 2 (drop 4 b))"

fun gen_codes :: "(nat \<Rightarrow> bytes option) \<Rightarrow> (nat \<Rightarrow> string \<Rightarrow> string option) \<Rightarrow> nat list \<Rightarrow>
    (string list \<times> string list) option" where
  "gen_codes rnd hash [] = Some ([], [])"
| "gen_codes rnd hash (i # is) =
    (case rnd i of
       None \<Rightarrow> None
     | Some b \<Rightarrow>
       (case hash i (recovery_code b) of
          None \<Rightarrow> None
        | Some h \<Rightarrow> map_option (\<lambda>(raw, hs). (recovery_code b # raw, h # hs)) (gen_codes rnd hash is)))"

definition generateRecoveryCodes :: "(nat \<Rightarrow> bytes option) \<Rightarrow> (nat \<Rightarrow> string \<Rightarrow> string option) \<Rightarrow>
    (string list \<times> string list) option" where
  "generateRecoveryCodes rnd hash = gen_codes rnd hash [0..<8]"

text \<open>The random choices of one \<open>Setup\<close>: the TOTP key (URL and secret), the nonce, the codes.\<close>

record setup_random =
  sr_key :: "(string \<times> string) option"
  sr_nonce :: "nat \<Rightarrow> bytes option"
  sr_rnd :: "nat \<Rightarrow> bytes option"
  sr_hash :: "nat \<Rightarrow> string \<Rightarrow> string option"

definition check_current :: "('r, 'd) mfa_service \<Rightarrow> (mfa_call \<Rightarrow> bool) \<Rightarrow> instant \<Rightarrow> string \<Rightarrow> string \<Rightarrow>
    'r mfa_world \<Rightarrow> 'r mfa_world \<times> (mfa_error + unit)" where
  "check_current S db now userID code w =
    (case decryptSecret S (db CallSecret) userID (mfa_tb w) of
       Inl e \<Rightarrow> (w, Inl e)
     | Inr secret \<Rightarrow>
       if \<not> totp_Validate S now code secret then (w, Inl MfaInvalidCode)
       else (case markUsed S now userID code (mfa_rd w) of
           (s', Inl e) \<Rightarrow> (w\<lparr>mfa_rd := s'\<rparr>, Inl MfaReplayUnavailable)
         | (s', Inr used) \<Rightarrow> (w\<lparr>mfa_rd := s'\<rparr>, if used then Inl MfaCodeAlreadyUsed else Inr ())))"

definition store_pending :: "('r, 'd) mfa_service \<Rightarrow> setup_random \<Rightarrow> (mfa_call \<Rightarrow> bool) \<Rightarrow> string \<Rightarrow>
    'r mfa_world \<Rightarrow> 'r mfa_world \<times> (mfa_error + string \<times> string \<times> string list)" where
  "store_pending S rnd db userID w =
    (case sr_key rnd of
       None \<Rightarrow> (w, Inl MfaGenerate)
     | Some (url, secret) \<Rightarrow>
       (case Encrypt (ms_gcm S) (sr_nonce rnd) (ms_encKey S) (bytes_of secret) of
          None \<Rightarrow> (w, Inl MfaCipher)
        | Some enc \<Rightarrow>
          (case generateRecoveryCodes (sr_rnd rnd) (sr_hash rnd) of
             None \<Rightarrow> (w, Inl MfaGenerate)
           | Some (rawCodes, hashedCodes) \<Rightarrow>
             (case UpsertPending (db CallUpsert) userID (hex_encode enc) hashedCodes (mfa_tb w) of
                (tb', Inl e) \<Rightarrow> (w\<lparr>mfa_tb := tb'\<rparr>, Inl e)
              | (tb', Inr _) \<Rightarrow> (w\<lparr>mfa_tb := tb'\<rparr>, Inr (url, secret, rawCodes))))))"

definition Setup :: "('r, 'd) mfa_service \<Rightarrow> setup_random \<Rightarrow> (mfa_call \<Rightarrow> bool) \<Rightarrow> instant \<Rightarrow> string \<Rightarrow> string \<Rightarrow>
    'r mfa_world \<Rightarrow> 'r mfa_world \<times> (mfa_error + string \<times> string \<times> string list)" where
  "Setup S rnd db now userID currentCode w =
    (if IsEnabled (db CallIsEnabled) userID (mfa_tb w) then
       (if currentCode = '''' then (w, Inl MfaCurrentCodeRequired)
        else case check_current S db now userID currentCode w of
            (w', Inl e) \<Rightarrow> (w', Inl e)
          | (w', Inr _) \<Rightarrow> store_pending S rnd db userID w')
     else store_pending S rnd db userID w)"

definition VerifyAndEnable :: "('r, 'd) mfa_service \<Rightarrow> (mfa_call \<Rightarrow> bool) \<Rightarrow> instant \<Rightarrow> string \<Rightarrow> string \<Rightarrow>
    'r mfa_world \<Rightarrow> 'r mfa_world \<times> (mfa_error + unit)" where
  "VerifyAndEnable S db now userID code w =
    (case decryptPendingSecret S (db CallPending) userID (mfa_tb w) of
       Inl e \<Rightarrow> (w, Inl e)
     | Inr secret \<Rightarrow>
       if \<not> totp_Validate S now code secret then (w, Inl MfaInvalidCode)
       else (case Enable (db CallEnable) now userID (mfa_tb w) of (tb', r) \<Rightarrow> (w\<lparr>mfa_tb := tb'\<rparr>, r)))"

definition Disable :: "('r, 'd) mfa_service \<Rightarrow> (mfa_call \<Rightarrow> bool) \<Rightarrow> instant \<Rightarrow> string \<Rightarrow> string \<Rightarrow>
    'r mfa_world \<Rightarrow> 'r mfa_world \<times> (mfa_error + unit)" where
  "Disable S db now userID code w =
    (case check_current S db now userID code w of
       (w', Inl e) \<Rightarrow> (w', Inl e)
     | (w', Inr _) \<Rightarrow> (case Delete (db CallDelete) userID (mfa_tb w') of (tb', r) \<Rightarrow> (w'\<lparr>mfa_tb := tb'\<rparr>, r)))"

definition RegenerateRecoveryCodes :: "setup_random \<Rightarrow> (mfa_call \<Rightarrow> bool) \<Rightarrow> string \<Rightarrow>
    'r mfa_world \<Rightarrow> 'r mfa_world \<times> (mfa_error + string list)" where
  "RegenerateRecoveryCodes rnd db userID w =
    (if \<not> IsEnabled (db CallIsEnabled) userID (mfa_tb w) then (w, Inl MfaDisabled)
     else case generateRecoveryCodes (sr_rnd rnd) (sr_hash rnd) of
       None \<Rightarrow> (w, Inl MfaGenerate)
     | Some (rawCodes, hashedCodes) \<Rightarrow>
       (case UpdateRecoveryCodes (db CallUpsert) userID hashedCodes (mfa_tb w) of
          (tb', Inl e) \<Rightarrow> (w\<lparr>mfa_tb := tb'\<rparr>, Inl e)
        | (tb', Inr _) \<Rightarrow> (w\<lparr>mfa_tb := tb'\<rparr>, Inr rawCodes)))"

text \<open>The callback of \<open>validate\<close>: the index of the first hash that matches.\<close>

fun match_hash :: "(string \<Rightarrow> string \<Rightarrow> bool) \<Rightarrow> string \<Rightarrow> nat \<Rightarrow> string list \<Rightarrow> nat option" where
  "match_hash cmp code i [] = None"
| "match_hash cmp code i (h # hs) = (if cmp h code then Some i else match_hash cmp code (Suc i) hs)"

definition validate_recovery :: "('r, 'd) mfa_service \<Rightarrow> (mfa_call \<Rightarrow> bool) \<Rightarrow> string \<Rightarrow> string \<Rightarrow>
    'r mfa_world \<Rightarrow> 'r mfa_world \<times> bool" where
  "validate_recovery S db userID code w =
    (case ConsumeRecoveryCode (db CallCodesRead) (db CallCodesWrite) userID
        (match_hash (bcrypt_Compare S) code 0) (mfa_tb w) of
       (tb', r) \<Rightarrow> (w\<lparr>mfa_tb := tb'\<rparr>, r = Inr True))"

definition validate :: "('r, 'd) mfa_service \<Rightarrow> (mfa_call \<Rightarrow> bool) \<Rightarrow> instant \<Rightarrow> string \<Rightarrow> string \<Rightarrow> bool \<Rightarrow>
    'r mfa_world \<Rightarrow> 'r mfa_world \<times> bool" where
  "validate S db now userID rawCode failClosed w =
    (let code = ToLower (TrimSpace rawCode) in
     case decryptSecret S (db CallSecret) userID (mfa_tb w) of
       Inr secret \<Rightarrow>
         if totp_Validate S now code secret then
           (case markUsed S now userID code (mfa_rd w) of
              (s', Inl _) \<Rightarrow> (w\<lparr>mfa_rd := s'\<rparr>, \<not> failClosed)
            | (s', Inr used) \<Rightarrow> (w\<lparr>mfa_rd := s'\<rparr>, \<not> used))
         else validate_recovery S db userID code w
     | Inl _ \<Rightarrow> validate_recovery S db userID code w)"

definition Validate :: "('r, 'd) mfa_service \<Rightarrow> (mfa_call \<Rightarrow> bool) \<Rightarrow> instant \<Rightarrow> string \<Rightarrow> string \<Rightarrow>
    'r mfa_world \<Rightarrow> 'r mfa_world \<times> bool" where
  "Validate S db now userID code w = validate S db now userID code False w"

definition ValidateStepUp :: "('r, 'd) mfa_service \<Rightarrow> (mfa_call \<Rightarrow> bool) \<Rightarrow> instant \<Rightarrow> string \<Rightarrow> string \<Rightarrow>
    'r mfa_world \<Rightarrow> 'r mfa_world \<times> bool" where
  "ValidateStepUp S db now userID code w = validate S db now userID code True w"

section \<open>Facts\<close>

lemma usedKey_code_inj [key_simps]: "usedKey u a = usedKey u b \<longleftrightarrow> a = b"
  by (simp add: usedKey_def)

lemma find_mfa_ok [simp]: "find_mfa True u tb = (case tb u of None \<Rightarrow> Inl MfaNotFound | Some rec \<Rightarrow> Inr rec)"
  by (simp add: find_mfa_def)

lemma check_current_table: "check_current S db now u code w = (w', r) \<Longrightarrow> mfa_tb w' = mfa_tb w"
  by (auto simp: check_current_def split: sum.splits if_splits prod.splits)

lemma check_current_ok:
  "snd (check_current S db now u code w) = Inr () \<longleftrightarrow>
    (\<exists>secret. decryptSecret S (db CallSecret) u (mfa_tb w) = Inr secret \<and> totp_Validate S now code secret \<and>
       snd (markUsed S now u code (mfa_rd w)) = Inr False)"
  by (auto simp: check_current_def split: sum.splits if_splits prod.splits)

lemma store_pending_cases:
  assumes "store_pending S rnd db u w = (w', r)"
  shows "mfa_rd w' = mfa_rd w \<and> (mfa_tb w' = mfa_tb w \<and> \<not> is_ok r \<or>
    (\<exists>url secret raw enc hs. sr_key rnd = Some (url, secret) \<and> r = Inr (url, secret, raw) \<and>
      Encrypt (ms_gcm S) (sr_nonce rnd) (ms_encKey S) (bytes_of secret) = Some enc \<and>
      generateRecoveryCodes (sr_rnd rnd) (sr_hash rnd) = Some (raw, hs) \<and>
      mfa_tb w' = fst (UpsertPending True u (hex_encode enc) hs (mfa_tb w))))"
  using assms by (auto simp: store_pending_def UpsertPending_def split: option.splits prod.splits if_splits)

lemma Setup_cases:
  assumes "Setup S rnd db now u cc w = (w', r)"
  shows "(mfa_tb w' = mfa_tb w \<and> \<not> is_ok r) \<or> (\<exists>w1. mfa_tb w1 = mfa_tb w \<and> store_pending S rnd db u w1 = (w', r))"
  using assms
  by (auto simp: Setup_def split: if_splits sum.splits prod.splits dest: check_current_table)

text \<open>What an upsert of a pending secret leaves alone.\<close>

lemma UpsertPending_active:
  assumes "UpsertPending ok u enc hs tb = (tb', r)"
  shows "SecretEnc b v tb' = SecretEnc b v tb \<and> IsEnabled b v tb' = IsEnabled b v tb"
  using assms by (cases "v = u"; cases "tb u")
    (auto simp: UpsertPending_def SecretEnc_def IsEnabled_def find_mfa_def split: if_splits)

lemma Encrypt_nonempty:
  assumes "Encrypt G random k p = Some c" "\<And>b. random gcm_nonce_size = Some b \<Longrightarrow> length b = gcm_nonce_size"
  shows "hex_encode c \<noteq> []"
  using assms by (cases c) (auto simp: Encrypt_def hex_encode_def hex_of_byte_def split: if_splits option.splits)

lemma decryptHex_current:
  assumes "aead_laws (ms_gcm S)" "Encrypt (ms_gcm S) random (ms_encKey S) (bytes_of secret) = Some enc"
    and "\<And>b. random gcm_nonce_size = Some b \<Longrightarrow> length b = gcm_nonce_size"
  shows "decryptHex (ms_gcm S) (ms_encKey S) (ms_prevKeys S) (hex_encode enc) = Some (ToUpper secret)"
  using decryptHex_found [of "ms_encKey S" "ms_prevKeys S" "[]"] aead_laws.decrypt_encrypt [OF assms] by simp

lemma gen_codes_length: "gen_codes rnd hash is = Some (raw, hs) \<Longrightarrow> length raw = length is \<and> length hs = length is"
  by (induction "is" arbitrary: raw hs) (auto split: option.splits)

lemma generateRecoveryCodes_eight:
  "generateRecoveryCodes rnd hash = Some (raw, hs) \<Longrightarrow> length raw = 8 \<and> length hs = 8"
  using gen_codes_length [of rnd hash "[0..<8]"] by (simp add: generateRecoveryCodes_def)

lemma match_hash_Some:
  "match_hash cmp code i hs = Some n \<Longrightarrow>
    \<exists>as h bs. hs = as @ h # bs \<and> n = i + length as \<and> cmp h code \<and> (\<forall>x \<in> set as. \<not> cmp x code)"
proof (induction hs arbitrary: i)
  case (Cons a hs)
  show ?case
  proof (cases "cmp a code")
    case True
    then show ?thesis using Cons.prems by (intro exI [of _ "[]"] exI [of _ a] exI [of _ hs]) auto
  next
    case False
    with Cons.prems Cons.IH [of "Suc i"] obtain as h bs where
      "hs = as @ h # bs" "n = Suc i + length as" "cmp h code" "\<forall>x \<in> set as. \<not> cmp x code" by auto
    with False show ?thesis by (intro exI [of _ "a # as"] exI [of _ h] exI [of _ bs]) auto
  qed
qed simp

lemma match_hash_None: "match_hash cmp code i hs = None \<longleftrightarrow> (\<forall>h \<in> set hs. \<not> cmp h code)"
  by (induction hs arbitrary: i) auto

lemma validate_totp:
  assumes "decryptSecret S (db CallSecret) u (mfa_tb w) = Inr secret"
    and "totp_Validate S now (ToLower (TrimSpace code)) secret"
  shows "validate S db now u code fc w =
    (case markUsed S now u (ToLower (TrimSpace code)) (mfa_rd w) of
       (s', Inl _) \<Rightarrow> (w\<lparr>mfa_rd := s'\<rparr>, \<not> fc) | (s', Inr used) \<Rightarrow> (w\<lparr>mfa_rd := s'\<rparr>, \<not> used))"
  using assms by (simp add: validate_def Let_def)

lemma validate_recovery_accepts:
  assumes "validate_recovery S db u code w = (w', True)"
  shows "\<exists>rec as h bs. mfa_tb w u = Some rec \<and> RecoveryCodesCol rec = as @ h # bs \<and> bcrypt_Compare S h code \<and>
    (\<forall>x \<in> set as. \<not> bcrypt_Compare S x code) \<and> mfa_rd w' = mfa_rd w \<and>
    mfa_tb w' = (mfa_tb w)(u \<mapsto> rec\<lparr>RecoveryCodesCol := as @ bs\<rparr>)"
proof -
  from assms obtain rec n where rec: "mfa_tb w u = Some rec"
    and n: "match_hash (bcrypt_Compare S) code 0 (RecoveryCodesCol rec) = Some n"
    and w': "w' = w\<lparr>mfa_tb := (mfa_tb w)(u \<mapsto> rec\<lparr>RecoveryCodesCol :=
        take n (RecoveryCodesCol rec) @ drop (Suc n) (RecoveryCodesCol rec)\<rparr>)\<rparr>"
    by (auto simp: validate_recovery_def ConsumeRecoveryCode_def split: if_splits option.splits)
  from match_hash_Some [OF n] obtain as h bs where "RecoveryCodesCol rec = as @ h # bs" "n = length as"
    "bcrypt_Compare S h code" "\<forall>x \<in> set as. \<not> bcrypt_Compare S x code" by auto
  with rec w' show ?thesis
    by (intro exI [of _ rec] exI [of _ as] exI [of _ h] exI [of _ bs]) simp
qed

lemma validate_recovery_refuses:
  assumes "\<And>rec. mfa_tb w u = Some rec \<Longrightarrow> \<forall>h \<in> set (RecoveryCodesCol rec). \<not> bcrypt_Compare S h code"
  shows "\<not> snd (validate_recovery S db u code w)"
proof (cases "mfa_tb w u")
  case (Some rec)
  then have "match_hash (bcrypt_Compare S) code 0 (RecoveryCodesCol rec) = None"
    using assms by (simp add: match_hash_None)
  with Some show ?thesis by (simp add: validate_recovery_def ConsumeRecoveryCode_def)
qed (simp add: validate_recovery_def ConsumeRecoveryCode_def)

context redis_laws
begin

text \<open>A code marked as used stays used for the whole window, whatever happens to other keys.\<close>

lemma markUsed_twice:
  assumes S: "ms_rdb S = Some R" and first: "markUsed S t u code s = (s1, Inr False)"
    and later: "t \<le> t'" "t' < t + usedCodeTTL"
    and kept: "see s2 t' (usedKey u code) = see s1 t' (usedKey u code)"
  shows "snd (markUsed S t' u code s2) \<noteq> Inr False"
proof
  let ?k = "usedKey u code"
  assume "snd (markUsed S t' u code s2) = Inr False"
  with S obtain s3 where second: "rSetNX R s2 t' ?k (RStr ''1'') usedCodeTTL = (s3, ROk True)"
    by (auto simp: markUsed_def split: reply.splits prod.splits)
  from first S have "rSetNX R s t ?k (RStr ''1'') usedCodeTTL = (s1, ROk True)"
    by (auto simp: markUsed_def split: reply.splits prod.splits)
  from setnx_ok [OF this] have "see s1 t ?k = Some (RStr ''1'', Some (t + usedCodeTTL))" by simp
  with see_later [OF later(1), of s1 ?k] later(2) kept have "see s2 t' ?k \<noteq> None" by simp
  with setnx_ok [OF second] show False by simp
qed

end

section \<open>A service on an in-memory Redis\<close>

definition demo_mfa :: "(unit mem_redis, unit) mfa_service" where
  "demo_mfa = \<lparr>ms_encKey = demo_key 1, ms_prevKeys = [], ms_rdb = Some mem_server, ms_gcm = tagged_aead,
     totp_Validate = (\<lambda>t c s. TrimSpace c = ''123456'' \<and> s = ''AB''), bcrypt_Compare = (\<lambda>h p. h = p)\<rparr>"

definition demo_mfa_row :: mfa_record where
  "demo_mfa_row = \<lparr>SecretEncCol = hex_encode (demo_nonce @ Seal tagged_aead (demo_key 1) demo_nonce (bytes_of ''AB'')),
     PendingSecretEncCol = None, EnabledAt = Some 0, RecoveryCodesCol = [''aaaa'', ''bbbb''], PendingRecoveryCodesCol = []\<rparr>"

definition demo_mfa_world :: "unit mem_redis mfa_world" where
  "demo_mfa_world = \<lparr>mfa_tb = [''u'' \<mapsto> demo_mfa_row], mfa_rd = \<lparr>mem_kv = (\<lambda>_. None), mem_up = True\<rparr>\<rparr>"

abbreviation demo_random :: setup_random where
  "demo_random \<equiv> \<lparr>sr_key = Some (''url'', ''AB''), sr_nonce = (\<lambda>n. Some (replicate n 7)),
     sr_rnd = (\<lambda>i. Some (replicate 6 0)), sr_hash = (\<lambda>i c. Some c)\<rparr>"

lemma demo_upper: "ToUpper ''AB'' = ''AB''" by code_simp

lemma demo_encrypt: "Encrypt tagged_aead (\<lambda>n. Some (replicate n 7)) (demo_key 1) (bytes_of ''AB'') =
    Some (demo_nonce @ Seal tagged_aead (demo_key 1) demo_nonce (bytes_of ''AB''))"
  by (simp add: Encrypt_def NewCipher_ok_def)

lemma demo_secret: "decryptSecret demo_mfa True ''u'' [''u'' \<mapsto> demo_mfa_row] = Inr ''AB''"
proof -
  have "decryptHex (ms_gcm demo_mfa) (ms_encKey demo_mfa) (ms_prevKeys demo_mfa) (SecretEncCol demo_mfa_row) =
      Some (ToUpper ''AB'')"
    unfolding demo_mfa_row_def mfa_record.simps
    by (rule decryptHex_current [where random = "\<lambda>n. Some (replicate n 7)"])
      (simp_all add: demo_mfa_def tagged.aead_laws_axioms demo_encrypt)
  moreover have "SecretEncCol demo_mfa_row \<noteq> ''''"
    using Encrypt_nonempty [OF demo_encrypt] by (simp add: demo_mfa_row_def)
  ultimately show ?thesis
    by (simp add: decryptSecret_def decrypt_col_def SecretEnc_def demo_upper)
qed

lemma demo_mark: "markUsed demo_mfa 0 ''u'' c (mfa_rd demo_mfa_world) =
    (mem_put (mfa_rd demo_mfa_world) (usedKey ''u'' c) (Some (RStr ''1'', Some (90 * go_second))), Inr False)"
  by (simp add: markUsed_def demo_mfa_def demo_mfa_world_def mem_defs mem_see_def)

section \<open>Properties\<close>

text \<open>C9: a TOTP code steps up at most once. Once \<open>ValidateStepUp\<close> has accepted a TOTP code, the same code
  (up to surrounding space and letter case) is refused for the next 90 seconds by every later
  \<open>ValidateStepUp\<close>, in any Redis state that still holds the marker, and also when Redis fails.\<close>

theorem stepup_code_single_use:
  assumes "redis_laws R see" "ms_rdb S = Some R"
    and "ValidateStepUp S db t u code w = (w1, True)"
    and "decryptSecret S (db CallSecret) u (mfa_tb w) = Inr sec" "totp_Validate S t (ToLower (TrimSpace code)) sec"
    and "decryptSecret S (db' CallSecret) u (mfa_tb w2) = Inr sec'" "totp_Validate S t' (ToLower (TrimSpace code')) sec'"
    and "ToLower (TrimSpace code') = ToLower (TrimSpace code)" "t \<le> t'" "t' < t + usedCodeTTL"
    and "see (mfa_rd w2) t' (usedKey u (ToLower (TrimSpace code))) = see (mfa_rd w1) t' (usedKey u (ToLower (TrimSpace code)))"
  shows "\<not> snd (ValidateStepUp S db' t' u code' w2)"
proof -
  let ?c = "ToLower (TrimSpace code)"
  from assms(3) have first: "markUsed S t u ?c (mfa_rd w) = (mfa_rd w1, Inr False)"
    unfolding ValidateStepUp_def validate_totp [of S db u w, OF assms(4,5)]
    by (auto split: prod.splits sum.splits)
  have "snd (markUsed S t' u ?c (mfa_rd w2)) \<noteq> Inr False"
    by (rule redis_laws.markUsed_twice [OF assms(1,2) first assms(9,10,11)])
  then show ?thesis
    unfolding ValidateStepUp_def validate_totp [of S db' u w2, OF assms(6,7)] assms(8)
    by (auto split: prod.splits sum.splits)
qed

lemma demo_code: "ToLower ''123456'' = ''123456''" "ToLower (TrimSpace ''123456'') = ''123456''" "TrimSpace ''123456'' = ''123456''"
  "ToLower (TrimSpace '' 123456'') = ''123456''" "TrimSpace '' 123456'' = ''123456''"
  by code_simp+

lemma demo_mfa_simps [simp]: "mfa_tb demo_mfa_world = [''u'' \<mapsto> demo_mfa_row]" "ms_rdb demo_mfa = Some mem_server"
  "totp_Validate demo_mfa t c s = (TrimSpace c = ''123456'' \<and> s = ''AB'')"
  by (simp_all add: demo_mfa_def demo_mfa_world_def)

abbreviation demo_used_world :: "unit mem_redis mfa_world" where
  "demo_used_world \<equiv> demo_mfa_world\<lparr>mfa_rd := mem_put (mfa_rd demo_mfa_world) (usedKey ''u'' ''123456'')
     (Some (RStr ''1'', Some (90 * go_second)))\<rparr>"

lemma demo_accept: "validate demo_mfa (\<lambda>_. True) 0 ''u'' ''123456'' fc demo_mfa_world = (demo_used_world, True)"
proof -
  have "decryptSecret demo_mfa ((\<lambda>_. True) CallSecret) ''u'' (mfa_tb demo_mfa_world) = Inr ''AB''"
    by (simp add: demo_secret)
  moreover have "totp_Validate demo_mfa 0 (ToLower (TrimSpace ''123456'')) ''AB''"
    by (simp add: demo_code)
  ultimately show ?thesis
    by (simp add: validate_totp [where db = "\<lambda>_. True"] demo_code demo_mark)
qed

theorem stepup_code_single_use_witness:
  "\<not> snd (ValidateStepUp demo_mfa (\<lambda>_. True) (60 * go_second) ''u'' '' 123456'' demo_used_world)"
  by (rule stepup_code_single_use [OF mem.redis_laws_axioms, where S = demo_mfa and db = "\<lambda>_. True" and t = 0
        and code = "''123456''" and w = demo_mfa_world and ?w1.0 = demo_used_world and sec = "''AB''" and sec' = "''AB''"])
    (simp_all add: ValidateStepUp_def demo_accept demo_secret demo_code)

text \<open>a recovery code is consumed once. When \<open>validate\<close> accepts a code by the recovery list, exactly the
  first stored hash matching the code is removed, the rest of the row and all other rows are unchanged,
  and if that was the only hash the code matches, the code is refused from then on.\<close>

lemma recovery_code_single_use:
  assumes "validate_recovery S db u code w = (w', True)"
  shows "\<exists>rec as h bs. mfa_tb w u = Some rec \<and> RecoveryCodesCol rec = as @ h # bs \<and> bcrypt_Compare S h code \<and>
    mfa_tb w' = (mfa_tb w)(u \<mapsto> rec\<lparr>RecoveryCodesCol := as @ bs\<rparr>) \<and>
    ((\<forall>x \<in> set (as @ bs). \<not> bcrypt_Compare S x code) \<longrightarrow> \<not> snd (validate_recovery S db' u code w'))"
proof -
  obtain rec as h bs where *: "mfa_tb w u = Some rec" "RecoveryCodesCol rec = as @ h # bs" "bcrypt_Compare S h code"
    "mfa_tb w' = (mfa_tb w)(u \<mapsto> rec\<lparr>RecoveryCodesCol := as @ bs\<rparr>)"
    using validate_recovery_accepts [OF assms] by blast
  have "\<not> snd (validate_recovery S db' u code w')" if "\<forall>x \<in> set (as @ bs). \<not> bcrypt_Compare S x code"
    by (rule validate_recovery_refuses) (use *(4) that in auto)
  with * show ?thesis by blast
qed

text \<open>C10: enrolment is two-phase. Whatever \<open>Setup\<close> returns, no user's active secret or enabled flag changes.
  When it returns a secret, a code that is valid for that secret makes \<open>VerifyAndEnable\<close> succeed (the
  database permitting): MFA is then enabled, the active secret decrypts to the one \<open>Setup\<close> returned,
  and the eight new recovery-code hashes replace the old ones.\<close>

theorem setup_verify_roundtrip:
  assumes "aead_laws (ms_gcm S)" "Setup S rnd db t u cc w = (w1, r)"
    and "\<And>b. sr_nonce rnd gcm_nonce_size = Some b \<Longrightarrow> length b = gcm_nonce_size"
  shows "decryptSecret S b v (mfa_tb w1) = decryptSecret S b v (mfa_tb w) \<and>
    IsEnabled b v (mfa_tb w1) = IsEnabled b v (mfa_tb w) \<and>
    (\<forall>url secret raw. r = Inr (url, secret, raw) \<longrightarrow> totp_Validate S t' code (ToUpper secret) \<longrightarrow>
      (\<exists>w2 hs. VerifyAndEnable S (\<lambda>_. True) t' u code w1 = (w2, Inr ()) \<and> IsEnabled True u (mfa_tb w2) \<and>
        decryptSecret S True u (mfa_tb w2) = Inr (ToUpper secret) \<and>
        RecoveryCodes True u (mfa_tb w2) = Inr hs \<and> length hs = 8 \<and> length raw = 8))"
proof -
  consider (same) "mfa_tb w1 = mfa_tb w" "\<not> is_ok r"
    | (stored) url secret raw enc hs where "r = Inr (url, secret, raw)"
      "Encrypt (ms_gcm S) (sr_nonce rnd) (ms_encKey S) (bytes_of secret) = Some enc"
      "generateRecoveryCodes (sr_rnd rnd) (sr_hash rnd) = Some (raw, hs)"
      "mfa_tb w1 = fst (UpsertPending True u (hex_encode enc) hs (mfa_tb w))"
    using Setup_cases [OF assms(2)] store_pending_cases by metis
  then show ?thesis
  proof cases
    case same
    then show ?thesis by auto
  next
    case stored
    note dec = decryptHex_current [OF assms(1) stored(2) assms(3)]
    have "mfa_tb w1 u \<noteq> None \<and> PendingSecretEncCol (the (mfa_tb w1 u)) = Some (hex_encode enc) \<and>
        PendingRecoveryCodesCol (the (mfa_tb w1 u)) = hs"
      using stored(4) by (auto simp: UpsertPending_def split: option.splits)
    then obtain rec where rec: "mfa_tb w1 u = Some rec" "PendingSecretEncCol rec = Some (hex_encode enc)"
      "PendingRecoveryCodesCol rec = hs" by auto
    have "decryptSecret S b v (mfa_tb w1) = decryptSecret S b v (mfa_tb w) \<and> IsEnabled b v (mfa_tb w1) = IsEnabled b v (mfa_tb w)"
      using UpsertPending_active [of True u "hex_encode enc" hs "mfa_tb w" "mfa_tb w1" "Inr ()" b v] stored(4)
      by (simp add: decryptSecret_def UpsertPending_def)
    with stored(1) rec generateRecoveryCodes_eight [OF stored(3)] dec Encrypt_nonempty [OF stored(2) assms(3)]
    show ?thesis
      by (auto simp: VerifyAndEnable_def decryptPendingSecret_def decryptSecret_def decrypt_col_def PendingSecretEnc_def
          SecretEnc_def Enable_def IsEnabled_def RecoveryCodes_def)
  qed
qed

theorem setup_verify_roundtrip_witness:
  "\<exists>w1 raw. Setup demo_mfa demo_random (\<lambda>_. True) 0 ''v'' '''' demo_mfa_world = (w1, Inr (''url'', ''AB'', raw)) \<and>
    (\<exists>w2. VerifyAndEnable demo_mfa (\<lambda>_. True) 0 ''v'' ''123456'' w1 = (w2, Inr ()) \<and> IsEnabled True ''v'' (mfa_tb w2))"
proof -
  obtain raw hs where codes: "generateRecoveryCodes (sr_rnd demo_random) (sr_hash demo_random) = Some (raw, hs)"
    by (simp add: generateRecoveryCodes_def upt_rec)
  define w1 where "w1 = demo_mfa_world\<lparr>mfa_tb := fst (UpsertPending True ''v''
    (hex_encode (demo_nonce @ Seal tagged_aead (demo_key 1) demo_nonce (bytes_of ''AB''))) hs (mfa_tb demo_mfa_world))\<rparr>"
  have lib: "ms_gcm demo_mfa = tagged_aead" "ms_encKey demo_mfa = demo_key 1" by (simp_all add: demo_mfa_def)
  have not_enabled: "\<not> IsEnabled True ''v'' (mfa_tb demo_mfa_world)"
    by (simp add: IsEnabled_def)
  have run: "Setup demo_mfa demo_random (\<lambda>_. True) 0 ''v'' '''' demo_mfa_world = (w1, Inr (''url'', ''AB'', raw))"
    using codes demo_encrypt not_enabled
    by (simp add: Setup_def store_pending_def lib w1_def UpsertPending_def)
  from setup_verify_roundtrip [OF _ run, where t' = 0 and code = "''123456''"] show ?thesis
    by (simp add: run lib tagged.aead_laws_axioms demo_upper demo_code) blast
qed

text \<open>high-risk operations fail closed. If the replay check cannot be performed (Redis down or not
  configured), neither \<open>Disable\<close> nor a \<open>Setup\<close> for a user with MFA enabled succeeds or changes the table,
  and \<open>ValidateStepUp\<close> rejects every TOTP code.\<close>

lemma replay_outage_fails_closed:
  assumes "\<And>c. \<not> is_ok (snd (markUsed S t u c (mfa_rd w)))"
  shows "\<not> is_ok (snd (Disable S db t u code w)) \<and> mfa_tb (fst (Disable S db t u code w)) = mfa_tb w \<and>
    (IsEnabled (db CallIsEnabled) u (mfa_tb w) \<longrightarrow>
      \<not> is_ok (snd (Setup S rnd db t u code w)) \<and> mfa_tb (fst (Setup S rnd db t u code w)) = mfa_tb w) \<and>
    (\<forall>sec. decryptSecret S (db CallSecret) u (mfa_tb w) = Inr sec \<longrightarrow>
      totp_Validate S t (ToLower (TrimSpace code)) sec \<longrightarrow> \<not> snd (ValidateStepUp S db t u code w))"
proof -
  have current: "\<not> is_ok (snd (check_current S db t u code w))"
    using assms [of code] by (auto simp: check_current_ok is_ok_iff)
  obtain w1 e where cc: "check_current S db t u code w = (w1, Inl e)" "mfa_tb w1 = mfa_tb w"
    using current check_current_table by (metis is_ok_iff prod.collapse sum.exhaust)
  have "\<not> snd (ValidateStepUp S db t u code w)"
    if "decryptSecret S (db CallSecret) u (mfa_tb w) = Inr sec" "totp_Validate S t (ToLower (TrimSpace code)) sec" for sec
    using assms [of "ToLower (TrimSpace code)"] validate_totp [of S db u w, OF that, of True]
    by (auto simp: ValidateStepUp_def split: prod.splits sum.splits)
  with cc show ?thesis by (simp add: Disable_def Setup_def)
qed

text \<open>C16: the replay protection of \<open>Disable\<close> and \<open>Setup\<close> sees the raw code, \<open>validate\<close> the trimmed one. With a TOTP
  library that ignores surrounding space (as pquerna/otp does), a code that \<open>Validate\<close> has just consumed
  disables MFA when it is sent again with a space in front.\<close>

theorem consumed_code_disables_with_space:
  assumes "redis_laws R see" "ms_rdb S = Some R" "\<And>c s. totp_Validate S t c s = totp_Validate S t (TrimSpace c) s"
    and "decryptSecret S True u (mfa_tb w) = Inr sec" "totp_Validate S t code sec" "ToLower (TrimSpace code) = code"
    and "Validate S (\<lambda>_. True) t u code w = (w1, True)"
    and "see (mfa_rd w1) t (usedKey u ('' '' @ code)) = None"
    and "rSetNX R (mfa_rd w1) t (usedKey u ('' '' @ code)) (RStr ''1'') usedCodeTTL = (s', ROk b)"
  shows "snd (Disable S (\<lambda>_. True) t u ('' '' @ code) w1) = Inr () \<and>
    mfa_tb (fst (Disable S (\<lambda>_. True) t u ('' '' @ code) w1)) u = None"
proof -
  have "b" using redis_laws.setnx_ok [OF assms(1,9)] assms(8) by simp
  then have mark: "markUsed S t u ('' '' @ code) (mfa_rd w1) = (s', Inr False)"
    using assms(2,9) by (simp add: markUsed_def)
  have tb: "mfa_tb w1 = mfa_tb w"
    using assms(7) unfolding Validate_def
    by (subst (asm) validate_totp [of S _ u w sec]) (use assms(4-6) in \<open>auto split: prod.splits sum.splits\<close>)
  have "TrimSpace ('' '' @ code) = TrimSpace code"
    by (simp add: TrimSpace_def is_space_def)
  then have "totp_Validate S t ('' '' @ code) sec"
    using assms(3,5) by metis
  then have "check_current S (\<lambda>_. True) t u ('' '' @ code) w1 = (w1\<lparr>mfa_rd := s'\<rparr>, Inr ())"
    using mark assms(4) by (simp add: check_current_def tb)
  then show ?thesis by (simp add: Disable_def Delete_def)
qed

theorem consumed_code_disables_with_space_witness:
  "snd (Validate demo_mfa (\<lambda>_. True) 0 ''u'' ''123456'' demo_mfa_world) \<and>
   snd (Disable demo_mfa (\<lambda>_. True) 0 ''u'' ''123456'' demo_used_world) = Inl MfaCodeAlreadyUsed \<and>
   snd (Disable demo_mfa (\<lambda>_. True) 0 ''u'' ('' '' @ ''123456'') demo_used_world) = Inr ()"
proof (intro conjI)
  have rd: "mfa_rd demo_mfa_world = \<lparr>mem_kv = (\<lambda>_. None), mem_up = True\<rparr>" by (simp add: demo_mfa_world_def)
  show "snd (Validate demo_mfa (\<lambda>_. True) 0 ''u'' ''123456'' demo_mfa_world)"
    by (simp add: Validate_def demo_accept)
  show "snd (Disable demo_mfa (\<lambda>_. True) 0 ''u'' ''123456'' demo_used_world) = Inl MfaCodeAlreadyUsed"
    by (simp add: Disable_def check_current_def demo_secret demo_code markUsed_def mem_defs rd)
      (simp add: mem_put_def)
  have set: "rSetNX mem_server (mfa_rd demo_used_world) 0 (usedKey ''u'' ('' '' @ ''123456'')) (RStr ''1'') usedCodeTTL =
      (mem_put (mfa_rd demo_used_world) (usedKey ''u'' ('' '' @ ''123456'')) (Some (RStr ''1'', Some (90 * go_second))), ROk True)"
    by (simp add: mem_defs rd key_simps) (simp add: mem_see_def mem_put_def)
  have free: "mem_see (mfa_rd demo_used_world) 0 (usedKey ''u'' ('' '' @ ''123456'')) = None"
    by (simp add: rd key_simps) (simp add: mem_see_def)
  have valid: "Validate demo_mfa (\<lambda>_. True) 0 ''u'' ''123456'' demo_mfa_world = (demo_used_world, True)"
    by (simp add: Validate_def demo_accept)
  show "snd (Disable demo_mfa (\<lambda>_. True) 0 ''u'' ('' '' @ ''123456'') demo_used_world) = Inr ()"
    by (rule consumed_code_disables_with_space [OF mem.redis_laws_axioms _ _ _ _ _ valid free set, THEN conjunct1, of "''AB''"])
      (simp_all add: TrimSpace_idem demo_code demo_secret)
qed

end
