(* ===== verification/Go_Utf8.thy ===== *)
theory Go_Utf8
  imports ZT_Prelude
begin

text \<open>
  Go's conversion of a string to runes and back. A string is a list of bytes; \<open>runes\<close> cuts it into the UTF-8
  encodings of its code points with the acceptance ranges of package \<open>unicode/utf8\<close>, a byte that starts no valid
  encoding being the replacement character U+FFFD.
\<close>

definition byte_of :: "char \<Rightarrow> nat" where
  "byte_of c = of_char c"

definition cont_byte :: "nat \<Rightarrow> nat \<Rightarrow> char \<Rightarrow> bool" where
  "cont_byte lo hi c \<longleftrightarrow> lo \<le> byte_of c \<and> byte_of c \<le> hi"

definition replacement :: string where
  "replacement = map char_of [0xEF, 0xBF, 0xBD :: nat]"

text \<open>The number of bytes after the first one, and the range of the second one; \<open>None\<close> for a byte that starts nothing.\<close>

definition lead :: "char \<Rightarrow> (nat \<times> nat \<times> nat) option" where
  "lead c = (let b = byte_of c in
     if b < 0x80 then Some (0, 0, 0)
     else if b < 0xC2 then None
     else if b < 0xE0 then Some (1, 0x80, 0xBF)
     else if b = 0xE0 then Some (2, 0xA0, 0xBF)
     else if b = 0xED then Some (2, 0x80, 0x9F)
     else if b < 0xF0 then Some (2, 0x80, 0xBF)
     else if b = 0xF0 then Some (3, 0x90, 0xBF)
     else if b < 0xF4 then Some (3, 0x80, 0xBF)
     else if b = 0xF4 then Some (3, 0x80, 0x8F)
     else None)"

text \<open>\<open>utf8.DecodeRuneInString\<close>: the width of the first rune and whether it is valid.\<close>

definition rune_width :: "string \<Rightarrow> nat \<times> bool" where
  "rune_width s = (case s of [] \<Rightarrow> (0, False)
     | c # cs \<Rightarrow> (case lead c of None \<Rightarrow> (1, False)
         | Some (n, lo, hi) \<Rightarrow>
             if n \<le> length cs \<and> (n = 0 \<or> cont_byte lo hi (cs ! 0)) \<and> list_all (cont_byte 0x80 0xBF) (take (n - 1) (tl cs))
             then (Suc n, True) else (1, False)))"

lemma rune_width_pos: "s \<noteq> [] \<Longrightarrow> 0 < fst (rune_width s)"
  by (cases s) (auto simp: rune_width_def split: option.splits)

function runes :: "string \<Rightarrow> string list" where
  "runes s = (if s = [] then []
     else (let (n, valid) = rune_width s in (if valid then take n s else replacement) # runes (drop n s)))"
  by auto

termination runes
proof (relation "measure length")
  fix s :: string and x n valid
  assume s: "s \<noteq> []" and x: "x = rune_width s" "(n, valid) = x"
  then have "0 < n" using rune_width_pos [OF s] by (metis fst_conv)
  with s show "(drop n s, s) \<in> measure length" by simp
qed simp

declare runes.simps [simp del]

lemma runes_Nil [simp]: "runes [] = []"
  by (simp add: runes.simps)

text \<open>A string is valid when every rune of it is; ASCII text is.\<close>

definition valid_utf8 :: "string \<Rightarrow> bool" where
  "valid_utf8 s \<longleftrightarrow> concat (runes s) = s"

lemma runes_ascii:
  assumes "list_all (\<lambda>c. byte_of c < 128) s"
  shows "runes s = map (\<lambda>c. [c]) s"
  using assms
proof (induction s)
  case (Cons c s)
  then have "rune_width (c # s) = (1, True)" by (simp add: rune_width_def lead_def Let_def)
  with Cons show ?case by (simp add: runes.simps [of "c # s"])
qed simp

text \<open>\<open>string([]rune(s)[:n])\<close>.\<close>

definition first_runes :: "nat \<Rightarrow> string \<Rightarrow> string" where
  "first_runes n s = concat (take n (runes s))"

lemma runes_step: "s \<noteq> [] \<Longrightarrow> rune_width s = (n, True) \<Longrightarrow> runes s = take n s # runes (drop n s)"
  by (simp add: runes.simps [of s])

text \<open>The width of a valid first rune depends on its own bytes only, so cutting after a rune cuts no rune.\<close>

lemma rune_width_take:
  assumes "rune_width s = (n, True)"
  shows "rune_width (take n s @ t) = (n, True)"
proof -
  obtain c cs where s: "s = c # cs" using assms by (cases s) (auto simp: rune_width_def)
  with assms obtain k lo hi where l: "lead c = Some (k, lo, hi)"
    by (auto simp: rune_width_def split: option.splits)
  with assms s have *: "n = Suc k" "k \<le> length cs" "k = 0 \<or> cont_byte lo hi (cs ! 0)"
    "list_all (cont_byte 0x80 0xBF) (take (k - 1) (tl cs))" by (auto simp: rune_width_def split: if_splits)
  moreover have "take (k - 1) (tl (take k cs @ t)) = take (k - 1) (tl cs)"
    using *(2) by (cases cs; cases k) auto
  moreover have "k = 0 \<or> (take k cs @ t) ! 0 = cs ! 0" using *(2) by (cases k) (auto simp: nth_append)
  ultimately show ?thesis using l s by (auto simp: rune_width_def)
qed

lemma replacement_width: "rune_width (replacement @ t) = (3, True)"
proof -
  have "map byte_of replacement = [0xEF, 0xBF, 0xBD]" by (simp add: replacement_def byte_of_def)
  then show ?thesis
    by (auto simp: rune_width_def replacement_def lead_def cont_byte_def Let_def map_eq_Cons_conv)
qed

text \<open>Truncating to \<open>n\<close> runes leaves exactly those runes.\<close>

lemma runes_first: "runes (first_runes n s) = take n (runes s)"
  unfolding first_runes_def
proof (induction s arbitrary: n rule: runes.induct)
  case (1 s)
  show ?case
  proof (cases "s = [] \<or> n = 0")
    case False
    then obtain m where n: "n = Suc m" and s: "s \<noteq> []" by (cases n) auto
    obtain k valid where w: "rune_width s = (k, valid)" by fastforce
    note IH = "1.IH" [OF s w [symmetric] refl, of m]
    define h where "h = (if valid then take k s else replacement)"
    have step: "runes s = h # runes (drop k s)" using s w by (simp add: runes.simps [of s] h_def)
    have "rune_width (h @ t) = (length h, True)" for t
      using rune_width_take [of s k t] w replacement_width
      by (auto simp: h_def replacement_def rune_width_def split: list.splits option.splits if_splits)
    moreover have "h \<noteq> []" using rune_width_pos [OF s] w s by (auto simp: h_def replacement_def)
    ultimately have "runes (h @ t) = h # runes t" for t by (simp add: runes_step)
    with IH show ?thesis by (simp add: step n)
  qed auto
qed


end
