(* ===== verification/User_Repo.thy ===== *)
theory User_Repo
  imports Session_Repo "HOL-Library.Char_ord" "HOL-Library.List_Lexorder" Go_Utf8
begin

text \<open>
  \<open>internal/user\<close>: the tables \<open>users\<close>, \<open>roles\<close>, \<open>user_roles\<close> and \<open>role_permissions\<close>, the statements of the
  repository and the service on top of it. A role is identified by its name (\<open>roles.name\<close> is unique).
  Text is ordered bytewise. The optional secrets client that encrypts personal fields is a parameter.
  As in the session repository, \<open>ok\<close> says whether PostgreSQL executes the operation; a transaction that
  fails is rolled back.
\<close>

section \<open>State\<close>

record user_row =
  us_id :: string
  us_email :: string
  us_email_hash :: string
  us_first :: string
  us_last :: string
  us_avatar_key :: string
  us_avatar_size :: int
  us_password :: string
  us_locale :: string
  us_notify :: bool
  us_active :: bool
  us_created :: instant
  us_updated :: instant

record user_db =
  users :: "user_row list"
  roles :: "string list"
  user_roles :: "(string \<times> string) list"
  role_perms :: "(string \<times> string \<times> string) list"

text \<open>\<open>model.User\<close>.\<close>

record user =
  u_ID :: string
  u_Email :: string
  u_FirstName :: string
  u_LastName :: string
  u_HasAvatar :: bool
  u_PasswordHash :: string
  u_Locale :: string
  u_NotifySecurityEmails :: bool
  u_IsActive :: bool
  u_CreatedAt :: instant
  u_UpdatedAt :: instant
  u_Roles :: "string list"

datatype user_error = UserNotFound | EmailTaken | UnknownRole string | LastAdmin | UserDB | UserCrypt | InvalidProfile | HashError

text \<open>The secrets client: \<open>EncryptData\<close>, \<open>DecryptData\<close>; \<open>None\<close> inside is its error.\<close>

record encrypter =
  EncryptData :: "string \<Rightarrow> string option"
  DecryptData :: "string \<Rightarrow> string option"

definition encrypt :: "encrypter option \<Rightarrow> string \<Rightarrow> string option" where
  "encrypt c val = (case c of None \<Rightarrow> Some val | Some e \<Rightarrow> if val = '''' then Some val else EncryptData e val)"

definition decrypt :: "encrypter option \<Rightarrow> string \<Rightarrow> string option" where
  "decrypt c val = (case c of None \<Rightarrow> Some val | Some e \<Rightarrow> if val = '''' then Some val else DecryptData e val)"

definition decryptUser :: "encrypter option \<Rightarrow> user \<Rightarrow> user option" where
  "decryptUser c u =
    (case decrypt c (u_Email u) of None \<Rightarrow> None | Some email \<Rightarrow>
     (case decrypt c (u_FirstName u) of None \<Rightarrow> None | Some fn \<Rightarrow>
      (case decrypt c (u_LastName u) of None \<Rightarrow> None | Some ln \<Rightarrow>
        Some (u\<lparr>u_Email := email, u_FirstName := fn, u_LastName := ln\<rparr>))))"

definition sha256Hex :: "(string \<Rightarrow> bytes) \<Rightarrow> string \<Rightarrow> string" where
  "sha256Hex sha s = hex_encode (sha (ToLower (TrimSpace s)))"

definition adminRoleName :: string where "adminRoleName = ''admin''"

text \<open>The \<open>RETURNING\<close> and \<open>SELECT\<close> lists scan a row into a \<open>User\<close> without roles.\<close>

definition scan_user :: "user_row \<Rightarrow> user" where
  "scan_user r = \<lparr>u_ID = us_id r, u_Email = us_email r, u_FirstName = us_first r, u_LastName = us_last r,
     u_HasAvatar = (us_avatar_key r \<noteq> ''''), u_PasswordHash = us_password r, u_Locale = us_locale r,
     u_NotifySecurityEmails = us_notify r, u_IsActive = us_active r, u_CreatedAt = us_created r,
     u_UpdatedAt = us_updated r, u_Roles = []\<rparr>"

definition getRoles :: "string \<Rightarrow> user_db \<Rightarrow> string list" where
  "getRoles userID db = sort (filter (\<lambda>ro. (userID, ro) \<in> set (user_roles db)) (roles db))"

text \<open>Scan, roles, decryption: the common tail of the lookups.\<close>

definition load_user :: "encrypter option \<Rightarrow> user_row \<Rightarrow> user_db \<Rightarrow> user_error + user" where
  "load_user c r db = (case decryptUser c ((scan_user r)\<lparr>u_Roles := getRoles (us_id r) db\<rparr>) of
     None \<Rightarrow> Inl UserCrypt | Some u \<Rightarrow> Inr u)"

section \<open>Repository\<close>

text \<open>The defaults of the columns the \<open>INSERT\<close> leaves out; the primary key and the unique columns
  \<open>email\<close> and \<open>email_hash\<close> reject duplicates.\<close>

definition new_row :: "string \<Rightarrow> instant \<Rightarrow> string \<Rightarrow> string \<Rightarrow> string \<Rightarrow> string \<Rightarrow> user_row" where
  "new_row newid now encEmail emailHash passwordHash loc = \<lparr>us_id = newid, us_email = encEmail,
     us_email_hash = emailHash, us_first = '''', us_last = '''', us_avatar_key = '''', us_avatar_size = 0,
     us_password = passwordHash, us_locale = loc, us_notify = True, us_active = True, us_created = now, us_updated = now\<rparr>"

definition insert_user :: "user_row \<Rightarrow> user_db \<Rightarrow> user_db option" where
  "insert_user r db = (if us_email_hash r \<in> us_email_hash ` set (users db) \<or> us_email r \<in> us_email ` set (users db) \<or>
       us_id r \<in> us_id ` set (users db) then None
     else Some (db\<lparr>users := users db @ [r]\<rparr>))"

definition user_Create :: "encrypter option \<Rightarrow> (string \<Rightarrow> bytes) \<Rightarrow> bool \<Rightarrow> string \<Rightarrow> instant \<Rightarrow> string \<Rightarrow> string \<Rightarrow> string \<Rightarrow>
    user_db \<Rightarrow> user_db \<times> (user_error + user)" where
  "user_Create c sha ok newid now email passwordHash loc db =
    (case encrypt c email of
       None \<Rightarrow> (db, Inl UserCrypt)
     | Some encEmail \<Rightarrow>
       if \<not> ok then (db, Inl UserDB)
       else (let r = new_row newid now encEmail (sha256Hex sha email) passwordHash loc in
         case insert_user r db of
           None \<Rightarrow> (db, Inl EmailTaken)
         | Some db' \<Rightarrow> (db', case decryptUser c (scan_user r) of None \<Rightarrow> Inl UserCrypt | Some u \<Rightarrow> Inr u)))"

text \<open>\<open>INSERT INTO user_roles SELECT \<dots> FROM roles WHERE name = $2\<close>: no row for an unknown role, an error for
  a role already held (primary key) or an unknown user (foreign key).\<close>

definition insert_role :: "string \<Rightarrow> string \<Rightarrow> user_db \<Rightarrow> user_error + user_db" where
  "insert_role userID name db =
    (if name \<notin> set (roles db) then Inl (UnknownRole name)
     else if (userID, name) \<in> set (user_roles db) \<or> userID \<notin> us_id ` set (users db) then Inl UserDB
     else Inr (db\<lparr>user_roles := user_roles db @ [(userID, name)]\<rparr>))"

fun insert_roles :: "string \<Rightarrow> string list \<Rightarrow> user_db \<Rightarrow> user_error + user_db" where
  "insert_roles userID [] db = Inr db"
| "insert_roles userID (n # ns) db = (case insert_role userID n db of Inl e \<Rightarrow> Inl e | Inr db' \<Rightarrow> insert_roles userID ns db')"

definition CreateWithRoles :: "encrypter option \<Rightarrow> (string \<Rightarrow> bytes) \<Rightarrow> bool \<Rightarrow> string \<Rightarrow> instant \<Rightarrow> string \<Rightarrow> string \<Rightarrow> string \<Rightarrow>
    string list \<Rightarrow> user_db \<Rightarrow> user_db \<times> (user_error + user)" where
  "CreateWithRoles c sha ok newid now email passwordHash loc roleNames db =
    (if \<not> ok then (db, Inl UserDB)
     else case encrypt c email of
       None \<Rightarrow> (db, Inl UserCrypt)
     | Some encEmail \<Rightarrow>
       (let r = new_row newid now encEmail (sha256Hex sha email) passwordHash loc in
        case insert_user r db of
          None \<Rightarrow> (db, Inl EmailTaken)
        | Some db1 \<Rightarrow>
          (case insert_roles newid roleNames db1 of
             Inl e \<Rightarrow> (db, Inl e)
           | Inr db2 \<Rightarrow> (db2, case decryptUser c (scan_user r) of None \<Rightarrow> Inl UserCrypt
               | Some u \<Rightarrow> Inr (u\<lparr>u_Roles := roleNames\<rparr>)))))"

definition user_FindByID :: "encrypter option \<Rightarrow> bool \<Rightarrow> string \<Rightarrow> user_db \<Rightarrow> user_error + user" where
  "user_FindByID c ok uid db = (if \<not> ok then Inl UserDB
     else case sql_first (\<lambda>r. us_id r = uid) (users db) of None \<Rightarrow> Inl UserNotFound | Some r \<Rightarrow> load_user c r db)"

definition repo_FindByEmail :: "encrypter option \<Rightarrow> (string \<Rightarrow> bytes) \<Rightarrow> bool \<Rightarrow> string \<Rightarrow> user_db \<Rightarrow> user_error + user" where
  "repo_FindByEmail c sha ok email db = (if \<not> ok then Inl UserDB
     else case sql_first (\<lambda>r. us_email_hash r = sha256Hex sha email) (users db) of
       None \<Rightarrow> Inl UserNotFound | Some r \<Rightarrow> load_user c r db)"

text \<open>\<open>UPDATE users SET \<dots> WHERE id = $1\<close>.\<close>

definition update_user :: "string \<Rightarrow> (user_row \<Rightarrow> user_row) \<Rightarrow> user_db \<Rightarrow> user_db" where
  "update_user uid f db = db\<lparr>users := sql_update (\<lambda>r. us_id r = uid) f (users db)\<rparr>"

definition UpdateLocale :: "bool \<Rightarrow> instant \<Rightarrow> string \<Rightarrow> string \<Rightarrow> user_db \<Rightarrow> user_db \<times> (user_error + unit)" where
  "UpdateLocale ok now uid loc db = (if \<not> ok then (db, Inl UserDB)
     else (update_user uid (\<lambda>r. r\<lparr>us_locale := loc, us_updated := now\<rparr>) db, Inr ()))"

definition UpdateNotifySecurityEmails :: "bool \<Rightarrow> instant \<Rightarrow> string \<Rightarrow> bool \<Rightarrow> user_db \<Rightarrow> user_db \<times> (user_error + unit)" where
  "UpdateNotifySecurityEmails ok now uid enabled db = (if \<not> ok then (db, Inl UserDB)
     else (update_user uid (\<lambda>r. r\<lparr>us_notify := enabled, us_updated := now\<rparr>) db, Inr ()))"

definition UpdatePassword :: "bool \<Rightarrow> instant \<Rightarrow> string \<Rightarrow> string \<Rightarrow> user_db \<Rightarrow> user_db \<times> (user_error + unit)" where
  "UpdatePassword ok now uid passwordHash db = (if \<not> ok then (db, Inl UserDB)
     else (update_user uid (\<lambda>r. r\<lparr>us_password := passwordHash, us_updated := now\<rparr>) db, Inr ()))"

definition update_returning :: "encrypter option \<Rightarrow> bool \<Rightarrow> string \<Rightarrow> (user_row \<Rightarrow> user_row) \<Rightarrow> user_db \<Rightarrow>
    user_db \<times> (user_error + user)" where
  "update_returning c ok uid f db =
    (if \<not> ok then (db, Inl UserDB)
     else (let db' = update_user uid f db in
       case sql_first (\<lambda>r. us_id r = uid) (users db') of
         None \<Rightarrow> (db, Inl UserNotFound) | Some r \<Rightarrow> (db', load_user c r db')))"

definition repo_UpdateProfile :: "encrypter option \<Rightarrow> bool \<Rightarrow> instant \<Rightarrow> string \<Rightarrow> string \<Rightarrow> string \<Rightarrow> user_db \<Rightarrow>
    user_db \<times> (user_error + user)" where
  "repo_UpdateProfile c ok now uid firstName lastName db =
    (case encrypt c firstName of None \<Rightarrow> (db, Inl UserCrypt) | Some encFirst \<Rightarrow>
     (case encrypt c lastName of None \<Rightarrow> (db, Inl UserCrypt) | Some encLast \<Rightarrow>
       update_returning c ok uid (\<lambda>r. r\<lparr>us_first := encFirst, us_last := encLast, us_updated := now\<rparr>) db))"

definition UpdateAvatar :: "encrypter option \<Rightarrow> bool \<Rightarrow> instant \<Rightarrow> string \<Rightarrow> string \<Rightarrow> int \<Rightarrow> user_db \<Rightarrow>
    user_db \<times> (user_error + user)" where
  "UpdateAvatar c ok now uid key sz db =
     update_returning c ok uid (\<lambda>r. r\<lparr>us_avatar_key := key, us_avatar_size := sz, us_updated := now\<rparr>) db"

definition AssignRoleByName :: "bool \<Rightarrow> string \<Rightarrow> string \<Rightarrow> user_db \<Rightarrow> user_db \<times> (user_error + unit)" where
  "AssignRoleByName ok uid name db =
    (if \<not> ok then (db, Inl UserDB)
     else if name \<notin> set (roles db) \<or> (uid, name) \<in> set (user_roles db) then (db, Inr ())
     else if uid \<notin> us_id ` set (users db) then (db, Inl UserDB)
     else (db\<lparr>user_roles := user_roles db @ [(uid, name)]\<rparr>, Inr ()))"

text \<open>The two counting queries of the last-admin guard, on rows joined through \<open>user_roles\<close>.\<close>

definition active_admins :: "user_db \<Rightarrow> string list" where
  "active_admins db = map us_id (filter (\<lambda>r. us_active r \<and> (us_id r, adminRoleName) \<in> set (user_roles db) \<and>
     adminRoleName \<in> set (roles db)) (users db))"

definition guardLastAdmin :: "string \<Rightarrow> user_db \<Rightarrow> bool" where
  "guardLastAdmin uid db =
    (if uid \<notin> set (active_admins db) then True
     else filter (\<lambda>a. a \<noteq> uid) (active_admins db) \<noteq> [])"

definition SetRoles :: "bool \<Rightarrow> string \<Rightarrow> string list \<Rightarrow> user_db \<Rightarrow> user_db \<times> (user_error + unit)" where
  "SetRoles ok uid roleNames db =
    (if \<not> ok then (db, Inl UserDB)
     else case List.find (\<lambda>n. n \<notin> set (roles db)) roleNames of
       Some n \<Rightarrow> (db, Inl (UnknownRole n))
     | None \<Rightarrow>
       if adminRoleName \<notin> set roleNames \<and> \<not> guardLastAdmin uid db then (db, Inl LastAdmin)
       else (case insert_roles uid roleNames (db\<lparr>user_roles := filter (\<lambda>p. fst p \<noteq> uid) (user_roles db)\<rparr>) of
           Inl e \<Rightarrow> (db, Inl e) | Inr db' \<Rightarrow> (db', Inr ())))"

definition SetActive :: "bool \<Rightarrow> instant \<Rightarrow> string \<Rightarrow> bool \<Rightarrow> user_db \<Rightarrow> user_db \<times> (user_error + unit)" where
  "SetActive ok now uid active db =
    (if \<not> ok then (db, Inl UserDB)
     else if \<not> active \<and> \<not> guardLastAdmin uid db then (db, Inl LastAdmin)
     else if uid \<notin> us_id ` set (users db) then (db, Inl UserNotFound)
     else (update_user uid (\<lambda>r. r\<lparr>us_active := active, us_updated := now\<rparr>) db, Inr ()))"

definition BulkSetActive :: "bool \<Rightarrow> instant \<Rightarrow> string list \<Rightarrow> bool \<Rightarrow> user_db \<Rightarrow> user_db \<times> (user_error + unit)" where
  "BulkSetActive ok now uids active db =
    (if uids = [] then (db, Inr ())
     else if \<not> ok then (db, Inl UserDB)
     else if \<not> active \<and> filter (\<lambda>a. a \<notin> set uids) (active_admins db) = [] \<and>
        filter (\<lambda>a. a \<in> set uids) (active_admins db) \<noteq> [] then (db, Inl LastAdmin)
     else (db\<lparr>users := sql_update (\<lambda>r. us_id r \<in> set uids) (\<lambda>r. r\<lparr>us_active := active, us_updated := now\<rparr>) (users db)\<rparr>, Inr ()))"

definition GetPermissions :: "bool \<Rightarrow> string \<Rightarrow> user_db \<Rightarrow> user_error + string list" where
  "GetPermissions ok uid db = (if \<not> ok then Inl UserDB
     else Inr (sort (remdups (map (\<lambda>(ro, res, act). res @ '':'' @ act)
       (filter (\<lambda>(ro, res, act). (uid, ro) \<in> set (user_roles db)) (role_perms db))))))"

record list_params =
  lp_Limit :: int
  lp_Offset :: int
  lp_SortBy :: string
  lp_SortDir :: string
  lp_Email :: string
  lp_Status :: string
  lp_Role :: string

definition list_where :: "(string \<Rightarrow> bytes) \<Rightarrow> list_params \<Rightarrow> user_db \<Rightarrow> user_row \<Rightarrow> bool" where
  "list_where sha p db r \<longleftrightarrow>
    (lp_Email p \<noteq> '''' \<longrightarrow> us_email_hash r = sha256Hex sha (lp_Email p)) \<and>
    (lp_Status p = ''active'' \<longrightarrow> us_active r) \<and> (lp_Status p = ''inactive'' \<longrightarrow> \<not> us_active r) \<and>
    (lp_Role p \<noteq> '''' \<longrightarrow> (us_id r, lp_Role p) \<in> set (user_roles db) \<and> lp_Role p \<in> set (roles db))"

definition list_order :: "list_params \<Rightarrow> user_row list \<Rightarrow> user_row list" where
  "list_order p rs =
    (let asc = (if lp_SortBy p = ''email'' then sort_key us_email rs
           else if lp_SortBy p = ''is_active'' then sort_key us_active rs else sort_key us_created rs)
     in if EqualFold (lp_SortDir p) ''desc'' then rev asc else asc)"

text \<open>The correlated subquery counting recently active sessions.\<close>

definition active_session_count :: "instant \<Rightarrow> string \<Rightarrow> session_repo \<Rightarrow> nat" where
  "active_session_count now uid st = length (filter (\<lambda>s. s_user s = uid \<and> usable now s \<and>
     now - 2 * go_minute < last_active s) (rows st))"

text \<open>\<open>List\<close>: the page with each user's session count, and the total. \<open>sorted\<close> roles come aggregated.\<close>

definition List_users :: "encrypter option \<Rightarrow> (string \<Rightarrow> bytes) \<Rightarrow> bool \<Rightarrow> instant \<Rightarrow> list_params \<Rightarrow> session_repo \<Rightarrow> user_db \<Rightarrow>
    user_error + (user \<times> nat) list \<times> nat" where
  "List_users c sha ok now p st db =
    (let limit = (if lp_Limit p \<le> 0 \<or> lp_Limit p > 200 then 25 else lp_Limit p);
         hits = filter (list_where sha p db) (users db);
         page = take (nat limit) (drop (nat (lp_Offset p)) (list_order p hits));
         out = map (\<lambda>r. decryptUser c ((scan_user r)\<lparr>u_PasswordHash := '''', u_NotifySecurityEmails := False,
           u_Roles := getRoles (us_id r) db\<rparr>)) page
     in if \<not> ok \<or> lp_Offset p < 0 then Inl UserDB
        else if None \<in> set out then Inl UserCrypt
        else Inr (map (\<lambda>r. (the r, active_session_count now (u_ID (the r)) st)) out, length hits))"

section \<open>Service\<close>

text \<open>\<open>bcrypt\<close> is \<open>bcrypt.GenerateFromPassword\<close> with its random salt already drawn.\<close>

definition Register :: "(string \<Rightarrow> string option) \<Rightarrow> encrypter option \<Rightarrow> (string \<Rightarrow> bytes) \<Rightarrow> bool \<Rightarrow> string \<Rightarrow> instant \<Rightarrow> string \<Rightarrow>
    string \<Rightarrow> string \<Rightarrow> user_db \<Rightarrow> user_db \<times> (user_error + user)" where
  "Register bcrypt c sha ok newid now email password loc db =
    (case bcrypt password of None \<Rightarrow> (db, Inl HashError)
     | Some h \<Rightarrow> user_Create c sha ok newid now (ToLower (TrimSpace email)) h loc db)"

definition RegisterWithRoles :: "(string \<Rightarrow> string option) \<Rightarrow> encrypter option \<Rightarrow> (string \<Rightarrow> bytes) \<Rightarrow> bool \<Rightarrow> string \<Rightarrow> instant \<Rightarrow>
    string \<Rightarrow> string \<Rightarrow> string \<Rightarrow> string list \<Rightarrow> user_db \<Rightarrow> user_db \<times> (user_error + user)" where
  "RegisterWithRoles bcrypt c sha ok newid now email password loc roleNames db =
    (case bcrypt password of None \<Rightarrow> (db, Inl HashError)
     | Some h \<Rightarrow> CreateWithRoles c sha ok newid now (ToLower (TrimSpace email)) h loc roleNames db)"

definition user_FindByEmail :: "encrypter option \<Rightarrow> (string \<Rightarrow> bytes) \<Rightarrow> bool \<Rightarrow> string \<Rightarrow> user_db \<Rightarrow> user_error + user" where
  "user_FindByEmail c sha ok email db = repo_FindByEmail c sha ok (ToLower (TrimSpace email)) db"

definition UpdateProfile :: "encrypter option \<Rightarrow> bool \<Rightarrow> instant \<Rightarrow> string \<Rightarrow> string \<Rightarrow> string \<Rightarrow> user_db \<Rightarrow>
    user_db \<times> (user_error + user)" where
  "UpdateProfile c ok now uid firstName lastName db =
    (let f = TrimSpace firstName; l = TrimSpace lastName in
     if length (runes f) > 80 \<or> length (runes l) > 80 then (db, Inl InvalidProfile) else repo_UpdateProfile c ok now uid f l db)"

definition SeedAdmin :: "encrypter option \<Rightarrow> (string \<Rightarrow> bytes) \<Rightarrow> bool \<Rightarrow> bool \<Rightarrow> bool \<Rightarrow> string \<Rightarrow> instant \<Rightarrow> string \<Rightarrow> string \<Rightarrow>
    user_db \<Rightarrow> user_db \<times> (user_error + unit)" where
  "SeedAdmin c sha ok1 ok2 ok3 newid now email hash db =
    (case repo_FindByEmail c sha ok1 email db of
       Inr u \<Rightarrow> AssignRoleByName ok3 (u_ID u) ''admin'' db
     | Inl UserNotFound \<Rightarrow>
       (case user_Create c sha ok2 newid now email hash ''tr'' db of
          (db', Inl EmailTaken) \<Rightarrow> (db', Inr ())
        | (db', Inl e) \<Rightarrow> (db', Inl e)
        | (db', Inr u) \<Rightarrow> AssignRoleByName ok3 (u_ID u) ''admin'' db')
     | Inl e \<Rightarrow> (db, Inl e))"

section \<open>Facts\<close>

lemma active_admins_iff: "a \<in> set (active_admins db) \<longleftrightarrow>
    (\<exists>r \<in> set (users db). us_id r = a \<and> us_active r) \<and> (a, adminRoleName) \<in> set (user_roles db) \<and>
    adminRoleName \<in> set (roles db)"
  by (auto simp: active_admins_def)

definition has_admin :: "user_db \<Rightarrow> bool" where
  "has_admin db \<longleftrightarrow> active_admins db \<noteq> []"

lemma has_admin_iff: "has_admin db \<longleftrightarrow> (\<exists>a. a \<in> set (active_admins db))"
  by (cases "active_admins db") (auto simp: has_admin_def)

lemma insert_roles_result:
  "insert_roles uid ns db = Inr db' \<Longrightarrow> users db' = users db \<and> roles db' = roles db \<and> role_perms db' = role_perms db \<and>
    set (user_roles db') = set (user_roles db) \<union> Pair uid ` set ns \<and> set ns \<subseteq> set (roles db)"
proof (induction ns arbitrary: db)
  case (Cons n ns)
  from Cons.prems obtain db1 where db1: "insert_role uid n db = Inr db1" "insert_roles uid ns db1 = Inr db'"
    by (auto split: sum.splits)
  from db1(1) have "users db1 = users db" "roles db1 = roles db" "role_perms db1 = role_perms db" "n \<in> set (roles db)"
    "set (user_roles db1) = insert (uid, n) (set (user_roles db))"
    by (auto simp: insert_role_def split: if_splits)
  with Cons.IH [OF db1(2)] show ?case by auto
qed simp

text \<open>Operations that add users or roles, or update columns other than \<open>id\<close> and \<open>is_active\<close>, keep every admin.\<close>

definition keeps_admins :: "user_db \<Rightarrow> user_db \<Rightarrow> bool" where
  "keeps_admins db db' \<longleftrightarrow> set (active_admins db) \<subseteq> set (active_admins db')"

lemma keeps_admins_refl [simp]: "keeps_admins db db"
  by (simp add: keeps_admins_def)

lemma keeps_admins_trans: "keeps_admins a b \<Longrightarrow> keeps_admins b c \<Longrightarrow> keeps_admins a c"
  by (auto simp: keeps_admins_def)

lemma has_admin_kept: "keeps_admins db db' \<Longrightarrow> has_admin db \<Longrightarrow> has_admin db'"
  by (auto simp: keeps_admins_def has_admin_iff)

lemma keeps_insert_user: "insert_user r db = Some db' \<Longrightarrow> keeps_admins db db'"
  by (auto simp: keeps_admins_def active_admins_iff insert_user_def split: if_splits)

lemma keeps_insert_roles: "insert_roles uid ns db = Inr db' \<Longrightarrow> keeps_admins db db'"
  using insert_roles_result [of uid ns db db'] by (auto simp: keeps_admins_def active_admins_iff)

lemma keeps_update_user:
  assumes "\<And>r. us_id (f r) = us_id r \<and> us_active (f r) = us_active r"
  shows "keeps_admins db (update_user uid f db)"
proof -
  have "(\<exists>r \<in> set (sql_update P f (users db)). us_id r = a \<and> us_active r) \<longleftrightarrow>
      (\<exists>r \<in> set (users db). us_id r = a \<and> us_active r)" for P a
    using assms by (simp add: bex_sql_update if_distrib cong: if_cong)
  then show ?thesis by (simp add: keeps_admins_def active_admins_iff update_user_def subset_iff)
qed

lemma keeps_Create: "keeps_admins db (fst (user_Create c sha ok newid now email h loc db))"
  by (auto simp: user_Create_def Let_def keeps_insert_user split: option.splits)

lemma keeps_CreateWithRoles: "keeps_admins db (fst (CreateWithRoles c sha ok newid now email h loc ns db))"
  by (auto simp: CreateWithRoles_def Let_def split: option.splits sum.splits
      intro: keeps_admins_trans keeps_insert_user keeps_insert_roles)

lemma keeps_update_returning:
  "(\<And>r. us_id (f r) = us_id r \<and> us_active (f r) = us_active r) \<Longrightarrow>
    keeps_admins db (fst (update_returning c ok uid f db))"
  by (auto simp: update_returning_def Let_def keeps_update_user split: option.splits)

lemma keeps_AssignRole: "keeps_admins db (fst (AssignRoleByName ok uid name db))"
  by (auto simp: AssignRoleByName_def keeps_admins_def active_admins_iff)

lemma admin_other:
  assumes "has_admin db" "guardLastAdmin uid db"
  obtains a where "a \<in> set (active_admins db)" "a \<noteq> uid"
  using assms by (auto simp: has_admin_iff guardLastAdmin_def filter_empty_conv split: if_splits)

lemma SetRoles_admin:
  assumes "has_admin db"
  shows "has_admin (fst (SetRoles ok uid ns db))"
proof (cases "is_ok (snd (SetRoles ok uid ns db))")
  case False
  then have "fst (SetRoles ok uid ns db) = db"
    by (auto simp: SetRoles_def split: option.splits sum.splits if_splits)
  with assms show ?thesis by simp
next
  case True
  let ?db0 = "db\<lparr>user_roles := filter (\<lambda>p. fst p \<noteq> uid) (user_roles db)\<rparr>"
  from True obtain db' where ins: "insert_roles uid ns ?db0 = Inr db'"
    and fst: "fst (SetRoles ok uid ns db) = db'"
    and guard: "adminRoleName \<in> set ns \<or> guardLastAdmin uid db"
    by (auto simp: SetRoles_def split: option.splits sum.splits if_splits)
  note res = insert_roles_result [OF ins]
  have other: "a \<in> set (active_admins db')" if "a \<in> set (active_admins db)" "a \<noteq> uid \<or> adminRoleName \<in> set ns" for a
    using that res by (auto simp: active_admins_iff)
  from assms obtain a where "a \<in> set (active_admins db)" by (auto simp: has_admin_iff)
  with guard other assms show ?thesis
    unfolding fst by (metis admin_other has_admin_iff)
qed

lemma active_update_other:
  assumes "a \<in> set (active_admins db)" "\<And>r. us_id (f r) = us_id r" "\<And>r. P r \<Longrightarrow> us_id r = a \<Longrightarrow> us_active (f r)"
  shows "a \<in> set (active_admins (db\<lparr>users := sql_update P f (users db)\<rparr>))"
  using assms unfolding active_admins_iff by (auto simp: bex_sql_update)

lemma SetActive_admin: "has_admin db \<Longrightarrow> has_admin (fst (SetActive ok now uid active db))"
proof -
  assume ad: "has_admin db"
  show ?thesis
  proof (cases "active \<or> guardLastAdmin uid db")
    case True
    with ad obtain a where "a \<in> set (active_admins db)" "active \<or> a \<noteq> uid"
      by (metis admin_other has_admin_iff)
    then have "a \<in> set (active_admins (update_user uid (\<lambda>r. r\<lparr>us_active := active, us_updated := now\<rparr>) db))"
      unfolding update_user_def by (intro active_update_other) auto
    with ad show ?thesis by (auto simp: SetActive_def has_admin_iff)
  qed (use ad in \<open>simp add: SetActive_def\<close>)
qed

lemma BulkSetActive_admin: "has_admin db \<Longrightarrow> has_admin (fst (BulkSetActive ok now uids active db))"
proof -
  assume ad: "has_admin db"
  let ?refused = "\<not> active \<and> filter (\<lambda>a. a \<notin> set uids) (active_admins db) = [] \<and>
    filter (\<lambda>a. a \<in> set uids) (active_admins db) \<noteq> []"
  show ?thesis
  proof (cases ?refused)
    case False
    with ad obtain a where "a \<in> set (active_admins db)" "active \<or> a \<notin> set uids"
      by (fastforce simp: has_admin_iff filter_empty_conv)
    then have "a \<in> set (active_admins (db\<lparr>users := sql_update (\<lambda>r. us_id r \<in> set uids)
        (\<lambda>r. r\<lparr>us_active := active, us_updated := now\<rparr>) (users db)\<rparr>))"
      by (intro active_update_other) auto
    with ad show ?thesis by (auto simp: BulkSetActive_def has_admin_iff)
  qed (use ad in \<open>simp add: BulkSetActive_def\<close>)
qed

section \<open>Histories\<close>

text \<open>One request of the administration or of a user, run alone. The first arguments of each constructor are
  the database's and the libraries' answers.\<close>

datatype user_op =
    OpRegister "string option" "encrypter option" "string \<Rightarrow> bytes" bool string instant string string
  | OpRegisterWithRoles "string option" "encrypter option" "string \<Rightarrow> bytes" bool string instant string string "string list"
  | OpSeedAdmin "encrypter option" "string \<Rightarrow> bytes" bool bool bool string instant string string
  | OpSetRoles bool string "string list"
  | OpSetActive bool instant string bool
  | OpBulkSetActive bool instant "string list" bool
  | OpProfile "encrypter option" bool instant string string string
  | OpAvatar "encrypter option" bool instant string string int
  | OpLocale bool instant string string
  | OpNotify bool instant string bool
  | OpPassword bool instant string string

fun apply_user_op :: "user_op \<Rightarrow> user_db \<Rightarrow> user_db" where
  "apply_user_op (OpRegister h c sha ok i t e l) db = fst (Register (\<lambda>_. h) c sha ok i t e '''' l db)"
| "apply_user_op (OpRegisterWithRoles h c sha ok i t e l ns) db = fst (RegisterWithRoles (\<lambda>_. h) c sha ok i t e '''' l ns db)"
| "apply_user_op (OpSeedAdmin c sha a b d i t e h) db = fst (SeedAdmin c sha a b d i t e h db)"
| "apply_user_op (OpSetRoles ok u ns) db = fst (SetRoles ok u ns db)"
| "apply_user_op (OpSetActive ok t u b) db = fst (SetActive ok t u b db)"
| "apply_user_op (OpBulkSetActive ok t us b) db = fst (BulkSetActive ok t us b db)"
| "apply_user_op (OpProfile c ok t u f l) db = fst (UpdateProfile c ok t u f l db)"
| "apply_user_op (OpAvatar c ok t u k n) db = fst (UpdateAvatar c ok t u k n db)"
| "apply_user_op (OpLocale ok t u l) db = fst (UpdateLocale ok t u l db)"
| "apply_user_op (OpNotify ok t u b) db = fst (UpdateNotifySecurityEmails ok t u b db)"
| "apply_user_op (OpPassword ok t u h) db = fst (UpdatePassword ok t u h db)"

inductive user_steps :: "user_db \<Rightarrow> user_db \<Rightarrow> bool" for db0 where
  start: "user_steps db0 db0"
| step: "user_steps db0 db \<Longrightarrow> user_steps db0 (apply_user_op op db)"

lemma keeps_SeedAdmin: "keeps_admins db (fst (SeedAdmin c sha ok1 ok2 ok3 newid now email h db))"
  using keeps_Create [of db c sha ok2 newid now email h "''tr''"]
  by (auto simp: SeedAdmin_def keeps_AssignRole split: sum.splits user_error.splits prod.splits
      intro: keeps_admins_trans [OF _ keeps_AssignRole])

lemma apply_user_op_admin: "has_admin db \<Longrightarrow> has_admin (apply_user_op op db)"
  by (cases op)
    (auto simp: Register_def RegisterWithRoles_def UpdateProfile_def repo_UpdateProfile_def UpdateAvatar_def UpdateLocale_def
      UpdateNotifySecurityEmails_def UpdatePassword_def SetRoles_admin SetActive_admin BulkSetActive_admin Let_def
      split: option.splits
      intro: has_admin_kept [OF keeps_Create] has_admin_kept [OF keeps_CreateWithRoles] has_admin_kept [OF keeps_SeedAdmin]
        has_admin_kept [OF keeps_update_user] has_admin_kept [OF keeps_update_returning])

section \<open>Properties\<close>

text \<open>C7: the system keeps an administrator. Along every sequence of repository operations run one after the
  other, successful or not, a database that has an active user holding the admin role still has one.\<close>

theorem last_admin_preserved:
  assumes "user_steps db0 db" "has_admin db0"
  shows "has_admin db"
  using assms by (induction rule: user_steps.induct) (auto simp: apply_user_op_admin)

abbreviation demo_user :: "string \<Rightarrow> user_row" where
  "demo_user i \<equiv> new_row i 0 (i @ ''@x'') i ''h'' ''en''"

definition demo_users :: user_db where
  "demo_users = \<lparr>users = [demo_user ''a'', demo_user ''b''], roles = [''admin'', ''user''],
     user_roles = [(''a'', ''admin''), (''b'', ''admin'')], role_perms = [(''admin'', ''users'', ''read'')]\<rparr>"

lemma demo_admins: "active_admins demo_users = [''a'', ''b'']"
  by (simp add: active_admins_def demo_users_def new_row_def adminRoleName_def)

theorem last_admin_preserved_witness:
  "has_admin (apply_user_op (OpSetRoles True ''b'' [''user'']) (apply_user_op (OpSetActive True 1 ''a'' False) demo_users))"
  by (rule last_admin_preserved [OF user_steps.step [OF user_steps.step [OF user_steps.start]]])
    (simp add: has_admin_def demo_admins)



text \<open>a registered user is found by their address. After a successful \<open>Register\<close>, \<open>FindByEmail\<close> with any
  spelling of the address (case, surrounding space) returns the same user, with the roles of the database
  and the normalised address, whatever encryption the secrets client applies, if it decrypts what it
  encrypted.\<close>

lemma register_then_find:
  assumes "Register bcrypt c sha True newid now email password loc db = (db', Inr u)"
    and "\<And>e x y. c = Some e \<Longrightarrow> EncryptData e x = Some y \<Longrightarrow> DecryptData e y = Some x \<and> y \<noteq> ''''"
    and "ToLower (TrimSpace email') = ToLower (TrimSpace email)"
  shows "user_FindByEmail c sha True email' db' = Inr (u\<lparr>u_Roles := getRoles newid db'\<rparr>) \<and>
    u_ID u = newid \<and> u_Email u = ToLower (TrimSpace email) \<and> u_IsActive u"
proof -
  let ?e = "ToLower (TrimSpace email)"
  have norm: "ToLower (TrimSpace ?e) = ?e"
    by (simp add: TrimSpace_ToLower TrimSpace_idem)
  from assms(1) obtain h enc where h: "bcrypt password = Some h" and enc: "encrypt c ?e = Some enc"
    and ins: "insert_user (new_row newid now enc (sha256Hex sha ?e) h loc) db = Some db'"
    and u: "decryptUser c (scan_user (new_row newid now enc (sha256Hex sha ?e) h loc)) = Some u"
    by (auto simp: Register_def user_Create_def Let_def split: option.splits)
  let ?r = "new_row newid now enc (sha256Hex sha ?e) h loc"
  have dec: "decrypt c enc = Some ?e"
    using enc assms(2) by (auto simp: encrypt_def decrypt_def split: option.splits if_splits)
  have empty: "decrypt c '''' = Some ''''" by (simp add: decrypt_def split: option.splits)
  have u_eq: "u = (scan_user ?r)\<lparr>u_Email := ?e\<rparr>"
    using u dec empty by (simp add: decryptUser_def scan_user_def new_row_def)
  from ins have db': "users db' = users db @ [?r]" and fresh: "us_email_hash ?r \<notin> us_email_hash ` set (users db)"
    by (auto simp: insert_user_def split: if_splits)
  have r: "us_email_hash ?r = sha256Hex sha ?e" by (simp add: new_row_def)
  have "sql_first (\<lambda>r. us_email_hash r = sha256Hex sha ?e) (users db') = Some ?r"
    unfolding sql_first_def
  proof (rule find_ex1)
    show "r' = ?r" if "r' \<in> set (users db')" "us_email_hash r' = sha256Hex sha ?e" for r'
      using that fresh r db' by (metis Un_iff empty_iff imageI insert_iff list.set set_append)
  qed (simp_all add: db' r)
  moreover have "decryptUser c ((scan_user ?r)\<lparr>u_Roles := getRoles newid db'\<rparr>) = Some (u\<lparr>u_Roles := getRoles newid db'\<rparr>)"
    using dec empty by (simp add: u_eq decryptUser_def scan_user_def new_row_def)
  ultimately show ?thesis
    using assms(3) by (simp add: user_FindByEmail_def repo_FindByEmail_def load_user_def norm)
      (simp add: u_eq scan_user_def new_row_def)
qed

text \<open>permissions are exactly those of the user's roles: the list is sorted, has no duplicates, and contains
  \<open>resource:action\<close> just when some role of the user grants it.\<close>

lemma permissions_exact:
  assumes "GetPermissions True uid db = Inr ps"
  shows "sorted ps \<and> distinct ps \<and> (\<forall>p. p \<in> set ps \<longleftrightarrow>
    (\<exists>ro res act. (uid, ro) \<in> set (user_roles db) \<and> (ro, res, act) \<in> set (role_perms db) \<and> p = res @ '':'' @ act))"
proof -
  let ?sel = "filter (\<lambda>(ro, res, act). (uid, ro) \<in> set (user_roles db)) (role_perms db)"
  from assms have ps: "ps = sort (remdups (map (\<lambda>(ro, res, act). res @ '':'' @ act) ?sel))"
    by (simp add: GetPermissions_def)
  have "p \<in> set ps \<longleftrightarrow> (\<exists>ro res act. (uid, ro) \<in> set (user_roles db) \<and> (ro, res, act) \<in> set (role_perms db) \<and>
      p = res @ '':'' @ act)" for p
    unfolding ps by (force simp: image_iff)
  then show ?thesis by (simp add: ps)
qed

end
