(* ===== verification/Auth_Service.thy ===== *)
theory Auth_Service
  imports Login_Guard Token_Service MFA_Service User_Repo "HOL-Library.Multiset"
begin

text \<open>
  \<open>internal/auth/service.go\<close>: login, second factors, token refresh, logout, machine clients and the access
  evaluation. The service runs on a world of its stores (Redis, the session table, the user and MFA
  tables, the mail queue) and takes one environment per request: the clocks, the random values and which
  database calls succeed. JWT, SHA-256, bcrypt, TOTP and WebAuthn are parameters.
\<close>

section \<open>Types\<close>

text \<open>The document \<open>Login\<close> stores under the hash of the pending token.\<close>

record pending_login =
  p_uid :: string
  p_ip :: string
  p_ua :: string
  p_device :: device_info
  p_setup_secret :: string
  p_setup_url :: string
  p_recovery :: "string list"

text \<open>\<open>WebAuthnVerifier\<close>: \<open>'o\<close> assertion options, \<open>'c\<close> the authenticator's response. The ceremony sessions
  live in the same Redis.\<close>

record ('r, 'o, 'c) webauthn_verifier =
  wa_HasCredentials :: "string \<Rightarrow> bool"
  wa_BeginLogin :: "string \<Rightarrow> 'r \<Rightarrow> 'r \<times> 'o option"
  wa_FinishLogin :: "string \<Rightarrow> 'c \<Rightarrow> 'r \<Rightarrow> 'r \<times> bool"
  wa_BeginDiscoverable :: "'r \<Rightarrow> 'r \<times> 'o option"
  wa_FinishDiscoverable :: "string \<Rightarrow> 'c \<Rightarrow> 'r \<Rightarrow> 'r \<times> string option"

record sa_record =
  sa_ID :: string
  sa_ClientID :: string
  sa_Name :: string
  sa_SecretHash :: string
  sa_OldSecretHash :: "string option"
  sa_OldExpiresAt :: "instant option"
  sa_IsActive :: bool
  sa_Scopes :: "string list"
  sa_ExpiresAt :: "instant option"

record sa_store =
  sa_FindByClientID :: "string \<Rightarrow> sa_record option"
  sa_CheckSecret :: "string \<Rightarrow> string \<Rightarrow> bool"

text \<open>\<open>auth.Service\<close>. The session repository's OIDC revoker is wired by \<open>main.go\<close>.\<close>

record ('r, 'k, 'p, 't, 'o, 'c) auth_service = "('r, pending_login) guard_cfg" +
  a_jwt :: "('k, 'p, 't) jwt_lib"
  a_ks :: "'k key_store"
  a_enc :: "encrypter option"
  a_bcrypt :: "string \<Rightarrow> string \<Rightarrow> bool"
  a_dummy :: string
  a_mfa :: "('r, pending_login) mfa_service option"
  a_webauthn :: "('r, 'o, 'c) webauthn_verifier option"
  a_sa :: "sa_store option"
  a_oidc :: "(string \<Rightarrow> 'r \<Rightarrow> 'r \<times> bool) option"

record 'r auth_world = "'r guard_world" +
  w_sess :: session_repo
  w_mfa :: mfa_table
  w_users :: user_db

datatype auth_call = CallFindEmail | CallFindID | CallPerms | CallRevokeDevice | CallEvict | CallCreate | CallRotate
  | CallReuse | CallRevokeAll | CallRevoke | CallActive

record auth_env =
  e_now :: instant
  e_sqlnow :: instant
  e_hour :: int
  e_ok :: "auth_call \<Rightarrow> bool"
  e_mfa_ok :: "mfa_call \<Rightarrow> bool"
  e_pending :: "bytes option"
  e_refresh :: "bytes option"
  e_jti :: string
  e_newid :: string
  e_setup :: setup_random

datatype auth_error = ErrInvalidCredentials | ErrInactiveUser | ErrDPoPReplay | ErrAccountLocked duration
  | ErrRiskBlocked int | ErrIPNotAllowed | ErrCountryNotAllowed | ErrDeviceNotAllowed | ErrPendingStore
  | ErrAuthToken token_error | ErrMFA mfa_error | ErrUser user_error | ErrSession | ErrRandomSource

record 't login_result =
  lr_Pair :: "'t token_pair option"
  lr_MFARequired :: bool
  lr_PendingToken :: string
  lr_SetupSecret :: string
  lr_SetupURL :: string
  lr_RecoveryCodes :: "string list"
  lr_TOTP :: bool
  lr_WebAuthn :: bool
  lr_AnomalyType :: string
  lr_AnomalyDetails :: string
  lr_RiskScore :: int

abbreviation AccessTTL :: duration where "AccessTTL \<equiv> go_minute"
abbreviation serviceTokenTTL :: duration where "serviceTokenTTL \<equiv> 5 * go_minute"
abbreviation mfaPendingTTL :: duration where "mfaPendingTTL \<equiv> 5 * go_minute"
abbreviation dpopReplayWindow :: duration where "dpopReplayWindow \<equiv> 5 * go_minute"

definition jtiBlocklistKey :: "string \<Rightarrow> string" where "jtiBlocklistKey jti = ''jti:blocked:'' @ jti"
definition dpopJTIKey :: "string \<Rightarrow> string" where "dpopJTIKey jti = ''dpop:jti:'' @ jti"
definition mfaPendingKey :: "string \<Rightarrow> string" where "mfaPendingKey hash = ''mfa:pending:'' @ hash"

section \<open>Session timeouts\<close>

definition timeout_setting :: "setting_reader option \<Rightarrow> string \<Rightarrow> duration \<Rightarrow> duration" where
  "timeout_setting st key d = (case st of None \<Rightarrow> d
     | Some s \<Rightarrow> (let seconds = GetInt s key (d div go_second) in
         if seconds \<le> 0 then d else wrap64 (seconds * go_second)))"

definition sessionIdleTimeout :: "setting_reader option \<Rightarrow> duration" where
  "sessionIdleTimeout st = timeout_setting st ''session_idle_timeout_seconds'' (5 * go_minute)"

definition adminSessionIdleTimeout :: "setting_reader option \<Rightarrow> duration" where
  "adminSessionIdleTimeout st = timeout_setting st ''session_idle_timeout_seconds_admin'' (3 * go_minute)"

definition sessionAbsoluteTimeout :: "setting_reader option \<Rightarrow> duration" where
  "sessionAbsoluteTimeout st = timeout_setting st ''session_absolute_timeout_seconds'' (8 * go_hour)"

definition hasAdminRole :: "string list \<Rightarrow> bool" where
  "hasAdminRole rs = list_ex (\<lambda>r. r = ''admin'') rs"

section \<open>Completing a login\<close>

text \<open>The IP, country and device checks that open \<open>Login\<close>, \<open>WebAuthnPasswordlessFinish\<close> and \<open>EvaluateAccess\<close>.\<close>

definition access_gate :: "('r, 'd, 'm) guard_cfg_scheme \<Rightarrow> string \<Rightarrow> device_info \<Rightarrow> auth_error option" where
  "access_gate C ip info =
    (case c_settings C of
       None \<Rightarrow> None
     | Some st \<Rightarrow>
       if \<not> isIPAllowed ip (GetString st ''ip_allowlist'' '''') then Some ErrIPNotAllowed
       else if \<not> isCountryAllowed ip (GetString st ''country_allowlist'' '''') (c_geoip C) then Some ErrCountryNotAllowed
       else if \<not> isDeviceAllowed info (Some st) then Some ErrDeviceNotAllowed
       else None)"

definition findByID :: "('r, 'k, 'p, 't, 'o, 'c) auth_service \<Rightarrow> auth_env \<Rightarrow> string \<Rightarrow> 'r auth_world \<Rightarrow> user_error + user" where
  "findByID A e uid w = user_FindByID (a_enc A) (e_ok e CallFindID) uid (w_users w)"

definition perms_of :: "auth_env \<Rightarrow> string \<Rightarrow> 'r auth_world \<Rightarrow> string list" where
  "perms_of e uid w = (case GetPermissions (e_ok e CallPerms) uid (w_users w) of Inl _ \<Rightarrow> [] | Inr ps \<Rightarrow> ps)"

definition issue_pair :: "('r, 'k, 'p, 't, 'o, 'c) auth_service \<Rightarrow> auth_env \<Rightarrow> user \<Rightarrow> 'r auth_world \<Rightarrow> token_error + 't token_pair" where
  "issue_pair A e u w = GenerateTokenPair (a_jwt A) (a_ks A) (e_jti e) (e_refresh e) (e_now e)
     (u_ID u) (u_Email u) (u_Locale u) (u_Roles u) (perms_of e (u_ID u) w) AccessTTL"

definition login_alert :: "('r, 'k, 'p, 't, 'o, 'c) auth_service \<Rightarrow> user \<Rightarrow> string \<Rightarrow> alert" where
  "login_alert A u ip = \<lparr>al_to = u_Email u, al_type = ''new_login'', al_ip = ip, al_location = alert_location (c_geoip A) ip,
     al_details = ''A new session was started from IP '' @ ip @
       ''. If this was not you, revoke all sessions from your settings page.''\<rparr>"

definition completeLogin :: "('r, 'k, 'p, 't, 'o, 'c) auth_service \<Rightarrow> auth_env \<Rightarrow> user \<Rightarrow> string \<Rightarrow> string \<Rightarrow> device_info \<Rightarrow> bool \<Rightarrow>
    'r auth_world \<Rightarrow> 'r auth_world \<times> (auth_error + 't token_pair)" where
  "completeLogin A e u ip ua info skipLoginAlert w =
    (case issue_pair A e u w of
       Inl er \<Rightarrow> (w, Inl (ErrAuthToken er))
     | Inr pair \<Rightarrow>
       (let maxSessions = setting_int (c_settings A) ''max_sessions_per_user'' 5;
            s1 = fst (RevokeForDevice (e_ok e CallRevokeDevice) (e_sqlnow e) (u_ID u) ip ua info (w_sess w)
                   :: session_repo \<times> (unit repo_error + unit));
            s2 = fst (EvictExcessSessions (e_ok e CallEvict) (u_ID u) (maxSessions - 1) s1
                   :: session_repo \<times> (unit repo_error + unit))
        in case Create (e_ok e CallCreate) (e_newid e) (e_sqlnow e) (u_ID u) (hashToken (c_sha A) (RefreshToken pair)) ip ua info
              (e_now e + sessionAbsoluteTimeout (c_settings A)) s2 of
             (s3, (Inl er :: unit repo_error + unit)) \<Rightarrow> (w\<lparr>w_sess := s3\<rparr>, Inl ErrSession)
           | (s3, Inr _) \<Rightarrow>
             (w\<lparr>w_sess := s3, w_mail := w_mail w @
                 (if \<not> skipLoginAlert \<and> c_mailer A \<and> u_NotifySecurityEmails u then [login_alert A u ip] else [])\<rparr>, Inr pair)))"

section \<open>Login\<close>

text \<open>Running an operation of the MFA service on the world.\<close>

definition with_mfa :: "('r mfa_world \<Rightarrow> 'r mfa_world \<times> 'a) \<Rightarrow> 'r auth_world \<Rightarrow> 'r auth_world \<times> 'a" where
  "with_mfa f w = (case f \<lparr>mfa_tb = w_mfa w, mfa_rd = w_rd w\<rparr> of
     (m, x) \<Rightarrow> (w\<lparr>w_mfa := mfa_tb m, w_rd := mfa_rd m\<rparr>, x))"

definition risk_alert :: "('r, 'k, 'p, 't, 'o, 'c) auth_service \<Rightarrow> user \<Rightarrow> string \<Rightarrow> string \<Rightarrow> string \<Rightarrow> alert" where
  "risk_alert A u ip typ details = \<lparr>al_to = u_Email u, al_type = typ, al_ip = ip,
     al_location = alert_location (c_geoip A) ip, al_details = details\<rparr>"

text \<open>The part of \<open>Login\<close> that parks the login until the second factor: forced enrolment first, then the
  pending document.\<close>

definition park_login :: "('r, 'k, 'p, 't, 'o, 'c) auth_service \<Rightarrow> auth_env \<Rightarrow> user \<Rightarrow> string \<Rightarrow> string \<Rightarrow> device_info \<Rightarrow>
    bool \<Rightarrow> bool \<Rightarrow> bool \<Rightarrow> int \<times> string \<times> string \<Rightarrow> 'r auth_world \<Rightarrow> 'r auth_world \<times> (auth_error + 't login_result)" where
  "park_login A e u ip ua info totp webauthn force risk w =
    (case c_rdb A of
       None \<Rightarrow> (w, Inl ErrPendingStore)
     | Some R \<Rightarrow>
       (case e_pending e of
          None \<Rightarrow> (w, Inl ErrRandomSource)
        | Some b \<Rightarrow>
          (case (case a_mfa A of
                   Some M \<Rightarrow> if force then with_mfa (Setup M (e_setup e) (e_mfa_ok e) (e_now e) (u_ID u) '''') w
                             else (w, Inr ('''', '''', []))
                 | None \<Rightarrow> (w, Inr ('''', '''', []))) of
             (w1, Inl er) \<Rightarrow> (w1, Inl (ErrMFA er))
           | (w1, Inr (url, secret, codes)) \<Rightarrow>
             (case rSet R (w_rd w1) (e_now e) (mfaPendingKey (hashToken (c_sha A) (hex_encode b)))
                 (RDoc \<lparr>p_uid = u_ID u, p_ip = ip, p_ua = ua, p_device = info, p_setup_secret = secret,
                    p_setup_url = url, p_recovery = codes\<rparr>) mfaPendingTTL of
                (s', ROk _) \<Rightarrow> (w1\<lparr>w_rd := s'\<rparr>, Inr \<lparr>lr_Pair = None, lr_MFARequired = True, lr_PendingToken = hex_encode b,
                   lr_SetupSecret = secret, lr_SetupURL = url, lr_RecoveryCodes = codes, lr_TOTP = totp \<or> force,
                   lr_WebAuthn = webauthn, lr_AnomalyType = fst (snd risk), lr_AnomalyDetails = snd (snd risk),
                   lr_RiskScore = fst risk\<rparr>)
              | (s', _) \<Rightarrow> (w1\<lparr>w_rd := s'\<rparr>, Inl ErrSession)))))"

text \<open>What \<open>Login\<close> does once the password is accepted.\<close>

definition after_password :: "('r, 'k, 'p, 't, 'o, 'c) auth_service \<Rightarrow> auth_env \<Rightarrow> string \<Rightarrow> user \<Rightarrow> string \<Rightarrow> string \<Rightarrow> device_info \<Rightarrow>
    'r auth_world \<Rightarrow> 'r auth_world \<times> (auth_error + 't login_result)" where
  "after_password A e email u ip ua info w =
    (let risk = calculateRiskScore A (e_ok e CallActive) (e_sqlnow e) (e_now e) (e_hour e) (u_ID u) (u_Email u) ip ua info
           (w_sess w) (w_rd w);
         score = fst risk;
         w1 = clearFailedAttempts A (e_now e) email w;
         enabled = setting_bool (c_settings A) ''risk_based_auth_enabled'' False;
         w2 = (if score > 0 \<and> c_mailer A \<and> u_NotifySecurityEmails u \<and> score \<ge> 30
               then w1\<lparr>w_mail := w_mail w1 @ [risk_alert A u ip (fst (snd risk)) (snd (snd risk))]\<rparr> else w1)
     in if enabled \<and> score \<ge> setting_int (c_settings A) ''risk_threshold_block'' 80 then (w2, Inl (ErrRiskBlocked score))
        else
          (let riskMFA = (enabled \<and> score \<ge> setting_int (c_settings A) ''risk_threshold_mfa'' 40);
               globalMFA = setting_bool (c_settings A) ''global_mfa_required'' False;
               totp = (a_mfa A \<noteq> None \<and> IsEnabled (e_mfa_ok e CallIsEnabled) (u_ID u) (w_mfa w2));
               webauthn = (case a_webauthn A of None \<Rightarrow> False | Some v \<Rightarrow> wa_HasCredentials v (u_ID u));
               force = (a_mfa A \<noteq> None \<and> (globalMFA \<or> riskMFA) \<and> \<not> totp \<and> \<not> webauthn)
           in if totp \<or> webauthn \<or> force then park_login A e u ip ua info totp webauthn force risk w2
              else (case completeLogin A e u ip ua info (score > 0) w2 of
                  (w3, Inl er) \<Rightarrow> (w3, Inl er)
                | (w3, Inr pair) \<Rightarrow> (w3, Inr \<lparr>lr_Pair = Some pair, lr_MFARequired = False, lr_PendingToken = '''',
                    lr_SetupSecret = '''', lr_SetupURL = '''', lr_RecoveryCodes = [], lr_TOTP = False, lr_WebAuthn = False,
                    lr_AnomalyType = fst (snd risk), lr_AnomalyDetails = snd (snd risk), lr_RiskScore = score\<rparr>))))"

definition Login :: "('r, 'k, 'p, 't, 'o, 'c) auth_service \<Rightarrow> auth_env \<Rightarrow> string \<Rightarrow> string \<Rightarrow> string \<Rightarrow> string \<Rightarrow> device_info \<Rightarrow>
    'r auth_world \<Rightarrow> 'r auth_world \<times> (auth_error + 't login_result)" where
  "Login A e email password ip ua info w =
    (case access_gate A ip info of
       Some er \<Rightarrow> (w, Inl er)
     | None \<Rightarrow>
       (case checkLockout A (e_now e) email (w_rd w) of
          Some d \<Rightarrow> (w, Inl (ErrAccountLocked d))
        | None \<Rightarrow>
          (case user_FindByEmail (a_enc A) (c_sha A) (e_ok e CallFindEmail) email (w_users w) of
             Inl UserNotFound \<Rightarrow> (recordFailedAttempt A (e_now e) email ip w, Inl ErrInvalidCredentials)
           | Inl er \<Rightarrow> (w, Inl (ErrUser er))
           | Inr u \<Rightarrow>
             (let passwordHash = (if u_IsActive u then u_PasswordHash u else a_dummy A) in
              if \<not> u_IsActive u \<or> \<not> a_bcrypt A passwordHash password
              then (recordFailedAttempt A (e_now e) email ip w, Inl ErrInvalidCredentials)
              else after_password A e email u ip ua info w))))"

section \<open>Second factors\<close>

text \<open>Reading a pending login: an error reply, a missing key or a value that is no such document is refused.\<close>

definition pending_doc :: "pending_login rval reply \<Rightarrow> pending_login option" where
  "pending_doc r = (case r of ROk (RDoc d) \<Rightarrow> Some d | _ \<Rightarrow> None)"

definition finish_for :: "('r, 'k, 'p, 't, 'o, 'c) auth_service \<Rightarrow> auth_env \<Rightarrow> string \<Rightarrow> string \<Rightarrow> string \<Rightarrow> device_info \<Rightarrow>
    'r auth_world \<Rightarrow> 'r auth_world \<times> (auth_error + 't token_pair)" where
  "finish_for A e uid ip ua info w =
    (case findByID A e uid w of
       Inl _ \<Rightarrow> (w, Inl ErrInvalidCredentials)
     | Inr u \<Rightarrow> if \<not> u_IsActive u then (w, Inl ErrInvalidCredentials) else completeLogin A e u ip ua info False w)"

definition MFAChallenge :: "('r, 'k, 'p, 't, 'o, 'c) auth_service \<Rightarrow> ('r, pending_login) redis \<Rightarrow> auth_env \<Rightarrow> string \<Rightarrow> string \<Rightarrow>
    'r auth_world \<Rightarrow> 'r auth_world \<times> (auth_error + 't token_pair)" where
  "MFAChallenge A R e pendingToken totpCode w =
    (case rGetDel R (w_rd w) (e_now e) (mfaPendingKey (hashToken (c_sha A) pendingToken)) of
       (s1, rep) \<Rightarrow>
         (let w1 = w\<lparr>w_rd := s1\<rparr> in
          case pending_doc rep of
            None \<Rightarrow> (w1, Inl ErrInvalidCredentials)
          | Some m \<Rightarrow>
            (case a_mfa A of
               None \<Rightarrow> (w1, Inl ErrInvalidCredentials)
             | Some M \<Rightarrow>
               (case (if p_setup_secret m \<noteq> ''''
                      then (case with_mfa (VerifyAndEnable M (e_mfa_ok e) (e_now e) (p_uid m) totpCode) w1 of
                              (w2, r) \<Rightarrow> (w2, is_ok r))
                      else with_mfa (Validate M (e_mfa_ok e) (e_now e) (p_uid m) totpCode) w1) of
                  (w2, False) \<Rightarrow> (w2, Inl ErrInvalidCredentials)
                | (w2, True) \<Rightarrow> finish_for A e (p_uid m) (p_ip m) (p_ua m) (p_device m) w2))))"

definition peekPendingUID :: "('r, 'k, 'p, 't, 'o, 'c) auth_service \<Rightarrow> ('r, pending_login) redis \<Rightarrow> auth_env \<Rightarrow> string \<Rightarrow>
    'r auth_world \<Rightarrow> string option" where
  "peekPendingUID A R e pendingToken w =
     map_option p_uid (pending_doc (rGet R (w_rd w) (e_now e) (mfaPendingKey (hashToken (c_sha A) pendingToken))))"

definition WebAuthnLoginBegin :: "('r, 'k, 'p, 't, 'o, 'c) auth_service \<Rightarrow> ('r, pending_login) redis \<Rightarrow> auth_env \<Rightarrow> string \<Rightarrow>
    'r auth_world \<Rightarrow> 'r auth_world \<times> (auth_error + 'o)" where
  "WebAuthnLoginBegin A R e pendingToken w =
    (case a_webauthn A of
       None \<Rightarrow> (w, Inl ErrInvalidCredentials)
     | Some v \<Rightarrow>
       (case peekPendingUID A R e pendingToken w of
          None \<Rightarrow> (w, Inl ErrInvalidCredentials)
        | Some uid \<Rightarrow> (case wa_BeginLogin v uid (w_rd w) of
            (s', None) \<Rightarrow> (w\<lparr>w_rd := s'\<rparr>, Inl ErrInvalidCredentials)
          | (s', Some opts) \<Rightarrow> (w\<lparr>w_rd := s'\<rparr>, Inr opts))))"

definition WebAuthnLoginFinish :: "('r, 'k, 'p, 't, 'o, 'c) auth_service \<Rightarrow> ('r, pending_login) redis \<Rightarrow> auth_env \<Rightarrow> string \<Rightarrow> 'c \<Rightarrow>
    'r auth_world \<Rightarrow> 'r auth_world \<times> (auth_error + 't token_pair)" where
  "WebAuthnLoginFinish A R e pendingToken credential w =
    (case a_webauthn A of
       None \<Rightarrow> (w, Inl ErrInvalidCredentials)
     | Some v \<Rightarrow>
       (let key = mfaPendingKey (hashToken (c_sha A) pendingToken) in
        case pending_doc (rGet R (w_rd w) (e_now e) key) of
          None \<Rightarrow> (w, Inl ErrInvalidCredentials)
        | Some m \<Rightarrow>
          (case wa_FinishLogin v (p_uid m) credential (w_rd w) of
             (s1, False) \<Rightarrow> (w\<lparr>w_rd := s1\<rparr>, Inl ErrInvalidCredentials)
           | (s1, True) \<Rightarrow>
             finish_for A e (p_uid m) (p_ip m) (p_ua m) (p_device m) (w\<lparr>w_rd := fst (rDel R s1 (e_now e) [key])\<rparr>))))"

definition WebAuthnPasswordlessBegin :: "('r, 'k, 'p, 't, 'o, 'c) auth_service \<Rightarrow> 'r auth_world \<Rightarrow> 'r auth_world \<times> (auth_error + 'o)" where
  "WebAuthnPasswordlessBegin A w =
    (case a_webauthn A of
       None \<Rightarrow> (w, Inl ErrInvalidCredentials)
     | Some v \<Rightarrow> (case wa_BeginDiscoverable v (w_rd w) of
         (s', None) \<Rightarrow> (w\<lparr>w_rd := s'\<rparr>, Inl ErrInvalidCredentials)
       | (s', Some opts) \<Rightarrow> (w\<lparr>w_rd := s'\<rparr>, Inr opts)))"

definition WebAuthnPasswordlessFinish :: "('r, 'k, 'p, 't, 'o, 'c) auth_service \<Rightarrow> auth_env \<Rightarrow> string \<Rightarrow> 'c \<Rightarrow> string \<Rightarrow> string \<Rightarrow>
    device_info \<Rightarrow> 'r auth_world \<Rightarrow> 'r auth_world \<times> (auth_error + 't token_pair)" where
  "WebAuthnPasswordlessFinish A e ceremonyID credential ip ua info w =
    (case access_gate A ip info of
       Some er \<Rightarrow> (w, Inl er)
     | None \<Rightarrow>
       (case a_webauthn A of
          None \<Rightarrow> (w, Inl ErrInvalidCredentials)
        | Some v \<Rightarrow>
          (case wa_FinishDiscoverable v ceremonyID credential (w_rd w) of
             (s1, None) \<Rightarrow> (w\<lparr>w_rd := s1\<rparr>, Inl ErrInvalidCredentials)
           | (s1, Some uid) \<Rightarrow> finish_for A e uid ip ua info (w\<lparr>w_rd := s1\<rparr>))))"

section \<open>Refresh\<close>

text \<open>The callback that \<open>RefreshTokens\<close> runs under the row lock; every refusal is \<open>ErrInvalidToken\<close>.\<close>

definition refresh_generate :: "('r, 'k, 'p, 't, 'o, 'c) auth_service \<Rightarrow> auth_env \<Rightarrow> string \<Rightarrow> string \<Rightarrow> device_info \<Rightarrow> 'r auth_world \<Rightarrow>
    string \<Rightarrow> instant \<Rightarrow> instant \<Rightarrow> token_error + (string \<times> string \<times> string \<times> device_info \<times> instant) \<times> 't token_pair" where
  "refresh_generate A e ip ua info w userID lastActiveAt currentExpiresAt =
    (case findByID A e userID w of
       Inl _ \<Rightarrow> Inl ErrInvalidToken
     | Inr u \<Rightarrow>
       if \<not> u_IsActive u then Inl ErrInvalidToken
       else
         (let idleLimit = (if hasAdminRole (u_Roles u) then adminSessionIdleTimeout (c_settings A)
                else sessionIdleTimeout (c_settings A)) in
          if idleLimit > 0 \<and> e_now e - lastActiveAt > idleLimit then Inl ErrInvalidToken
          else if \<not> e_now e < currentExpiresAt then Inl ErrInvalidToken
          else case issue_pair A e u w of
              Inl er \<Rightarrow> Inl er
            | Inr p \<Rightarrow> Inr ((hashToken (c_sha A) (RefreshToken p), ip, ua, info, currentExpiresAt), p)))"

definition RefreshTokens :: "('r, 'k, 'p, 't, 'o, 'c) auth_service \<Rightarrow> auth_env \<Rightarrow> string \<Rightarrow> string \<Rightarrow> string \<Rightarrow> device_info \<Rightarrow>
    'r auth_world \<Rightarrow> 'r auth_world \<times> (auth_error + 't token_pair)" where
  "RefreshTokens A e refreshToken ip ua info w =
    (let tokenHash = hashToken (c_sha A) refreshToken in
     case RotateSession (e_ok e CallRotate) (e_newid e) (e_sqlnow e) tokenHash (refresh_generate A e ip ua info w) (w_sess w) of
       (s', Inr pair) \<Rightarrow> (w\<lparr>w_sess := s'\<rparr>, Inr pair)
     | (s', Inl _) \<Rightarrow>
       (case (CheckReuse (e_ok e CallReuse) (e_sqlnow e) tokenHash s' :: unit repo_error + string) of
          Inl _ \<Rightarrow> (w\<lparr>w_sess := s'\<rparr>, Inl (ErrAuthToken ErrInvalidToken))
        | Inr userID \<Rightarrow>
          if userID = '''' then (w\<lparr>w_sess := s'\<rparr>, Inl (ErrAuthToken ErrInvalidToken))
          else (case fst (RevokeAllForUser (e_ok e CallRevokeAll) (a_oidc A) userID (s', w_rd w)
                   :: (session_repo \<times> 'r) \<times> (unit repo_error + unit)) of
              (s'', rd) \<Rightarrow> (w\<lparr>w_sess := s'', w_rd := rd\<rparr>, Inl (ErrAuthToken ErrInvalidToken)))))"

section \<open>Machine clients, logout, revocation\<close>

definition ClientCredentials :: "('r, 'k, 'p, 't, 'o, 'c) auth_service \<Rightarrow> sa_store \<Rightarrow> auth_env \<Rightarrow> string \<Rightarrow> string \<Rightarrow> string \<Rightarrow>
    auth_error + 't \<times> int" where
  "ClientCredentials A st e clientID secret dpopJKT =
    (case sa_FindByClientID st clientID of
       None \<Rightarrow> Inl ErrInvalidCredentials
     | Some sa \<Rightarrow>
       if \<not> sa_IsActive sa then Inl ErrInactiveUser
       else if (case sa_ExpiresAt sa of None \<Rightarrow> False | Some x \<Rightarrow> x < e_now e) then Inl ErrInactiveUser
       else
         (let secretValid = (sa_CheckSecret st (sa_SecretHash sa) secret \<or>
                (case (sa_OldSecretHash sa, sa_OldExpiresAt sa) of
                   (Some old, Some x) \<Rightarrow> e_now e < x \<and> sa_CheckSecret st old secret
                 | _ \<Rightarrow> False))
          in if \<not> secretValid then Inl ErrInvalidCredentials
             else case GenerateServiceToken (a_jwt A) (a_ks A) (e_jti e) (e_now e) clientID (sa_Name sa) (sa_Scopes sa)
                 serviceTokenTTL dpopJKT of
               Inl er \<Rightarrow> Inl (ErrAuthToken er) | Inr r \<Rightarrow> Inr r))"

definition revokeJTI :: "('r, 'd, 'm) guard_cfg_scheme \<Rightarrow> instant \<Rightarrow> string \<Rightarrow> duration \<Rightarrow> 'r \<Rightarrow> 'r" where
  "revokeJTI C now jti ttl s = (case c_rdb C of None \<Rightarrow> s
     | Some R \<Rightarrow> if ttl > 0 then fst (rSet R s now (jtiBlocklistKey jti) (RStr ''1'') ttl) else s)"

definition until_expiry :: "auth_env \<Rightarrow> claims \<Rightarrow> duration" where
  "until_expiry e c = ExpiresAt c * go_second - e_now e"

definition RevokeAccessToken :: "('r, 'k, 'p, 't, 'o, 'c) auth_service \<Rightarrow> auth_env \<Rightarrow> 't \<Rightarrow> 'r auth_world \<Rightarrow> 'r auth_world" where
  "RevokeAccessToken A e tok w =
    (case ValidateOIDCAccessToken (a_jwt A) (a_ks A) (e_now e) tok of
       Inl _ \<Rightarrow> w | Inr c \<Rightarrow> w\<lparr>w_rd := revokeJTI A (e_now e) (JTI c) (until_expiry e c) (w_rd w)\<rparr>)"

text \<open>An absent access token is \<open>None\<close>.\<close>

definition Logout :: "('r, 'k, 'p, 't, 'o, 'c) auth_service \<Rightarrow> auth_env \<Rightarrow> string \<Rightarrow> 't option \<Rightarrow> 'r auth_world \<Rightarrow> 'r auth_world" where
  "Logout A e refreshToken accessToken w =
    (let w1 = (if refreshToken \<noteq> ''''
           then w\<lparr>w_sess := fst (Revoke (e_ok e CallRevoke) (e_sqlnow e) (hashToken (c_sha A) refreshToken) (w_sess w)
                  :: session_repo \<times> (unit repo_error + unit))\<rparr>
           else w)
     in case accessToken of
          None \<Rightarrow> w1
        | Some tok \<Rightarrow> (case ValidateAccessToken (a_jwt A) (a_ks A) (e_now e) tok of
            Inl _ \<Rightarrow> w1 | Inr c \<Rightarrow> w1\<lparr>w_rd := revokeJTI A (e_now e) (JTI c) (until_expiry e c) (w_rd w1)\<rparr>))"

definition ConsumeDPoPProof :: "('r, 'd, 'm) guard_cfg_scheme \<Rightarrow> instant \<Rightarrow> string \<Rightarrow> 'r \<Rightarrow> 'r \<times> (auth_error + unit)" where
  "ConsumeDPoPProof C now jti s =
    (case c_rdb C of
       None \<Rightarrow> (s, Inr ())
     | Some R \<Rightarrow>
       if jti = '''' then (s, Inr ())
       else (case rSetNX R s now (dpopJTIKey jti) (RStr ''1'') dpopReplayWindow of
           (s', ROk fresh) \<Rightarrow> (s', if fresh then Inr () else Inl ErrDPoPReplay)
         | (s', _) \<Rightarrow> (s', Inr ())))"

definition IsRevoked :: "('r, 'd, 'm) guard_cfg_scheme \<Rightarrow> instant \<Rightarrow> string \<Rightarrow> 'r \<Rightarrow> bool" where
  "IsRevoked C now jti s = (case c_rdb C of None \<Rightarrow> False
     | Some R \<Rightarrow> (case rExists R s now (jtiBlocklistKey jti) of ROk n \<Rightarrow> n > 0 | _ \<Rightarrow> False))"

section \<open>Evaluating a presented token\<close>

text \<open>\<open>stringSlicesEqual\<close>: count the first slice into a map, then consume it with the second.\<close>

fun consume_counts :: "(string \<Rightarrow> nat) \<Rightarrow> string list \<Rightarrow> bool" where
  "consume_counts m [] = True"
| "consume_counts m (v # vs) = (if m v = 0 then False else consume_counts (m(v := m v - 1)) vs)"

definition stringSlicesEqual :: "string list \<Rightarrow> string list \<Rightarrow> bool" where
  "stringSlicesEqual s1 s2 = (if length s1 \<noteq> length s2 then False
     else consume_counts (foldl (\<lambda>m v. m(v := m v + 1)) (\<lambda>_. 0) s1) s2)"

definition EvaluateAccess :: "('r, 'k, 'p, 't, 'o, 'c) auth_service \<Rightarrow> auth_env \<Rightarrow> claims \<Rightarrow> string \<Rightarrow> device_info \<Rightarrow>
    'r auth_world \<Rightarrow> auth_error option" where
  "EvaluateAccess A e c ip info w =
    (if IsRevoked A (e_now e) (JTI c) (w_rd w) then Some (ErrAuthToken ErrInvalidToken)
     else case access_gate A ip info of
       Some er \<Rightarrow> Some er
     | None \<Rightarrow>
       if SubType c = SubTypeUser then
         (case findByID A e (UserID c) w of
            Inl _ \<Rightarrow> Some (ErrAuthToken ErrInvalidToken)
          | Inr u \<Rightarrow> if \<not> u_IsActive u then Some ErrInactiveUser
              else if \<not> stringSlicesEqual (Roles c) (u_Roles u) then Some (ErrAuthToken ErrInvalidToken) else None)
       else if SubType c = SubTypeService then
         (case a_sa A of
            None \<Rightarrow> None
          | Some st \<Rightarrow>
            (case sa_FindByClientID st (ClientID c) of
               None \<Rightarrow> Some (ErrAuthToken ErrInvalidToken)
             | Some sa \<Rightarrow> if \<not> sa_IsActive sa then Some (ErrAuthToken ErrInvalidToken)
                 else if \<not> stringSlicesEqual (Scopes c) (sa_Scopes sa) then Some (ErrAuthToken ErrInvalidToken) else None))
       else Some (ErrAuthToken ErrInvalidToken))"

section \<open>Facts\<close>

lemma counts_foldl: "foldl (\<lambda>m v. m(v := m v + 1)) m vs = (\<lambda>x. m x + count (mset vs) x)"
  by (induction vs arbitrary: m) (auto simp: fun_eq_iff)

lemma consume_counts_iff: "consume_counts m vs \<longleftrightarrow> (\<forall>x. count (mset vs) x \<le> m x)"
proof (induction vs arbitrary: m)
  case (Cons v vs)
  show ?case
  proof (cases "m v = 0")
    case True
    then show ?thesis by (auto intro!: exI [of _ v])
  next
    case False
    then have "(\<forall>x. count (mset vs) x \<le> (m(v := m v - 1)) x) \<longleftrightarrow> (\<forall>x. count (mset (v # vs)) x \<le> m x)"
      by (auto simp: le_diff_conv split: if_splits)
    with False Cons show ?thesis by simp
  qed
qed simp

lemma stringSlicesEqual_mset: "stringSlicesEqual a b \<longleftrightarrow> mset a = mset b"
proof
  assume *: "stringSlicesEqual a b"
  then have "mset b \<subseteq># mset a" and "size (mset a) = size (mset b)"
    unfolding stringSlicesEqual_def counts_foldl consume_counts_iff by (auto simp: subseteq_mset_def split: if_splits)
  then show "mset a = mset b"
    by (metis mset_subset_size order_less_irrefl subset_mset.le_imp_less_or_eq)
next
  assume eq: "mset a = mset b"
  have "length a = length b" by (rule mset_eq_length [OF eq])
  then show "stringSlicesEqual a b"
    unfolding stringSlicesEqual_def counts_foldl consume_counts_iff eq by simp
qed

text \<open>What a successful \<open>completeLogin\<close> did, step by step.\<close>

lemma completeLogin_ok:
  assumes "completeLogin A e u ip ua info skip w = (w', Inr pair)"
  obtains s1 s2 s3 and r1 r2 :: "unit repo_error + unit"
  where "issue_pair A e u w = Inr pair"
    "RevokeForDevice (e_ok e CallRevokeDevice) (e_sqlnow e) (u_ID u) ip ua info (w_sess w) = (s1, r1)"
    "EvictExcessSessions (e_ok e CallEvict) (u_ID u) (setting_int (c_settings A) ''max_sessions_per_user'' 5 - 1) s1 = (s2, r2)"
    "Create (e_ok e CallCreate) (e_newid e) (e_sqlnow e) (u_ID u) (hashToken (c_sha A) (RefreshToken pair)) ip ua info
       (e_now e + sessionAbsoluteTimeout (c_settings A)) s2 = (s3, (Inr () :: unit repo_error + unit))"
    "w_sess w' = s3" "w_rd w' = w_rd w" "w_users w' = w_users w" "w_mfa w' = w_mfa w"
proof -
  from assms obtain s3 x where ip: "issue_pair A e u w = Inr pair"
    and cr: "Create (e_ok e CallCreate) (e_newid e) (e_sqlnow e) (u_ID u) (hashToken (c_sha A) (RefreshToken pair)) ip ua info
       (e_now e + sessionAbsoluteTimeout (c_settings A))
       (fst (EvictExcessSessions (e_ok e CallEvict) (u_ID u) (setting_int (c_settings A) ''max_sessions_per_user'' 5 - 1)
         (fst (RevokeForDevice (e_ok e CallRevokeDevice) (e_sqlnow e) (u_ID u) ip ua info (w_sess w)
            :: session_repo \<times> (unit repo_error + unit))) :: session_repo \<times> (unit repo_error + unit)))
       = (s3, (Inr x :: unit repo_error + unit))"
    and w': "w_sess w' = s3" "w_rd w' = w_rd w" "w_users w' = w_users w" "w_mfa w' = w_mfa w"
    by (auto simp: completeLogin_def Let_def split: sum.splits prod.splits)
  show ?thesis
    by (rule that [OF ip surjective_pairing surjective_pairing _ w']) (use cr in simp)
qed

lemma issue_pair_ok:
  assumes "issue_pair A e u w = Inr pair"
  obtains b where "e_refresh e = Some b" "RefreshToken pair = hex_encode b"
    "Sign (a_jwt A) (a_ks A) (session_claims (e_jti e) (e_now e) (u_ID u) (u_Email u) (u_Locale u) (u_Roles u)
       (perms_of e (u_ID u) w) AccessTTL) = Inr (AccessToken pair)"
  using assms by (auto simp: issue_pair_def GenerateTokenPair_def split: sum.splits option.splits)

lemma findByID_active:
  assumes "findByID A e uid w = Inr u"
  shows "u_ID u = uid \<and> (\<exists>r \<in> set (users (w_users w)). us_id r = uid \<and> us_active r = u_IsActive u)"
  using assms
  by (auto simp: findByID_def user_FindByID_def load_user_def decryptUser_def scan_user_def
      split: if_splits option.splits dest!: sql_first_Some)

lemma finish_for_ok:
  assumes "finish_for A e uid ip ua info w = (w', Inr pair)"
  obtains u where "findByID A e uid w = Inr u" "u_ID u = uid" "u_IsActive u" "completeLogin A e u ip ua info False w = (w', Inr pair)"
  using assms findByID_active by (fastforce simp: finish_for_def split: sum.splits if_splits)

lemma park_login_ok:
  assumes "park_login A e u ip ua info totp wa force risk w = (w', Inr r)"
  shows "lr_Pair r = None \<and> lr_MFARequired r \<and> w_sess w' = w_sess w"
  using assms
  by (auto simp: park_login_def with_mfa_def split: option.splits prod.splits sum.splits reply.splits if_splits)

lemma with_mfa_sess: "with_mfa f w = (w', x) \<Longrightarrow> w_sess w' = w_sess w \<and> w_users w' = w_users w"
  by (auto simp: with_mfa_def split: prod.splits)

lemma clearFailed_world [simp]:
  "w_sess (clearFailedAttempts C t email w) = w_sess w" "w_mfa (clearFailedAttempts C t email w) = w_mfa w"
  "w_users (clearFailedAttempts C t email w) = w_users w" "w_mail (clearFailedAttempts C t email w) = w_mail w"
  by (auto simp: clearFailedAttempts_def split: option.splits)

lemma recordFailed_world [simp]:
  "w_sess (recordFailedAttempt C t email ip w) = w_sess w" "w_mfa (recordFailedAttempt C t email ip w) = w_mfa w"
  "w_users (recordFailedAttempt C t email ip w) = w_users w"
  by (auto simp: recordFailedAttempt_def Let_def split: option.splits prod.splits)

lemma refresh_generate_ok:
  assumes "refresh_generate A e ip ua info w uid la ex = Inr (x, pair)"
  obtains u where "findByID A e uid w = Inr u" "u_ID u = uid" "u_IsActive u" "issue_pair A e u w = Inr pair"
    "x = (hashToken (c_sha A) (RefreshToken pair), ip, ua, info, ex)" "e_now e < ex"
    "0 < (if hasAdminRole (u_Roles u) then adminSessionIdleTimeout (c_settings A) else sessionIdleTimeout (c_settings A)) \<longrightarrow>
      e_now e - la \<le> (if hasAdminRole (u_Roles u) then adminSessionIdleTimeout (c_settings A) else sessionIdleTimeout (c_settings A))"
  using assms findByID_active [of A e uid w]
  by (fastforce simp: refresh_generate_def Let_def split: sum.splits if_splits)

lemma completeLogin_effect:
  assumes "completeLogin A e u ip ua info skip w = (w', Inr pair)" "wf_repo (w_sess w)"
  shows "wf_repo (w_sess w')" "w_rd w' = w_rd w" "w_users w' = w_users w" "w_mfa w' = w_mfa w" "issue_pair A e u w = Inr pair"
    "token_view (w_sess w') t (hashToken (c_sha A) (RefreshToken pair)) =
      (if t < e_now e + sessionAbsoluteTimeout (c_settings A)
       then Some (u_ID u, e_now e + sessionAbsoluteTimeout (c_settings A)) else None)"
    "e_ok e CallEvict \<Longrightarrow> 1 \<le> setting_int (c_settings A) ''max_sessions_per_user'' 5 \<Longrightarrow>
      live_count (u_ID u) (w_sess w') \<le> nat (setting_int (c_settings A) ''max_sessions_per_user'' 5)"
proof -
  obtain s1 s2 s3 and r1 r2 :: "unit repo_error + unit" where ip: "issue_pair A e u w = Inr pair"
    and s1: "RevokeForDevice (e_ok e CallRevokeDevice) (e_sqlnow e) (u_ID u) ip ua info (w_sess w) = (s1, r1)"
    and s2: "EvictExcessSessions (e_ok e CallEvict) (u_ID u) (setting_int (c_settings A) ''max_sessions_per_user'' 5 - 1) s1 = (s2, r2)"
    and s3: "Create (e_ok e CallCreate) (e_newid e) (e_sqlnow e) (u_ID u) (hashToken (c_sha A) (RefreshToken pair)) ip ua info
       (e_now e + sessionAbsoluteTimeout (c_settings A)) s2 = (s3, (Inr () :: unit repo_error + unit))"
    and w': "w_sess w' = s3" "w_rd w' = w_rd w" "w_users w' = w_users w" "w_mfa w' = w_mfa w"
    by (rule completeLogin_ok [OF assms(1)])
  have wf1: "wf_repo s1"
    using revoking_ops_rows(2) [OF s1] assms(2) wf_revoking [OF revokingI(1), of s1] by (elim disjE) auto
  have wf2: "wf_repo s2"
    using s2 wf1 wf_revoking [OF revokingI(2)] by (auto simp: EvictExcessSessions_def split: if_splits)
  show "wf_repo (w_sess w')" using Create_view(1) [OF wf2 s3] w' by simp
  show "w_rd w' = w_rd w" "w_users w' = w_users w" "w_mfa w' = w_mfa w" "issue_pair A e u w = Inr pair"
    using w' ip by auto
  show "token_view (w_sess w') t (hashToken (c_sha A) (RefreshToken pair)) =
      (if t < e_now e + sessionAbsoluteTimeout (c_settings A)
       then Some (u_ID u, e_now e + sessionAbsoluteTimeout (c_settings A)) else None)"
    using Create_view(2) [OF wf2 s3] w' by simp
  assume ev: "e_ok e CallEvict" "1 \<le> setting_int (c_settings A) ''max_sessions_per_user'' 5"
  let ?max = "setting_int (c_settings A) ''max_sessions_per_user'' 5"
  have "EvictExcessSessions True (u_ID u) (?max - 1) s1 = (s2, Inr () :: unit repo_error + unit)"
    using s2 ev by (auto simp: EvictExcessSessions_def)
  from Evict_live_count [OF wf1 this] Create_live_count [OF s3] w'(1) ev(2)
  show "live_count (u_ID u) (w_sess w') \<le> nat ?max" by (simp add: nat_diff_distrib)
qed

section \<open>A service for the witnesses\<close>

definition demo_auth :: "(pending_login mem_redis, nat, nat, sym_token, unit, unit) auth_service" where
  "demo_auth = \<lparr>c_rdb = Some mem_server, c_settings = None, c_geoip = None, c_mailer = False, c_sha = bytes_of,
     a_jwt = sym_jwt, a_ks = demo_keys, a_enc = None, a_bcrypt = (\<lambda>h p. h = p), a_dummy = ''x'', a_mfa = None,
     a_webauthn = None, a_sa = None, a_oidc = None\<rparr>"

definition demo_env :: auth_env where
  "demo_env = \<lparr>e_now = 0, e_sqlnow = 0, e_hour = 12, e_ok = (\<lambda>_. True), e_mfa_ok = (\<lambda>_. True), e_pending = Some [1],
     e_refresh = Some [2], e_jti = ''j'', e_newid = ''s1'', e_setup = demo_random\<rparr>"

definition demo_auth_world :: "pending_login mem_redis auth_world" where
  "demo_auth_world = \<lparr>w_rd = \<lparr>mem_kv = (\<lambda>_. None), mem_up = True\<rparr>, w_mail = [], w_sess = empty_repo,
     w_mfa = (\<lambda>_. None), w_users = demo_users\<rparr>"

definition demo_login_user :: user where
  "demo_login_user = (scan_user (demo_user ''a''))\<lparr>u_Roles := [''admin'']\<rparr>"

abbreviation demo_access :: sym_token where
  "demo_access \<equiv> SymToken AlgEdDSA (Some ''k1'') 7
     (session_claims ''j'' 0 ''a'' ''a@x'' ''en'' [''admin''] [''users:read''] go_minute)"

lemma demo_auth_simps [simp]:
  "c_rdb demo_auth = Some mem_server" "c_settings demo_auth = None" "c_geoip demo_auth = None" "\<not> c_mailer demo_auth"
  "c_sha demo_auth = bytes_of" "a_jwt demo_auth = sym_jwt" "a_ks demo_auth = demo_keys" "a_enc demo_auth = None"
  "a_mfa demo_auth = None" "a_webauthn demo_auth = None" "a_sa demo_auth = None" "a_oidc demo_auth = None"
  "a_bcrypt demo_auth h p = (h = p)" "e_now demo_env = 0" "e_sqlnow demo_env = 0" "e_hour demo_env = 12" "e_ok demo_env c"
  "e_mfa_ok demo_env m" "e_jti demo_env = ''j''" "e_newid demo_env = ''s1''" "e_refresh demo_env = Some [2]"
  "w_sess demo_auth_world = empty_repo" "w_users demo_auth_world = demo_users" "w_mail demo_auth_world = []"
  "w_rd demo_auth_world = \<lparr>mem_kv = (\<lambda>_. None), mem_up = True\<rparr>"
  by (simp_all add: demo_auth_def demo_env_def demo_auth_world_def)

lemma demo_getRoles: "getRoles ''a'' demo_users = [''admin'']"
  by (simp add: getRoles_def demo_users_def)

lemma demo_perms: "perms_of demo_env ''a'' w = [''users:read'']" if "w_users w = demo_users"
  using that by (simp add: perms_of_def GetPermissions_def demo_users_def)

lemma demo_find: "findByID demo_auth demo_env ''a'' w = Inr demo_login_user" if "w_users w = demo_users"
  using that by (simp add: findByID_def user_FindByID_def demo_users_def sql_first_def new_row_def load_user_def decryptUser_def
      decrypt_def demo_login_user_def getRoles_def scan_user_def)

lemma demo_issue: "issue_pair demo_auth demo_env demo_login_user w = Inr \<lparr>AccessToken = demo_access, RefreshToken = hex_encode [2]\<rparr>"
  if "w_users w = demo_users"
  using demo_perms [OF that]
  by (simp add: issue_pair_def GenerateTokenPair_def Sign_def demo_keys_def addKey_def NewKeyStore_def sym_jwt_def
      signingMethodFor_def alg_defs demo_login_user_def scan_user_def new_row_def)

definition demo_logged_in :: "pending_login mem_redis auth_world" where
  "demo_logged_in = fst (completeLogin demo_auth demo_env demo_login_user '''' ''ua'' [] False demo_auth_world)"

lemma demo_complete: "completeLogin demo_auth demo_env demo_login_user '''' ''ua'' [] False demo_auth_world =
    (demo_logged_in, Inr \<lparr>AccessToken = demo_access, RefreshToken = hex_encode [2]\<rparr>)"
proof -
  have "snd (completeLogin demo_auth demo_env demo_login_user '''' ''ua'' [] False demo_auth_world) =
      Inr \<lparr>AccessToken = demo_access, RefreshToken = hex_encode [2]\<rparr>"
    by (simp add: completeLogin_def demo_issue RevokeForDevice_def EvictExcessSessions_def Create_def insert_row_def
        empty_repo_def sql_update_def setting_int_def Let_def)
  then show ?thesis by (simp add: demo_logged_in_def prod_eq_iff)
qed

section \<open>Properties\<close>

text \<open>a login stays within the session cap. A successful \<open>completeLogin\<close> leaves the user with at most
  \<open>max_sessions_per_user\<close> unrevoked sessions (the eviction having been executed), keeps the table well-formed
  and makes exactly the returned refresh token usable for that user until the absolute timeout.\<close>

lemma login_respects_session_cap:
  assumes "completeLogin A e u ip ua info skip w = (w', Inr pair)" "wf_repo (w_sess w)" "e_ok e CallEvict"
    and "1 \<le> setting_int (c_settings A) ''max_sessions_per_user'' 5"
  shows "live_count (u_ID u) (w_sess w') \<le> nat (setting_int (c_settings A) ''max_sessions_per_user'' 5) \<and>
    wf_repo (w_sess w') \<and>
    token_view (w_sess w') t (hashToken (c_sha A) (RefreshToken pair)) =
      (if t < e_now e + sessionAbsoluteTimeout (c_settings A)
       then Some (u_ID u, e_now e + sessionAbsoluteTimeout (c_settings A)) else None)"
  using completeLogin_effect [OF assms(1,2)] assms(3,4) by blast

text \<open>C3: refreshing. A successful \<open>RefreshTokens\<close> was presented the token of an unrevoked, unexpired session whose
  user exists, is active and has not exceeded the idle limit of their role since the session was last
  active; afterwards the presented token is dead, the new one is bound to the same user and keeps the
  absolute expiry of the session, and all other tokens are as before.\<close>

theorem refresh_rotates_within_limits:
  assumes "RefreshTokens A e tok ip ua info w = (w', Inr pair)" "wf_repo (w_sess w)"
  shows "\<exists>r u. r \<in> set (rows (w_sess w)) \<and> s_hash r = hashToken (c_sha A) tok \<and> usable (e_sqlnow e) r \<and>
    findByID A e (s_user r) w = Inr u \<and> u_IsActive u \<and> e_now e < s_expires r \<and>
    (let limit = (if hasAdminRole (u_Roles u) then adminSessionIdleTimeout (c_settings A) else sessionIdleTimeout (c_settings A))
     in 0 < limit \<longrightarrow> e_now e - last_active r \<le> limit) \<and> wf_repo (w_sess w') \<and>
    (\<forall>t k. token_view (w_sess w') t k =
      (if k = hashToken (c_sha A) (RefreshToken pair) then (if t < s_expires r then Some (s_user r, s_expires r) else None)
       else if k = hashToken (c_sha A) tok then None else token_view (w_sess w) t k))"
proof -
  let ?g = "refresh_generate A e ip ua info w" and ?h = "hashToken (c_sha A) tok"
  from assms(1) obtain s' where rot: "RotateSession (e_ok e CallRotate) (e_newid e) (e_sqlnow e) ?h ?g (w_sess w) = (s', Inr pair)"
    and w': "w_sess w' = s'"
    by (auto simp: RefreshTokens_def Let_def split: prod.splits sum.splits if_splits)
  obtain r nh ip' ua' d ex' where r: "r \<in> set (rows (w_sess w))" "s_hash r = ?h" "usable (e_sqlnow e) r"
      "token_view (w_sess w) (e_sqlnow e) ?h = Some (s_user r, s_expires r)"
    and g: "?g (s_user r) (last_active r) (s_expires r) = Inr ((nh, ip', ua', d, ex'), pair)" and "nh \<noteq> ?h" and wf': "wf_repo s'"
    and v': "\<And>t k. token_view s' t k = (if k = nh then (if t < ex' then Some (s_user r, ex') else None)
       else if k = ?h then None else token_view (w_sess w) t k)"
    by (rule RotateSession_row [OF assms(2) rot]) (rule that)
  from g obtain u where u: "findByID A e (s_user r) w = Inr u" "u_IsActive u"
    "nh = hashToken (c_sha A) (RefreshToken pair)" "ex' = s_expires r" "e_now e < s_expires r"
    "0 < (if hasAdminRole (u_Roles u) then adminSessionIdleTimeout (c_settings A) else sessionIdleTimeout (c_settings A)) \<longrightarrow>
      e_now e - last_active r \<le>
        (if hasAdminRole (u_Roles u) then adminSessionIdleTimeout (c_settings A) else sessionIdleTimeout (c_settings A))"
    by (rule refresh_generate_ok) auto
  show ?thesis
    unfolding Let_def w' using r u wf' v' by (intro exI [of _ r] exI [of _ u]) simp
qed

definition demo_env2 :: auth_env where
  "demo_env2 = demo_env\<lparr>e_now := go_minute, e_sqlnow := go_minute, e_refresh := Some [3], e_newid := ''s2''\<rparr>"

lemma demo_env2_simps [simp]: "e_now demo_env2 = go_minute" "e_sqlnow demo_env2 = go_minute" "e_ok demo_env2 c"
  "e_newid demo_env2 = ''s2''" "e_refresh demo_env2 = Some [3]" "e_jti demo_env2 = ''j''"
  by (simp_all add: demo_env2_def)

abbreviation demo_session :: session_row where
  "demo_session \<equiv> \<lparr>s_id = ''s1'', s_user = ''a'', s_hash = hashToken bytes_of (hex_encode [2]), s_ip = parseAddr '''',
     s_ua = ''ua'', s_device = [], s_expires = 8 * go_hour, s_created = 0, s_last = None, s_revoked = False, s_reason = None\<rparr>"

lemma demo_user_id: "u_ID demo_login_user = ''a''"
  by (simp add: demo_login_user_def scan_user_def new_row_def)

lemma demo_logged_in_simps [simp]: "rows (w_sess demo_logged_in) = [demo_session]" "w_users demo_logged_in = demo_users"
  "w_rd demo_logged_in = \<lparr>mem_kv = (\<lambda>_. None), mem_up = True\<rparr>"
proof -
  have "rows (w_sess (fst (completeLogin demo_auth demo_env demo_login_user '''' ''ua'' [] False demo_auth_world))) = [demo_session]"
    by (simp add: completeLogin_def demo_issue RevokeForDevice_def EvictExcessSessions_def Create_def insert_row_def
        empty_repo_def sql_update_def setting_int_def Let_def sessionAbsoluteTimeout_def timeout_setting_def
        normalizeDeviceInfo_def demo_user_id)
  then show "rows (w_sess demo_logged_in) = [demo_session]" by (simp add: demo_logged_in_def)
  show "w_users demo_logged_in = demo_users" "w_rd demo_logged_in = \<lparr>mem_kv = (\<lambda>_. None), mem_up = True\<rparr>"
    using completeLogin_effect(2,3) [OF demo_complete] by (simp_all add: wf_repo_def empty_repo_def)
qed

lemma demo_wf_logged_in: "wf_repo (w_sess demo_logged_in)"
  by (simp add: wf_repo_def)

lemma demo_refresh: "\<exists>w' pair. RefreshTokens demo_auth demo_env2 (hex_encode [2]) '''' ''ua'' [] demo_logged_in = (w', Inr pair)"
proof -
  have find: "findByID demo_auth demo_env2 ''a'' demo_logged_in = Inr demo_login_user"
    using demo_find [of demo_logged_in] by (simp add: findByID_def)
  obtain p where p: "issue_pair demo_auth demo_env2 demo_login_user demo_logged_in = Inr p" "RefreshToken p = hex_encode [3]"
    by (simp add: issue_pair_def GenerateTokenPair_def Sign_def demo_keys_def addKey_def NewKeyStore_def sym_jwt_def)
  have "refresh_generate demo_auth demo_env2 '''' ''ua'' [] demo_logged_in ''a'' 0 (8 * go_hour) =
      Inr ((hashToken bytes_of (hex_encode [3]), '''', ''ua'', [], 8 * go_hour), p)"
    using find p by (simp add: refresh_generate_def demo_login_user_def scan_user_def new_row_def hasAdminRole_def
        adminSessionIdleTimeout_def timeout_setting_def Let_def)
  moreover have "inj (bytes_of :: string \<Rightarrow> bytes)"
    by (rule inj_on_inverseI [where g = string_of]) simp
  then have "hashToken bytes_of (hex_encode [2]) \<noteq> hashToken bytes_of (hex_encode [3])"
    by (simp add: hashToken_inj hex_encode_inj)
  ultimately show ?thesis
    by (simp add: RefreshTokens_def RotateSession_def sql_first_def usable_def last_active_def insert_row_def sql_update_def)
qed

theorem refresh_rotates_within_limits_witness:
  "\<exists>w' pair. RefreshTokens demo_auth demo_env2 (hex_encode [2]) '''' ''ua'' [] demo_logged_in = (w', Inr pair) \<and>
    wf_repo (w_sess w') \<and> token_view (w_sess w') (8 * go_hour) (hashToken bytes_of (RefreshToken pair)) = None"
proof -
  obtain w' pair where run: "RefreshTokens demo_auth demo_env2 (hex_encode [2]) '''' ''ua'' [] demo_logged_in = (w', Inr pair)"
    using demo_refresh by blast
  from refresh_rotates_within_limits [OF run demo_wf_logged_in] run show ?thesis by auto
qed

text \<open>What \<open>RefreshTokens\<close> does with a token that an earlier rotation consumed.\<close>

lemma refresh_replay:
  assumes "wf_repo (w_sess w)" "r \<in> set (rows (w_sess w))" "s_hash r = hashToken (c_sha A) tok" "s_revoked r"
    and "s_reason r = Some ''rotation''" "last_active r \<le> e_sqlnow e - tokenReuseGrace" "s_user r \<noteq> ''''"
    and "e_ok e CallReuse" "e_ok e CallRevokeAll" "RefreshTokens A e tok ip ua info w = (w', res)"
  obtains s' rd and r' :: "unit repo_error + unit" where
    "RevokeAllForUser True (a_oidc A) (s_user r) (w_sess w, w_rd w) = ((s', rd), r')" "w' = w\<lparr>w_sess := s', w_rd := rd\<rparr>"
    "res = Inl (ErrAuthToken ErrInvalidToken)"
proof -
  let ?h = "hashToken (c_sha A) tok"
  have wf: "distinct (map s_hash (rows (w_sess w)))" using assms(1) by (simp add: wf_repo_def)
  have only: "q = r" if "q \<in> set (rows (w_sess w))" "s_hash q = ?h" for q
    using wf assms(2,3) that by (metis distinct_map inj_onD)
  have "sql_first (\<lambda>q. s_hash q = ?h \<and> usable (e_sqlnow e) q) (rows (w_sess w)) = None"
    using only assms(4) by (auto simp: sql_first_None usable_def)
  then have "\<exists>er. RotateSession (e_ok e CallRotate) (e_newid e) (e_sqlnow e) ?h (refresh_generate A e ip ua info w) (w_sess w) =
      (w_sess w, Inl er)"
    by (cases "e_ok e CallRotate") (simp_all add: RotateSession_def)
  then obtain er where rot: "RotateSession (e_ok e CallRotate) (e_newid e) (e_sqlnow e) ?h (refresh_generate A e ip ua info w)
      (w_sess w) = (w_sess w, Inl er)" ..
  have "sql_first (\<lambda>q. s_hash q = ?h \<and> s_revoked q \<and> s_reason q = Some ''rotation'' \<and>
      last_active q \<le> e_sqlnow e - tokenReuseGrace) (rows (w_sess w)) = Some r"
    by (rule find_by_hash [OF wf]) (use assms in auto)
  then have reuse: "(CheckReuse True (e_sqlnow e) ?h (w_sess w) :: unit repo_error + string) = Inr (s_user r)"
    by (simp add: CheckReuse_def)
  obtain s' rd and r' :: "unit repo_error + unit" where
    ra: "RevokeAllForUser True (a_oidc A) (s_user r) (w_sess w, w_rd w) = ((s', rd), r')"
    by (metis surj_pair)
  have "w' = w\<lparr>w_sess := s', w_rd := rd\<rparr>" "res = Inl (ErrAuthToken ErrInvalidToken)"
    using assms(7-10) rot reuse ra by (simp_all add: RefreshTokens_def)
  with ra that show ?thesis by blast
qed

text \<open>C4: no tokens before the second factor. When the password belongs to a user whose TOTP is enabled (and the
  MFA row is read), \<open>Login\<close> returns no token pair but asks for the second factor, and creates no session.\<close>

theorem enabled_mfa_withholds_tokens:
  assumes "Login A e email pw ip ua info w = (w', Inr r)" "a_mfa A = Some M"
    and "user_FindByEmail (a_enc A) (c_sha A) (e_ok e CallFindEmail) email (w_users w) = Inr u"
    and "w_mfa w (u_ID u) = Some rec" "EnabledAt rec \<noteq> None" "e_mfa_ok e CallIsEnabled"
  shows "lr_Pair r = None \<and> lr_MFARequired r \<and> w_sess w' = w_sess w"
proof -
  from assms(1,3) have ap: "after_password A e email u ip ua info w = (w', Inr r)"
    by (auto simp: Login_def Let_def split: option.splits if_splits)
  have en: "IsEnabled True (u_ID u) (w_mfa w)" using assms(4,5) by (simp add: IsEnabled_def)
  from ap obtain wa risk w2 where "park_login A e u ip ua info True wa False risk w2 = (w', Inr r)" "w_sess w2 = w_sess w"
    using assms(2,6) en by (auto simp: after_password_def Let_def split: if_splits)
  with park_login_ok show ?thesis by metis
qed

definition demo_auth_mfa :: "(pending_login mem_redis, nat, nat, sym_token, unit, unit) auth_service" where
  "demo_auth_mfa = demo_auth\<lparr>a_mfa := Some \<lparr>ms_encKey = demo_key 1, ms_prevKeys = [], ms_rdb = Some mem_server,
     ms_gcm = tagged_aead, totp_Validate = (\<lambda>t c s. TrimSpace c = ''123456'' \<and> s = ''AB''), bcrypt_Compare = (\<lambda>h p. h = p)\<rparr>\<rparr>"

lemma demo_auth_mfa_simps [simp]:
  "c_rdb demo_auth_mfa = Some mem_server" "c_settings demo_auth_mfa = None" "c_geoip demo_auth_mfa = None" "\<not> c_mailer demo_auth_mfa"
  "c_sha demo_auth_mfa = bytes_of" "a_jwt demo_auth_mfa = sym_jwt" "a_ks demo_auth_mfa = demo_keys" "a_enc demo_auth_mfa = None"
  "a_webauthn demo_auth_mfa = None" "a_bcrypt demo_auth_mfa h p = (h = p)" "a_mfa demo_auth_mfa \<noteq> None"
  by (simp_all add: demo_auth_mfa_def)

definition demo_mfa_login_world :: "pending_login mem_redis auth_world" where
  "demo_mfa_login_world = demo_auth_world\<lparr>w_mfa := [''a'' \<mapsto> demo_mfa_row], w_users := demo_users\<lparr>users :=
     [(demo_user ''a'')\<lparr>us_email_hash := sha256Hex bytes_of ''a@x''\<rparr>, demo_user ''b'']\<rparr>\<rparr>"

lemma demo_mfa_find: "\<exists>u. user_FindByEmail None bytes_of ok ''a@x'' (w_users demo_mfa_login_world) = Inr u \<and> u_ID u = ''a'' \<and>
    u_IsActive u \<and> u_PasswordHash u = ''h''" if ok
proof -
  have "ToLower (TrimSpace ''a@x'') = ''a@x''" by code_simp
  with that show ?thesis
    by (simp add: user_FindByEmail_def repo_FindByEmail_def demo_mfa_login_world_def sql_first_def load_user_def decryptUser_def
        decrypt_def scan_user_def new_row_def)
qed

lemma demo_not_locked: "checkLockout A 0 email (w_rd demo_mfa_login_world) = None" if "c_rdb A = Some mem_server"
  using that by (simp add: checkLockout_def mem_server_def demo_mfa_login_world_def mem_see_def)

lemma demo_no_risk: "fst (calculateRiskScore demo_auth_mfa ok 0 0 12 uid email ip ua info st (w_rd demo_mfa_login_world)) = 0"
  by (simp add: calculateRiskScore_def Let_def mem_server_def mem_see_def demo_mfa_login_world_def reply_int_def failed_risk_def
      hours_risk_def isWithinSuspiciousHoursWindow_def riskSettingInt_def setting_int_def anomaly_risk_def detectLoginAnomaly_def)

theorem enabled_mfa_withholds_tokens_witness:
  "\<exists>w' r. Login demo_auth_mfa demo_env ''a@x'' ''h'' '''' '''' [] demo_mfa_login_world = (w', Inr r) \<and> lr_Pair r = None \<and>
    lr_MFARequired r \<and> w_sess w' = w_sess demo_mfa_login_world"
proof -
  obtain u where u: "user_FindByEmail None bytes_of True ''a@x'' (w_users demo_mfa_login_world) = Inr u" "u_ID u = ''a''" "u_IsActive u"
    "u_PasswordHash u = ''h''" using demo_mfa_find [of True] by blast
  have row: "w_mfa demo_mfa_login_world (u_ID u) = Some demo_mfa_row" "EnabledAt demo_mfa_row \<noteq> None"
    using u by (simp_all add: demo_mfa_login_world_def demo_mfa_row_def)
  have rd: "w_rd demo_mfa_login_world = \<lparr>mem_kv = (\<lambda>_. None), mem_up = True\<rparr>" by (simp add: demo_mfa_login_world_def)
  obtain M where M: "a_mfa demo_auth_mfa = Some M" by (simp add: demo_auth_mfa_def)
  have pend: "e_pending demo_env = Some [1]" by (simp add: demo_env_def)
  obtain w' r where run: "Login demo_auth_mfa demo_env ''a@x'' ''h'' '''' '''' [] demo_mfa_login_world = (w', Inr r)"
    using u row demo_not_locked [of demo_auth_mfa] demo_no_risk
    by (simp add: Login_def access_gate_def after_password_def Let_def IsEnabled_def setting_bool_def park_login_def M pend
        clearFailedAttempts_def mem_defs rd)
  from enabled_mfa_withholds_tokens [OF this M, of u demo_mfa_row] run u row show ?thesis by simp
qed

text \<open>C15: a failed read of the MFA row counts as "MFA off". If the query behind \<open>IsEnabled\<close> fails while the rest of
  the request succeeds, \<open>Login\<close> returns a token pair on the password alone, whatever the MFA table says.\<close>

theorem mfa_read_error_skips_factor:
  assumes "access_gate A ip info = None" "checkLockout A (e_now e) email (w_rd w) = None"
    and "user_FindByEmail (a_enc A) (c_sha A) (e_ok e CallFindEmail) email (w_users w) = Inr u" "u_IsActive u"
    and "a_bcrypt A (u_PasswordHash u) pw" "c_settings A = None" "a_webauthn A = None" "\<not> e_mfa_ok e CallIsEnabled"
    and "\<And>skip w1. w_sess w1 = w_sess w \<Longrightarrow> w_users w1 = w_users w \<Longrightarrow>
      \<exists>w2 pair. completeLogin A e u ip ua info skip w1 = (w2, Inr pair)"
  shows "\<exists>w' r pair. Login A e email pw ip ua info w = (w', Inr r) \<and> lr_Pair r = Some pair \<and> \<not> lr_MFARequired r"
proof -
  have off: "\<not> IsEnabled (e_mfa_ok e CallIsEnabled) (u_ID u) tb" for tb
    using assms(8) by (simp add: IsEnabled_def find_mfa_def)
  define risk where "risk = calculateRiskScore A (e_ok e CallActive) (e_sqlnow e) (e_now e) (e_hour e) (u_ID u) (u_Email u) ip ua
    info (w_sess w) (w_rd w)"
  define w1 where "w1 = clearFailedAttempts A (e_now e) email w"
  define w2 where "w2 = (if fst risk > 0 \<and> c_mailer A \<and> u_NotifySecurityEmails u \<and> fst risk \<ge> 30
    then w1\<lparr>w_mail := w_mail w1 @ [risk_alert A u ip (fst (snd risk)) (snd (snd risk))]\<rparr> else w1)"
  have "w_sess w2 = w_sess w" "w_users w2 = w_users w" by (simp_all add: w2_def w1_def)
  from assms(9) [OF this] obtain w3 pair where "completeLogin A e u ip ua info (fst risk > 0) w2 = (w3, Inr pair)" by blast
  moreover have "after_password A e email u ip ua info w = (case completeLogin A e u ip ua info (fst risk > 0) w2 of
      (w3, Inl er) \<Rightarrow> (w3, Inl er)
    | (w3, Inr pair) \<Rightarrow> (w3, Inr \<lparr>lr_Pair = Some pair, lr_MFARequired = False, lr_PendingToken = '''',
        lr_SetupSecret = '''', lr_SetupURL = '''', lr_RecoveryCodes = [], lr_TOTP = False, lr_WebAuthn = False,
        lr_AnomalyType = fst (snd risk), lr_AnomalyDetails = snd (snd risk), lr_RiskScore = fst risk\<rparr>))"
    using off assms(6,7) unfolding after_password_def Let_def risk_def [symmetric] w1_def [symmetric] w2_def [symmetric]
    by (simp add: setting_bool_def)
  ultimately show ?thesis using assms(1-5) by (simp add: Login_def Let_def)
qed

theorem mfa_read_error_skips_factor_witness:
  "w_mfa demo_mfa_login_world ''a'' = Some demo_mfa_row \<and> EnabledAt demo_mfa_row \<noteq> None \<and>
   (\<exists>w' r pair. Login demo_auth_mfa (demo_env\<lparr>e_mfa_ok := (\<lambda>_. False)\<rparr>) ''a@x'' ''h'' '''' '''' [] demo_mfa_login_world =
     (w', Inr r) \<and> lr_Pair r = Some pair \<and> \<not> lr_MFARequired r)"
proof (intro conjI)
  let ?e = "demo_env\<lparr>e_mfa_ok := (\<lambda>_. False)\<rparr>"
  show "w_mfa demo_mfa_login_world ''a'' = Some demo_mfa_row" "EnabledAt demo_mfa_row \<noteq> None"
    by (simp_all add: demo_mfa_login_world_def demo_mfa_row_def)
  obtain u where u: "user_FindByEmail None bytes_of True ''a@x'' (w_users demo_mfa_login_world) = Inr u" "u_IsActive u"
    "u_PasswordHash u = ''h''" using demo_mfa_find [of True] by blast
  have sess: "w_sess demo_mfa_login_world = empty_repo" by (simp add: demo_mfa_login_world_def)
  have complete: "\<exists>w2 pair. completeLogin demo_auth_mfa ?e u '''' '''' [] skip w1 = (w2, Inr pair)"
    if "w_sess w1 = w_sess demo_mfa_login_world" for skip w1
  proof -
    obtain pair where "issue_pair demo_auth_mfa ?e u w1 = Inr pair"
      by (simp add: issue_pair_def GenerateTokenPair_def Sign_def demo_keys_def addKey_def NewKeyStore_def sym_jwt_def)
    then show ?thesis
      using that by (simp add: sess completeLogin_def RevokeForDevice_def EvictExcessSessions_def Create_def insert_row_def
          empty_repo_def sql_update_def setting_int_def Let_def)
  qed
  show "\<exists>w' r pair. Login demo_auth_mfa ?e ''a@x'' ''h'' '''' '''' [] demo_mfa_login_world =
     (w', Inr r) \<and> lr_Pair r = Some pair \<and> \<not> lr_MFARequired r"
    by (rule mfa_read_error_skips_factor [where u = u])
      (use u complete demo_not_locked [of demo_auth_mfa] in \<open>simp_all add: access_gate_def\<close>)
qed

text \<open>wrong credentials look the same. For an address that passes the gate and is not locked, an unknown account,
  an inactive account and a wrong password give the same error and the same effect on Redis and mail.\<close>

lemma login_failures_indistinguishable:
  assumes "access_gate A ip info = None" "checkLockout A (e_now e) email (w_rd w) = None"
    and "user_FindByEmail (a_enc A) (c_sha A) (e_ok e CallFindEmail) email (w_users w) = Inl UserNotFound \<or>
      (\<exists>u. user_FindByEmail (a_enc A) (c_sha A) (e_ok e CallFindEmail) email (w_users w) = Inr u \<and>
        (\<not> u_IsActive u \<or> \<not> a_bcrypt A (u_PasswordHash u) pw))"
  shows "Login A e email pw ip ua info w = (recordFailedAttempt A (e_now e) email ip w, Inl ErrInvalidCredentials)"
  using assms by (auto simp: Login_def Let_def)



text \<open>A token pair comes out of \<open>completeLogin\<close>, on the same sessions and users.\<close>

lemma after_password_pair:
  assumes "after_password A e email u ip ua info w = (w', Inr r)" "lr_Pair r = Some pair"
  shows "\<exists>skip w2. completeLogin A e u ip ua info skip w2 = (w', Inr pair) \<and> w_users w2 = w_users w \<and> w_sess w2 = w_sess w"
proof -
  define risk where "risk = calculateRiskScore A (e_ok e CallActive) (e_sqlnow e) (e_now e) (e_hour e) (u_ID u) (u_Email u) ip ua
    info (w_sess w) (w_rd w)"
  define w1 where "w1 = clearFailedAttempts A (e_now e) email w"
  define w2 where "w2 = (if fst risk > 0 \<and> c_mailer A \<and> u_NotifySecurityEmails u \<and> fst risk \<ge> 30
    then w1\<lparr>w_mail := w_mail w1 @ [risk_alert A u ip (fst (snd risk)) (snd (snd risk))]\<rparr> else w1)"
  have w2: "w_sess w2 = w_sess w" "w_users w2 = w_users w" by (simp_all add: w2_def w1_def)
  have no_park: "park_login A e u ip ua info totp wa force risk w2 \<noteq> (w', Inr r)" for totp wa force
    using park_login_ok [of A e u ip ua info totp wa force risk w2 w' r] assms(2) by auto
  obtain w3 res where comp: "completeLogin A e u ip ua info (fst risk > 0) w2 = (w3, res)" by fastforce
  from assms(1) have "w3 = w' \<and> (\<exists>p. res = Inr p \<and> lr_Pair r = Some p)"
    unfolding after_password_def Let_def risk_def [symmetric] w1_def [symmetric] w2_def [symmetric]
    using no_park comp by (auto split: if_splits sum.splits)
  with comp w2 assms(2) show ?thesis by auto
qed

text \<open>C11: logout ends both tokens. After \<open>Logout\<close> with executed statements the refresh token is not accepted at any
  time, and until its expiry the access token's identifier counts as revoked, so that \<open>EvaluateAccess\<close> turns it
  down from any address and device.\<close>

theorem logout_ends_session:
  assumes "redis_laws R see" "c_rdb A = Some R" "wf_repo (w_sess w)" "e_ok e CallRevoke" "rt \<noteq> ''''"
    and "ValidateAccessToken (a_jwt A) (a_ks A) (e_now e) tok = Inr c" "e_now e < ExpiresAt c * go_second"
    and "rSet R (w_rd w) (e_now e) (jtiBlocklistKey (JTI c)) (RStr ''1'') (until_expiry e c) = (s', ROk ())"
    and "e_now e \<le> e_now e'" "e_now e' < ExpiresAt c * go_second"
    and "rExists R (w_rd (Logout A e rt (Some tok) w)) (e_now e') (jtiBlocklistKey (JTI c)) = ROk n"
  shows "token_view (w_sess (Logout A e rt (Some tok) w)) t (hashToken (c_sha A) rt) = None \<and>
    EvaluateAccess A e' c ip info (Logout A e rt (Some tok) w) = Some (ErrAuthToken ErrInvalidToken)"
proof -
  let ?w = "Logout A e rt (Some tok) w" and ?h = "hashToken (c_sha A) rt" and ?k = "jtiBlocklistKey (JTI c)"
  define st where "st = fst (Revoke True (e_sqlnow e) ?h (w_sess w) :: session_repo \<times> (unit repo_error + unit))"
  have pos: "0 < until_expiry e c" using assms(7) by (simp add: until_expiry_def)
  have w: "w_sess ?w = st" "w_rd ?w = s'"
    using assms(2,4-8) pos by (simp_all add: Logout_def Let_def revokeJTI_def st_def)
  have "see s' (e_now e') ?k \<noteq> None"
    using redis_laws.see_set_later [OF assms(1,8) pos assms(9)] assms(10) by (simp add: until_expiry_def)
  with redis_laws.exists_ok [OF assms(1,11)] w have "IsRevoked A (e_now e') (JTI c) (w_rd ?w)"
    using assms(2,11) by (simp add: IsRevoked_def)
  moreover have "token_view st t ?h = None"
  proof -
    obtain r1 :: "unit repo_error + unit" where rev: "Revoke True (e_sqlnow e) ?h (w_sess w) = (st, r1)"
      by (metis st_def prod.collapse)
    show ?thesis
    proof (cases "sql_first (\<lambda>r. s_hash r = ?h \<and> \<not> s_revoked r) (rows (w_sess w))")
      case None
      with rev have "st = w_sess w" by (simp add: Revoke_def)
      with None show ?thesis by (auto simp: token_view_def sql_first_None usable_def)
    next
      case (Some r)
      with rev have "rows st = sql_update (\<lambda>r. s_hash r = ?h \<and> \<not> s_revoked r)
        (\<lambda>r. r\<lparr>s_revoked := True, s_last := Some (e_sqlnow e), s_reason := Some ''logout''\<rparr>) (rows (w_sess w))"
        by (auto simp: Revoke_def)
      from view_revoking [OF assms(3) revokingI(1) this, of t "\<lambda>h u. h = ?h" ?h] show ?thesis
        by (auto simp: usable_def split: option.splits)
    qed
  qed
  ultimately show ?thesis using w by (simp add: EvaluateAccess_def)
qed

theorem logout_ends_session_witness:
  "token_view (w_sess demo_logged_in) 0 (hashToken bytes_of (hex_encode [2])) = Some (''a'', 8 * go_hour) \<and>
   token_view (w_sess (Logout demo_auth demo_env (hex_encode [2]) (Some demo_access) demo_logged_in)) 0
     (hashToken bytes_of (hex_encode [2])) = None"
proof -
  let ?c = "session_claims ''j'' 0 ''a'' ''a@x'' ''en'' [''admin''] [''users:read''] go_minute"
  have valid: "ValidateAccessToken (a_jwt demo_auth) (a_ks demo_auth) (e_now demo_env) demo_access = Inr ?c"
    by (simp add: ValidateAccessToken_def validateToken_def sym_jwt_def keyfunc_def PublicKey_def demo_keys_def
        addKey_def NewKeyStore_def alg_defs session_claims_def numeric_date_def token_consts zero_claims_def)
  have exp: "ExpiresAt ?c = 60" "JTI ?c = ''j''" by (simp_all add: session_claims_def numeric_date_def)
  define s1 where "s1 = mem_put (w_rd demo_logged_in) (jtiBlocklistKey ''j'') (Some (RStr ''1'', Some (60 * go_second)))"
  have set: "rSet mem_server (w_rd demo_logged_in) (e_now demo_env) (jtiBlocklistKey (JTI ?c)) (RStr ''1'') (until_expiry demo_env ?c) =
      (s1, ROk ())"
    by (simp add: mem_defs until_expiry_def exp s1_def)
  have rd: "w_rd (Logout demo_auth demo_env (hex_encode [2]) (Some demo_access) demo_logged_in) = s1"
    using valid set by (simp add: Logout_def Let_def revokeJTI_def until_expiry_def exp)
  have ex: "rExists mem_server (w_rd (Logout demo_auth demo_env (hex_encode [2]) (Some demo_access) demo_logged_in)) (e_now demo_env)
      (jtiBlocklistKey (JTI ?c)) = ROk 1"
    unfolding rd by (simp add: mem_server_def exp s1_def) (simp add: mem_put_def)
  have "hex_encode [2] \<noteq> ''''" by code_simp
  with logout_ends_session [OF mem.redis_laws_axioms _ demo_wf_logged_in _ _ valid _ set _ _ ex, of 0] show ?thesis
    by (simp add: exp token_view_def sql_first_def usable_def)
qed

text \<open>What passing the access evaluation means; unknown subject types never pass.\<close>

lemma EvaluateAccess_None:
  assumes "EvaluateAccess A e c ip info w = None"
  shows "\<not> IsRevoked A (e_now e) (JTI c) (w_rd w) \<and> access_gate A ip info = None \<and>
    ((SubType c = SubTypeUser \<and> (\<exists>u. findByID A e (UserID c) w = Inr u \<and> u_IsActive u \<and> mset (Roles c) = mset (u_Roles u))) \<or>
     (SubType c = SubTypeService \<and> (a_sa A = None \<or> (\<exists>st sa. a_sa A = Some st \<and> sa_FindByClientID st (ClientID c) = Some sa \<and>
        sa_IsActive sa \<and> mset (Scopes c) = mset (sa_Scopes sa)))))"
  using assms
  by (auto simp: EvaluateAccess_def stringSlicesEqual_mset split: if_splits option.splits sum.splits)

text \<open>a fresh login is accepted. The access token that \<open>Login\<close> returns validates at once, carries the user's
  identity and roles, and passes \<open>EvaluateAccess\<close> from the address and device of the login, unless its fresh
  identifier is already on the blocklist.\<close>

lemma fresh_login_is_accepted:
  assumes "jwt_laws (a_jwt A) made" "wf_keys (a_ks A)" "Login A e email pw ip ua info w = (w', Inr r)" "lr_Pair r = Some pair"
    and "distinct (map us_id (users (w_users w)))" "e_ok e CallFindID" "wf_repo (w_sess w)"
    and "\<not> IsRevoked A (e_now e) (e_jti e) (w_rd w')"
  shows "\<exists>c u. ValidateAccessToken (a_jwt A) (a_ks A) (e_now e) (AccessToken pair) = Inr c \<and>
    user_FindByEmail (a_enc A) (c_sha A) (e_ok e CallFindEmail) email (w_users w) = Inr u \<and> UserID c = u_ID u \<and> Roles c = u_Roles u \<and>
    EvaluateAccess A e c ip info w' = None"
proof -
  from assms(3) obtain u where gate: "access_gate A ip info = None"
    and find: "user_FindByEmail (a_enc A) (c_sha A) (e_ok e CallFindEmail) email (w_users w) = Inr u" and act: "u_IsActive u"
    and ap: "after_password A e email u ip ua info w = (w', Inr r)"
    by (auto simp: Login_def Let_def split: option.splits sum.splits user_error.splits if_splits)
  from ap obtain skip w2 where comp: "completeLogin A e u ip ua info skip w2 = (w', Inr pair)" and w2: "w_users w2 = w_users w" "w_sess w2 = w_sess w"
    using after_password_pair assms(4) by blast
  note eff = completeLogin_effect [OF comp, unfolded w2, OF assms(7)]
  define c where "c = session_claims (e_jti e) (e_now e) (u_ID u) (u_Email u) (u_Locale u) (u_Roles u) (perms_of e (u_ID u) w2) AccessTTL"
  have sign: "Sign (a_jwt A) (a_ks A) c = Inr (AccessToken pair)"
    using eff(5) unfolding c_def by (rule issue_pair_ok) simp
  have "e_now e < numeric_date (e_now e + AccessTTL) * go_second"
    using div_mult_mod_eq [of "e_now e + AccessTTL" go_second] pos_mod_bound [of go_second "e_now e + AccessTTL"]
    by (simp add: numeric_date_def)
  with jwt_laws.sign_validate [OF assms(1,2) sign refl, of "e_now e"]
  have valid: "ValidateAccessToken (a_jwt A) (a_ks A) (e_now e) (AccessToken pair) = Inr c"
    by (simp add: ValidateAccessToken_def c_def session_claims_def token_consts)
  from find obtain row where row: "row \<in> set (users (w_users w))" "load_user (a_enc A) row (w_users w) = Inr u"
    by (auto simp: user_FindByEmail_def repo_FindByEmail_def split: if_splits option.splits dest!: sql_first_Some)
  then have uid: "us_id row = u_ID u"
    by (auto simp: load_user_def decryptUser_def scan_user_def split: option.splits)
  have "sql_first (\<lambda>q. us_id q = u_ID u) (users (w_users w)) = Some row"
    unfolding sql_first_def
  proof (rule find_ex1)
    show "r' = row" if "r' \<in> set (users (w_users w))" "us_id r' = u_ID u" for r'
      using that assms(5) row(1) uid by (metis distinct_map inj_onD)
  qed (use row uid in auto)
  then have byid: "findByID A e (u_ID u) w' = Inr u"
    using row(2) assms(6) eff(3) w2 by (simp add: findByID_def user_FindByID_def)
  have "EvaluateAccess A e c ip info w' = None"
    using assms(8) gate byid act
    by (simp add: EvaluateAccess_def c_def session_claims_def token_consts stringSlicesEqual_mset)
  with valid find show ?thesis by (auto simp: c_def session_claims_def)
qed

definition demo_plain_world :: "pending_login mem_redis auth_world" where
  "demo_plain_world = demo_mfa_login_world\<lparr>w_mfa := (\<lambda>_. None)\<rparr>"

lemma demo_plain_simps [simp]: "w_users demo_plain_world = w_users demo_mfa_login_world" "w_sess demo_plain_world = empty_repo"
  "w_rd demo_plain_world = w_rd demo_mfa_login_world" "w_mfa demo_plain_world = (\<lambda>_. None)"
  by (simp_all add: demo_plain_world_def demo_mfa_login_world_def)

text \<open>What \<open>ClientCredentials\<close> checks before it issues a token, and what the token then says.\<close>

lemma ClientCredentials_ok:
  assumes "jwt_laws (a_jwt A) made" "wf_keys (a_ks A)" "ClientCredentials A st e cid secret jkt = Inr (tok, ttl)"
  shows "\<exists>sa c. sa_FindByClientID st cid = Some sa \<and> sa_IsActive sa \<and>
    (\<forall>x. sa_ExpiresAt sa = Some x \<longrightarrow> e_now e \<le> x) \<and>
    (sa_CheckSecret st (sa_SecretHash sa) secret \<or>
      (\<exists>old x. sa_OldSecretHash sa = Some old \<and> sa_OldExpiresAt sa = Some x \<and> e_now e < x \<and> sa_CheckSecret st old secret)) \<and>
    ValidateAccessToken (a_jwt A) (a_ks A) (e_now e) tok = Inr c \<and> ClientID c = cid \<and> Scopes c = sa_Scopes sa \<and>
    SubType c = SubTypeService \<and> Confirmation c = (if jkt = '''' then None else Some jkt) \<and> ttl = 300"
proof -
  from assms(3) obtain sa where sa: "sa_FindByClientID st cid = Some sa" "sa_IsActive sa"
    "\<forall>x. sa_ExpiresAt sa = Some x \<longrightarrow> e_now e \<le> x"
    "sa_CheckSecret st (sa_SecretHash sa) secret \<or>
      (\<exists>old x. sa_OldSecretHash sa = Some old \<and> sa_OldExpiresAt sa = Some x \<and> e_now e < x \<and> sa_CheckSecret st old secret)"
    and gen: "GenerateServiceToken (a_jwt A) (a_ks A) (e_jti e) (e_now e) cid (sa_Name sa) (sa_Scopes sa) serviceTokenTTL jkt = Inr (tok, ttl)"
    by (auto simp: ClientCredentials_def Let_def split: option.splits if_splits sum.splits)
  define c where "c = service_claims (e_jti e) (e_now e) cid (sa_Name sa) (sa_Scopes sa) serviceTokenTTL jkt"
  from gen have sign: "Sign (a_jwt A) (a_ks A) c = Inr tok" and ttl: "ttl = 300"
    by (auto simp: GenerateServiceToken_def c_def split: sum.splits)
  have "e_now e < numeric_date (e_now e + serviceTokenTTL) * go_second"
    using div_mult_mod_eq [of "e_now e + serviceTokenTTL" go_second] pos_mod_bound [of go_second "e_now e + serviceTokenTTL"]
    by (simp add: numeric_date_def)
  with jwt_laws.sign_validate [OF assms(1,2) sign refl, of "e_now e"]
  have "ValidateAccessToken (a_jwt A) (a_ks A) (e_now e) tok = Inr c"
    by (simp add: ValidateAccessToken_def c_def service_claims_def token_consts)
  then show ?thesis using sa ttl by (intro exI [of _ sa] exI [of _ c]) (auto simp: c_def service_claims_def)
qed

end
