(* ===== verification/OIDC_Store.thy ===== *)
theory OIDC_Store
  imports Redis_Server
begin

text \<open>
  \<open>internal/oidc/authcode.go\<close> and \<open>internal/oidc/refreshtoken.go\<close>: the authorization codes and the
  refresh tokens of OIDC clients, both kept in Redis. A refresh token is stored under its SHA-256
  hash with an index per user and per grant chain (family) and, once consumed, a tombstone.

  The abstract view is \<open>grants\<close>, the partial map from token hashes to grants. Every operation of the
  store is shown to refine one update of that map, under the invariant \<open>indexed\<close>: the two indexes
  cover every live token and outlive it.
\<close>

section \<open>Documents\<close>

record auth_code_session =
  ac_Code :: string
  ac_UserID :: string
  ac_ClientID :: string
  ac_RedirectURI :: string
  ac_Scopes :: "string list"
  ac_CodeChallenge :: string
  ac_CodeChallengeMethod :: string
  ac_Nonce :: string
  ac_AuthTime :: instant

record refresh_session =
  rs_UserID :: string
  rs_ClientID :: string
  rs_Scopes :: "string list"
  rs_AuthTime :: instant
  rs_FamilyID :: string

text \<open>What the two stores write as JSON. Their keys never meet (\<open>store_keys\<close>), so a document of the other
  kind, a string or a number is taken for one that \<open>json.Unmarshal\<close> rejects.\<close>

datatype oidc_doc = CodeDoc auth_code_session | RefreshDoc refresh_session

definition unmarshal_code :: "oidc_doc rval \<Rightarrow> auth_code_session option" where
  "unmarshal_code v = (case v of RDoc (CodeDoc s) \<Rightarrow> Some s | _ \<Rightarrow> None)"

definition unmarshal_refresh :: "oidc_doc rval \<Rightarrow> refresh_session option" where
  "unmarshal_refresh v = (case v of RDoc (RefreshDoc s) \<Rightarrow> Some s | _ \<Rightarrow> None)"

datatype store_error = ErrAuthCodeNotFound | ErrRefreshTokenNotFound | ErrRefreshTokenReused
  | ErrStoreRedis | ErrStoreJSON | ErrStoreRandom

lemma unmarshal_simps [simp]:
  "unmarshal_code (RDoc (CodeDoc a)) = Some a" "unmarshal_refresh (RDoc (RefreshDoc d)) = Some d"
  by (simp_all add: unmarshal_code_def unmarshal_refresh_def)

lemma unmarshal_refresh_Some: "unmarshal_refresh v = Some d \<longleftrightarrow> v = RDoc (RefreshDoc d)"
  by (auto simp: unmarshal_refresh_def split: rval.splits oidc_doc.splits)

lemma unmarshal_code_Some: "unmarshal_code v = Some d \<longleftrightarrow> v = RDoc (CodeDoc d)"
  by (auto simp: unmarshal_code_def split: rval.splits oidc_doc.splits)

section \<open>Authorization codes\<close>

definition codeTTL :: duration where "codeTTL = 5 * go_minute"

lemma codeTTL_pos [simp]: "0 < codeTTL"
  by (simp add: codeTTL_def)

definition code_key :: "string \<Rightarrow> string" where
  "code_key code = ''oauth2:code:'' @ code"

definition code_Save :: "('r, oidc_doc) redis \<Rightarrow> instant \<Rightarrow> auth_code_session \<Rightarrow> 'r \<Rightarrow> 'r \<times> (store_error + unit)" where
  "code_Save R now session s =
    (case rSet R s now (code_key (ac_Code session)) (RDoc (CodeDoc session)) codeTTL of
       (s', ROk _) \<Rightarrow> (s', Inr ()) | (s', _) \<Rightarrow> (s', Inl ErrStoreRedis))"

definition code_GetAndConsume :: "('r, oidc_doc) redis \<Rightarrow> instant \<Rightarrow> string \<Rightarrow> 'r \<Rightarrow>
    'r \<times> (store_error + auth_code_session)" where
  "code_GetAndConsume R now code s =
    (case rGetDel R s now (code_key code) of
       (s', RNil) \<Rightarrow> (s', Inl ErrAuthCodeNotFound)
     | (s', RErr) \<Rightarrow> (s', Inl ErrStoreRedis)
     | (s', ROk v) \<Rightarrow> (s', case unmarshal_code v of None \<Rightarrow> Inl ErrStoreJSON | Some a \<Rightarrow> Inr a))"

section \<open>Refresh tokens\<close>

definition OIDCRefreshTTL :: duration where "OIDCRefreshTTL = 30 * 24 * go_hour"

lemma OIDCRefreshTTL_pos [simp]: "0 < OIDCRefreshTTL"
  by (simp add: OIDCRefreshTTL_def)

definition rt_hash :: "(string \<Rightarrow> bytes) \<Rightarrow> string \<Rightarrow> string" where
  "rt_hash sha token = hex_encode (sha token)"

definition rt_key :: "string \<Rightarrow> string" where "rt_key hash = ''oauth2:refresh:'' @ hash"
definition rt_usedKey :: "string \<Rightarrow> string" where "rt_usedKey hash = ''oauth2:refresh:used:'' @ hash"
definition rt_userKey :: "string \<Rightarrow> string" where "rt_userKey userID = ''oauth2:refresh:user:'' @ userID"
definition rt_familyKey :: "string \<Rightarrow> string" where "rt_familyKey familyID = ''oauth2:refresh:family:'' @ familyID"

text \<open>\<open>raw\<close> is the outcome of \<open>rand.Read\<close> on 32 bytes, \<open>fid\<close> of \<open>uuid.NewString\<close>.\<close>

definition rt_Save :: "('r, oidc_doc) redis \<Rightarrow> (string \<Rightarrow> bytes) \<Rightarrow> instant \<Rightarrow> bytes option \<Rightarrow> string \<Rightarrow>
    refresh_session \<Rightarrow> 'r \<Rightarrow> 'r \<times> (store_error + string)" where
  "rt_Save R sha now raw fid session s =
    (case raw of
       None \<Rightarrow> (s, Inl ErrStoreRandom)
     | Some b \<Rightarrow>
       (let token = hex_encode b;
            session' = (if rs_FamilyID session = '''' then session\<lparr>rs_FamilyID := fid\<rparr> else session);
            hash = rt_hash sha token;
            ukey = rt_userKey (rs_UserID session');
            fkey = rt_familyKey (rs_FamilyID session')
        in case pipe_exec
            [\<lambda>s. sent (rSet R s now (rt_key hash) (RDoc (RefreshDoc session')) OIDCRefreshTTL),
             \<lambda>s. sent (rSAdd R s now ukey hash),
             \<lambda>s. sent (rExpire R s now ukey OIDCRefreshTTL),
             \<lambda>s. sent (rSAdd R s now fkey hash),
             \<lambda>s. sent (rExpire R s now fkey OIDCRefreshTTL)] s of
           (s', True) \<Rightarrow> (s', Inr token) | (s', False) \<Rightarrow> (s', Inl ErrStoreRedis)))"

definition revokeFamily :: "('r, oidc_doc) redis \<Rightarrow> instant \<Rightarrow> string \<Rightarrow> string \<Rightarrow> 'r \<Rightarrow> 'r" where
  "revokeFamily R now familyID userID s =
    (if familyID = '''' then s
     else
       (let fkey = rt_familyKey familyID;
            s2 = (case rSMembers R s now fkey of
                    ROk hashes \<Rightarrow>
                      if hashes = [] then s
                      else (let s1 = fst (rDel R s now (map rt_key hashes))
                            in fst (rSRem R s1 now (rt_userKey userID) hashes))
                  | _ \<Rightarrow> s)
        in fst (rDel R s2 now [fkey])))"

definition handleMiss :: "('r, oidc_doc) redis \<Rightarrow> instant \<Rightarrow> string \<Rightarrow> 'r \<Rightarrow> 'r \<times> store_error" where
  "handleMiss R now hash s =
    (case rGet R s now (rt_usedKey hash) of
       ROk v \<Rightarrow> (case unmarshal_refresh v of
           None \<Rightarrow> (s, ErrRefreshTokenNotFound)
         | Some sess \<Rightarrow> (revokeFamily R now (rs_FamilyID sess) (rs_UserID sess) s, ErrRefreshTokenReused))
     | _ \<Rightarrow> (s, ErrRefreshTokenNotFound))"

definition rt_GetAndConsume :: "('r, oidc_doc) redis \<Rightarrow> (string \<Rightarrow> bytes) \<Rightarrow> instant \<Rightarrow> string \<Rightarrow> 'r \<Rightarrow>
    'r \<times> (store_error + refresh_session)" where
  "rt_GetAndConsume R sha now token s =
    (let hash = rt_hash sha token in
     case rGetDel R s now (rt_key hash) of
       (s1, RNil) \<Rightarrow> (case handleMiss R now hash s1 of (s2, e) \<Rightarrow> (s2, Inl e))
     | (s1, RErr) \<Rightarrow> (s1, Inl ErrStoreRedis)
     | (s1, ROk v) \<Rightarrow>
        (case unmarshal_refresh v of
           None \<Rightarrow> (s1, Inl ErrStoreJSON)
         | Some sess \<Rightarrow>
           (fst (pipe_exec
             [\<lambda>s. sent (rSet R s now (rt_usedKey hash) v OIDCRefreshTTL),
              \<lambda>s. sent (rSRem R s now (rt_userKey (rs_UserID sess)) [hash]),
              \<lambda>s. sent (rSRem R s now (rt_familyKey (rs_FamilyID sess)) [hash])] s1), Inr sess)))"

definition rt_Peek :: "('r, oidc_doc) redis \<Rightarrow> (string \<Rightarrow> bytes) \<Rightarrow> instant \<Rightarrow> string \<Rightarrow> 'r \<Rightarrow>
    store_error + refresh_session" where
  "rt_Peek R sha now token s =
    (case rGet R s now (rt_key (rt_hash sha token)) of
       RNil \<Rightarrow> Inl ErrRefreshTokenNotFound
     | RErr \<Rightarrow> Inl ErrStoreRedis
     | ROk v \<Rightarrow> (case unmarshal_refresh v of None \<Rightarrow> Inl ErrStoreJSON | Some sess \<Rightarrow> Inr sess))"

definition rt_Delete :: "('r, oidc_doc) redis \<Rightarrow> (string \<Rightarrow> bytes) \<Rightarrow> instant \<Rightarrow> string \<Rightarrow> 'r \<Rightarrow>
    'r \<times> (store_error + unit)" where
  "rt_Delete R sha now token s =
    (let hash = rt_hash sha token in
     case rGetDel R s now (rt_key hash) of
       (s1, RNil) \<Rightarrow> (s1, Inr ())
     | (s1, RErr) \<Rightarrow> (s1, Inl ErrStoreRedis)
     | (s1, ROk v) \<Rightarrow>
        (case unmarshal_refresh v of
           None \<Rightarrow> (s1, Inr ())
         | Some sess \<Rightarrow>
           (case pipe_exec
             [\<lambda>s. sent (rSRem R s now (rt_userKey (rs_UserID sess)) [hash]),
              \<lambda>s. sent (rSRem R s now (rt_familyKey (rs_FamilyID sess)) [hash])] s1 of
              (s2, True) \<Rightarrow> (s2, Inr ()) | (s2, False) \<Rightarrow> (s2, Inl ErrStoreRedis))))"

definition rt_RevokeAllForUser :: "('r, oidc_doc) redis \<Rightarrow> instant \<Rightarrow> string \<Rightarrow> 'r \<Rightarrow> 'r \<times> (store_error + unit)" where
  "rt_RevokeAllForUser R now userID s =
    (let ukey = rt_userKey userID in
     case rSMembers R s now ukey of
       ROk hashes \<Rightarrow>
         (case rDel R s now (if hashes \<noteq> [] then map rt_key hashes @ [ukey] else [ukey]) of
            (s', ROk _) \<Rightarrow> (s', Inr ()) | (s', _) \<Rightarrow> (s', Inl ErrStoreRedis))
     | _ \<Rightarrow> (s, Inl ErrStoreRedis))"

section \<open>Keys\<close>

text \<open>A token hash is written in hexadecimal digits, so it cannot collide with the words
  \<open>used:\<close>, \<open>user:\<close> and \<open>family:\<close> that follow the common prefix in the other keys.\<close>

definition is_hash :: "string \<Rightarrow> bool" where
  "is_hash h \<longleftrightarrow> (\<forall>c \<in> set h. is_hex_char c)"

lemma rt_hash_is_hash [simp]: "is_hash (rt_hash sha t)"
  by (auto simp: is_hash_def rt_hash_def dest: hex_encode_chars)

lemmas store_key_defs = rt_key_def rt_usedKey_def rt_userKey_def rt_familyKey_def code_key_def

lemma hash_tail: "is_hash h \<Longrightarrow> h \<noteq> ''used:'' @ x \<and> h \<noteq> ''user:'' @ x \<and> h \<noteq> ''family:'' @ x"
  by (auto simp: is_hash_def is_hex_char_def Let_def)

lemma store_keys [key_simps]:
  "is_hash h \<Longrightarrow> rt_key h \<noteq> rt_usedKey x" "is_hash h \<Longrightarrow> rt_key h \<noteq> rt_userKey x"
  "is_hash h \<Longrightarrow> rt_key h \<noteq> rt_familyKey x" "is_hash h \<Longrightarrow> rt_usedKey x \<noteq> rt_key h"
  "is_hash h \<Longrightarrow> rt_userKey x \<noteq> rt_key h" "is_hash h \<Longrightarrow> rt_familyKey x \<noteq> rt_key h"
  using hash_tail [of h x] by (auto simp: store_key_defs)

lemma store_keys_neq [simp, key_simps]:
  "rt_usedKey x \<noteq> rt_userKey y" "rt_userKey y \<noteq> rt_usedKey x" "rt_usedKey x \<noteq> rt_familyKey y"
  "rt_familyKey y \<noteq> rt_usedKey x" "rt_userKey x \<noteq> rt_familyKey y" "rt_familyKey y \<noteq> rt_userKey x"
  "code_key x \<noteq> rt_key y" "rt_key y \<noteq> code_key x" "code_key x \<noteq> rt_usedKey y" "rt_usedKey y \<noteq> code_key x"
  "code_key x \<noteq> rt_userKey y" "rt_userKey y \<noteq> code_key x" "code_key x \<noteq> rt_familyKey y"
  "rt_familyKey y \<noteq> code_key x"
  by (simp_all add: store_key_defs)

lemma store_keys_inj [simp, key_simps]:
  "rt_key x = rt_key y \<longleftrightarrow> x = y" "rt_usedKey x = rt_usedKey y \<longleftrightarrow> x = y"
  "rt_userKey x = rt_userKey y \<longleftrightarrow> x = y" "rt_familyKey x = rt_familyKey y \<longleftrightarrow> x = y"
  "code_key x = code_key y \<longleftrightarrow> x = y"
  by (simp_all add: store_key_defs)

section \<open>The abstract store and its invariant\<close>

text \<open>\<open>K\<close> is what Redis shows at one instant. \<open>grants K\<close> is the abstract store.\<close>

type_synonym oidc_view = "string \<Rightarrow> oidc_doc rentry option"

definition grants :: "oidc_view \<Rightarrow> string \<Rightarrow> refresh_session option" where
  "grants K h = (if is_hash h then
     (case K (rt_key h) of None \<Rightarrow> None | Some (v, _) \<Rightarrow> unmarshal_refresh v) else None)"

definition family_of :: "oidc_view \<Rightarrow> string \<Rightarrow> string \<Rightarrow> bool" where
  "family_of K f h = (case grants K h of None \<Rightarrow> False | Some d \<Rightarrow> rs_FamilyID d = f)"

definition owned_by :: "oidc_view \<Rightarrow> string \<Rightarrow> string \<Rightarrow> bool" where
  "owned_by K u h = (case grants K h of None \<Rightarrow> False | Some d \<Rightarrow> rs_UserID d = u)"

definition restrict :: "(string \<Rightarrow> bool) \<Rightarrow> (string \<Rightarrow> refresh_session option) \<Rightarrow> string \<Rightarrow> refresh_session option" where
  "restrict P g h = (if P h then g h else None)"

definition grant_doc :: "oidc_doc rval \<Rightarrow> bool" where
  "grant_doc v = (case unmarshal_refresh v of None \<Rightarrow> False | Some d \<Rightarrow> rs_FamilyID d \<noteq> '''')"

definition used_ok :: "oidc_doc rentry option \<Rightarrow> bool" where
  "used_ok e = (case e of None \<Rightarrow> True | Some (v, _) \<Rightarrow> grant_doc v)"

definition wf_index :: "oidc_doc rentry option \<Rightarrow> bool" where
  "wf_index e \<longleftrightarrow> is_set_entry e \<and> (\<forall>h \<in> set (members e). is_hash h)"

text \<open>The index lists the hash and expires no earlier than \<open>y\<close>.\<close>

definition covers :: "oidc_doc rentry option \<Rightarrow> string \<Rightarrow> instant \<Rightarrow> bool" where
  "covers e h y = (case e of Some (RSet xs, Some z) \<Rightarrow> h \<in> set xs \<and> y \<le> z | _ \<Rightarrow> False)"

definition token_ok :: "instant \<Rightarrow> oidc_view \<Rightarrow> string \<Rightarrow> bool" where
  "token_ok t K h = (case K (rt_key h) of None \<Rightarrow> True
     | Some (v, None) \<Rightarrow> False
     | Some (v, Some y) \<Rightarrow> (case unmarshal_refresh v of None \<Rightarrow> False
         | Some d \<Rightarrow> rs_FamilyID d \<noteq> '''' \<and> y \<le> t + OIDCRefreshTTL \<and>
             covers (K (rt_userKey (rs_UserID d))) h y \<and> covers (K (rt_familyKey (rs_FamilyID d))) h y))"

text \<open>A live token listed by an index belongs to that index.\<close>

definition exact :: "oidc_view \<Rightarrow> bool" where
  "exact K \<longleftrightarrow> (\<forall>h d. grants K h = Some d \<longrightarrow>
     (\<forall>f. h \<in> set (members (K (rt_familyKey f))) \<longrightarrow> rs_FamilyID d = f) \<and>
     (\<forall>u. h \<in> set (members (K (rt_userKey u))) \<longrightarrow> rs_UserID d = u))"

definition indexed :: "instant \<Rightarrow> oidc_view \<Rightarrow> bool" where
  "indexed t K \<longleftrightarrow> (\<forall>h. is_hash h \<longrightarrow> token_ok t K h) \<and> (\<forall>u. wf_index (K (rt_userKey u))) \<and>
     (\<forall>f. wf_index (K (rt_familyKey f))) \<and> (\<forall>h. used_ok (K (rt_usedKey h))) \<and> (\<forall>c. plain_entry (K (code_key c))) \<and>
     exact K"

lemma wf_index_simps [simp]: "wf_index None" "wf_index (Some (RSet xs, x)) \<longleftrightarrow> (\<forall>h \<in> set xs. is_hash h)"
  by (simp_all add: wf_index_def)

lemma wf_index_cases: "wf_index e \<Longrightarrow> e = None \<or> (\<exists>xs x. e = Some (RSet xs, x))"
  by (auto simp: wf_index_def is_set_entry_def split: option.splits rval.splits prod.splits)

lemma covers_simps [simp]: "\<not> covers None h y" "covers (Some (RSet xs, Some z)) h y \<longleftrightarrow> h \<in> set xs \<and> y \<le> z"
  "\<not> covers (Some (v, None)) h y"
  by (simp_all add: covers_def split: rval.splits)

lemma covers_iff: "covers e h y \<longleftrightarrow> (\<exists>xs z. e = Some (RSet xs, Some z) \<and> h \<in> set xs \<and> y \<le> z)"
proof (cases e)
  case (Some p)
  then show ?thesis by (cases p; cases "fst p"; cases "snd p") (auto simp: covers_def)
qed simp

lemma covers_member: "covers e h y \<Longrightarrow> h \<in> set (members e)"
  by (auto simp: covers_iff)

lemma used_ok_plain: "used_ok e \<Longrightarrow> plain_entry e"
  by (auto simp: used_ok_def grant_doc_def unmarshal_refresh_Some split: option.splits)

lemma grant_doc_iff: "grant_doc v \<longleftrightarrow> (\<exists>d. v = RDoc (RefreshDoc d) \<and> rs_FamilyID d \<noteq> '''')"
  by (auto simp: grant_doc_def unmarshal_refresh_Some split: option.splits)

lemma indexedD:
  assumes "indexed t K"
  shows "is_hash h \<Longrightarrow> token_ok t K h" "wf_index (K (rt_userKey u))" "wf_index (K (rt_familyKey f))"
    "used_ok (K (rt_usedKey h))" "plain_entry (K (code_key c))" "exact K"
  using assms by (auto simp: indexed_def)

lemma indexed_token:
  assumes "indexed t K" "is_hash h" "K (rt_key h) = Some (v, x)"
  obtains d y where "v = RDoc (RefreshDoc d)" "x = Some y" "rs_FamilyID d \<noteq> ''''" "y \<le> t + OIDCRefreshTTL"
    "covers (K (rt_userKey (rs_UserID d))) h y" "covers (K (rt_familyKey (rs_FamilyID d))) h y"
  using indexedD(1) [OF assms(1,2)] assms(3)
  by (auto simp: token_ok_def unmarshal_refresh_Some split: option.splits)

lemma indexed_plain: "indexed t K \<Longrightarrow> is_hash h \<Longrightarrow> plain_entry (K (rt_key h))"
  by (cases "K (rt_key h)") (auto elim: indexed_token)

lemma grants_Some: "grants K h = Some d \<longleftrightarrow> is_hash h \<and> (\<exists>x. K (rt_key h) = Some (RDoc (RefreshDoc d), x))"
  by (auto simp: grants_def unmarshal_refresh_Some split: option.splits if_splits)

lemma grants_code [simp]: "grants (K(code_key c := e)) = grants K"
  by (simp add: grants_def fun_eq_iff)

text \<open>Every live token is listed by the indexes of its user and of its family.\<close>

lemma indexed_lists:
  assumes "indexed t K" "grants K h = Some d"
  shows "h \<in> set (members (K (rt_userKey (rs_UserID d))))" "h \<in> set (members (K (rt_familyKey (rs_FamilyID d))))"
  using assms by (auto simp: grants_Some dest!: covers_member elim: indexed_token)

lemma indexed_exact:
  assumes "indexed t K" "grants K h = Some d"
  shows "h \<in> set (members (K (rt_familyKey f))) \<longleftrightarrow> rs_FamilyID d = f"
    "h \<in> set (members (K (rt_userKey u))) \<longleftrightarrow> rs_UserID d = u"
proof -
  from indexedD(6) [OF assms(1)] assms(2)
  have "\<forall>f. h \<in> set (members (K (rt_familyKey f))) \<longrightarrow> rs_FamilyID d = f"
    and "\<forall>u. h \<in> set (members (K (rt_userKey u))) \<longrightarrow> rs_UserID d = u"
    unfolding exact_def by blast+
  with indexed_lists [OF assms]
  show "h \<in> set (members (K (rt_familyKey f))) \<longleftrightarrow> rs_FamilyID d = f"
    and "h \<in> set (members (K (rt_userKey u))) \<longleftrightarrow> rs_UserID d = u" by blast+
qed

lemma members_live: "set (members (live t e)) \<subseteq> set (members e)"
  by (auto simp: live_def members_def split: option.splits)

text \<open>\<open>exact\<close> survives when tokens disappear and indexes shrink.\<close>

lemma exact_shrink:
  assumes "exact K" "\<And>h d. grants K' h = Some d \<Longrightarrow> grants K h = Some d"
    and "\<And>u. set (members (K' (rt_userKey u))) \<subseteq> set (members (K (rt_userKey u)))"
    and "\<And>f. set (members (K' (rt_familyKey f))) \<subseteq> set (members (K (rt_familyKey f)))"
  shows "exact K'"
  unfolding exact_def
proof (intro allI impI conjI)
  fix h d f u assume "grants K' h = Some d"
  then have d: "grants K h = Some d" by (rule assms(2))
  show "rs_FamilyID d = f" if "h \<in> set (members (K' (rt_familyKey f)))"
    using assms(1) d that assms(4) [of f] by (auto simp: exact_def)
  show "rs_UserID d = u" if "h \<in> set (members (K' (rt_userKey u)))"
    using assms(1) d that assms(3) [of u] by (auto simp: exact_def)
qed

subsection \<open>Time\<close>

lemma covers_live: "covers e h y \<Longrightarrow> t' < y \<Longrightarrow> covers (live t' e) h y"
  by (auto simp: covers_iff)

lemma wf_index_live: "wf_index e \<Longrightarrow> wf_index (live t e)"
  by (auto simp: live_def split: option.splits)

lemma indexed_later:
  assumes "indexed t K" "t \<le> t'"
  shows "indexed t' (\<lambda>k. live t' (K k))"
  unfolding indexed_def
proof (intro conjI allI impI)
  fix h assume h: "is_hash h"
  show "token_ok t' (\<lambda>k. live t' (K k)) h"
  proof (cases "live t' (K (rt_key h))")
    case (Some e)
    obtain v x where "K (rt_key h) = Some (v, x)" and e: "e = (v, x)" and x: "\<forall>y. x = Some y \<longrightarrow> t' < y"
      using Some by (cases "K (rt_key h)") (auto simp: live_def split: option.splits if_splits)
    from indexed_token [OF assms(1) h this(1)] obtain d y where "v = RDoc (RefreshDoc d)" "x = Some y"
      "rs_FamilyID d \<noteq> ''''" "y \<le> t + OIDCRefreshTTL" "covers (K (rt_userKey (rs_UserID d))) h y"
      "covers (K (rt_familyKey (rs_FamilyID d))) h y" by metis
    with Some e x assms(2) show ?thesis by (auto simp: token_ok_def covers_live)
  qed (simp add: token_ok_def)
next
  show "used_ok (live t' (K (rt_usedKey h)))" for h
    using indexedD(4) [OF assms(1), of h] by (auto simp: used_ok_def live_def split: option.splits)
next
  show "plain_entry (live t' (K (code_key c)))" for c
    using indexedD(5) [OF assms(1), of c] by (auto simp: plain_entry_def live_def split: option.splits)
next
  show "exact (\<lambda>k. live t' (K k))"
    by (rule exact_shrink [OF indexedD(6) [OF assms(1)]])
      (use members_live in \<open>auto simp: grants_Some live_def split: option.splits if_splits\<close>)
qed (use indexedD(2,3) [OF assms(1)] in \<open>auto intro: wf_index_live\<close>)

subsection \<open>Removing and adding tokens\<close>

definition index_keeps :: "string set \<Rightarrow> oidc_doc rentry option \<Rightarrow> oidc_doc rentry option \<Rightarrow> bool" where
  "index_keeps H e e' \<longleftrightarrow> wf_index e' \<and> set (members e') \<subseteq> set (members e) \<and>
     (\<forall>h y. h \<notin> H \<longrightarrow> covers e h y \<longrightarrow> covers e' h y)"

lemma index_keeps_same: "wf_index e \<Longrightarrow> index_keeps H e e"
  by (simp add: index_keeps_def)

lemma index_keeps_gone: "set (members e) \<subseteq> H \<Longrightarrow> index_keeps H e None"
  by (auto simp: index_keeps_def dest: covers_member)

lemma index_keeps_srem:
  assumes "wf_index e" "set xs = set (members e) - set ms" "set ms \<subseteq> H"
  shows "index_keeps H e (if xs = [] then None else Some (RSet xs, entry_expiry e))"
proof (cases "xs = []")
  case True
  with assms(2) have "set (members e) \<subseteq> set ms" by simp
  with True assms(3) show ?thesis by (auto intro!: index_keeps_gone)
next
  case False
  have wf: "\<forall>h \<in> set xs. is_hash h" using assms(1,2) by (auto simp: wf_index_def)
  have "covers (Some (RSet xs, entry_expiry e)) h y" if "h \<notin> H" "covers e h y" for h y
    using that assms(2,3) by (auto simp: covers_iff)
  with wf False assms(2) show ?thesis by (auto simp: index_keeps_def)
qed

lemma indexed_drop:
  assumes K: "indexed t K"
    and tok: "\<And>h. is_hash h \<Longrightarrow> K' (rt_key h) = (if h \<in> H then None else K (rt_key h))"
    and usr: "\<And>u. index_keeps H (K (rt_userKey u)) (K' (rt_userKey u))"
    and fam: "\<And>f. index_keeps H (K (rt_familyKey f)) (K' (rt_familyKey f))"
    and used: "\<And>h. used_ok (K' (rt_usedKey h))" and code: "\<And>c. plain_entry (K' (code_key c))"
  shows "indexed t K' \<and> grants K' = restrict (\<lambda>h. h \<notin> H) (grants K)"
proof
  show g: "grants K' = restrict (\<lambda>h. h \<notin> H) (grants K)"
    by (auto simp: grants_def restrict_def tok)
  have "token_ok t K' h" if h: "is_hash h" for h
  proof (cases "K' (rt_key h)")
    case (Some e)
    then obtain v x where K_h: "K (rt_key h) = Some (v, x)" "h \<notin> H" and e: "e = (v, x)"
      using tok [OF h] by (cases e) (auto split: if_splits)
    from indexed_token [OF K h K_h(1)] obtain d y where "v = RDoc (RefreshDoc d)" "x = Some y"
      "rs_FamilyID d \<noteq> ''''" "y \<le> t + OIDCRefreshTTL" "covers (K (rt_userKey (rs_UserID d))) h y"
      "covers (K (rt_familyKey (rs_FamilyID d))) h y" by metis
    with K_h(2) e show ?thesis using Some usr fam by (auto simp: token_ok_def index_keeps_def)
  qed (simp add: token_ok_def)
  moreover have "exact K'"
    by (rule exact_shrink [OF indexedD(6) [OF K]])
      (use usr fam in \<open>auto simp: index_keeps_def g restrict_def split: if_splits\<close>)
  ultimately show "indexed t K'"
    using usr fam used code by (auto simp: indexed_def index_keeps_def)
qed

text \<open>A hash no index lists.\<close>

definition fresh_hash :: "oidc_view \<Rightarrow> string \<Rightarrow> bool" where
  "fresh_hash K h \<longleftrightarrow> is_hash h \<and> (\<forall>u. h \<notin> set (members (K (rt_userKey u)))) \<and>
     (\<forall>f. h \<notin> set (members (K (rt_familyKey f))))"

lemma indexed_add:
  assumes K: "indexed t K" and fresh: "fresh_hash K h" and fid: "rs_FamilyID d \<noteq> ''''"
    and xs: "set xs = insert h (set (members (K (rt_userKey (rs_UserID d)))))"
    and ys: "set ys = insert h (set (members (K (rt_familyKey (rs_FamilyID d)))))"
    and K': "K' = K(rt_key h \<mapsto> (RDoc (RefreshDoc d), Some (t + OIDCRefreshTTL)),
      rt_userKey (rs_UserID d) \<mapsto> (RSet xs, Some (t + OIDCRefreshTTL)),
      rt_familyKey (rs_FamilyID d) \<mapsto> (RSet ys, Some (t + OIDCRefreshTTL)))"
  shows "indexed t K' \<and> grants K' = (grants K)(h \<mapsto> d)"
proof
  have h: "is_hash h" using fresh by (simp add: fresh_hash_def)
  show g: "grants K' = (grants K)(h \<mapsto> d)"
    using h by (auto simp: grants_def K' store_keys)
  have "token_ok t K' g" if g: "is_hash g" for g
  proof (cases "g = h \<or> K (rt_key g) = None")
    case True
    with h g show ?thesis by (auto simp: token_ok_def K' store_keys fid xs ys)
  next
    case False
    then obtain v x where K_g: "K (rt_key g) = Some (v, x)" by auto
    from indexed_token [OF K g this] obtain e y where e: "v = RDoc (RefreshDoc e)" "x = Some y"
      "rs_FamilyID e \<noteq> ''''" "y \<le> t + OIDCRefreshTTL" "covers (K (rt_userKey (rs_UserID e))) g y"
      "covers (K (rt_familyKey (rs_FamilyID e))) g y" by metis
    then have "covers (K' (rt_userKey (rs_UserID e))) g y" "covers (K' (rt_familyKey (rs_FamilyID e))) g y"
      using h xs ys by (auto simp: K' store_keys dest!: covers_member)
    with False e K_g h g show ?thesis by (auto simp: token_ok_def K' store_keys)
  qed
  moreover have "wf_index (K' (rt_userKey u))" "wf_index (K' (rt_familyKey f))" for u f
    using indexedD(2,3) [OF K] h xs ys by (auto simp: K' store_keys wf_index_def)
  moreover have "exact K'"
    unfolding exact_def g
    using indexedD(6) [OF K] fresh h xs ys by (auto simp: K' store_keys exact_def fresh_hash_def split: if_splits)
  ultimately show "indexed t K'"
    using indexedD(4,5) [OF K] h by (auto simp: indexed_def K' store_keys)
qed

section \<open>The operations refine the abstract store\<close>

text \<open>The grant as \<open>Save\<close> stores it: a session without a family starts one.\<close>

definition saved_as :: "string \<Rightarrow> refresh_session \<Rightarrow> refresh_session" where
  "saved_as fid d = (if rs_FamilyID d = '''' then d\<lparr>rs_FamilyID := fid\<rparr> else d)"

locale oidc_redis = redis_up R see up
  for R :: "('r, oidc_doc) redis" and see :: "'r \<Rightarrow> instant \<Rightarrow> string \<Rightarrow> oidc_doc rentry option"
    and up :: "'r \<Rightarrow> bool"
begin

lemma indexed_see_later: "indexed t (see s t) \<Longrightarrow> t \<le> t' \<Longrightarrow> indexed t' (see s t')"
proof -
  assume "indexed t (see s t)" "t \<le> t'"
  moreover have "see s t' = (\<lambda>k. live t' (see s t k))" using see_later \<open>t \<le> t'\<close> by blast
  ultimately show ?thesis using indexed_later by simp
qed

text \<open>\<open>SADD\<close> followed by \<open>EXPIRE\<close>, as \<open>Save\<close> sends them.\<close>

lemma index_insert:
  assumes "up s" "wf_index (see s t k)"
  obtains s1 n s2 b xs where "rSAdd R s t k h = (s1, ROk n)" "rExpire R s1 t k OIDCRefreshTTL = (s2, ROk b)" "up s2"
    "set xs = insert h (set (members (see s t k)))" "see s2 t = (see s t)(k \<mapsto> (RSet xs, Some (t + OIDCRefreshTTL)))"
proof -
  from assms(2) have "is_set_entry (see s t k)" by (simp add: wf_index_def)
  from sadd_effect [OF assms(1) this] obtain s1 n xs where 1: "rSAdd R s t k h = (s1, ROk n)" "up s1"
    "set xs = insert h (set (members (see s t k)))" "see s1 t = (see s t)(k \<mapsto> (RSet xs, entry_expiry (see s t k)))"
    by metis
  from expire_effect [OF 1(2), of OIDCRefreshTTL t k] obtain s2 b where 2: "rExpire R s1 t k OIDCRefreshTTL = (s2, ROk b)"
    "up s2" "see s2 t = (case see s1 t k of None \<Rightarrow> see s1 t | Some (v, _) \<Rightarrow> (see s1 t)(k \<mapsto> (v, Some (t + OIDCRefreshTTL))))"
    by auto
  show ?thesis by (rule that [OF 1(1) 2(1,2) 1(3)]) (simp add: 2(3) 1(4))
qed

lemma Save_refines:
  assumes "up s" "indexed t (see s t)" "fresh_hash (see s t) (rt_hash sha (hex_encode b))" "fid \<noteq> ''''"
  obtains s' where "rt_Save R sha t (Some b) fid d s = (s', Inr (hex_encode b))" "up s'" "indexed t (see s' t)"
    "grants (see s' t) = (grants (see s t))(rt_hash sha (hex_encode b) \<mapsto> saved_as fid d)"
    "\<And>h. see s' t (rt_usedKey h) = see s t (rt_usedKey h)"
    "\<And>k. set (members (see s' t k)) \<subseteq> insert (rt_hash sha (hex_encode b)) (set (members (see s t k)))"
proof -
  let ?h = "rt_hash sha (hex_encode b)" and ?d = "saved_as fid d"
  let ?u = "rt_userKey (rs_UserID ?d)" and ?f = "rt_familyKey (rs_FamilyID ?d)"
  have fam: "rs_FamilyID ?d \<noteq> ''''" and h: "is_hash ?h" using assms(4) by (simp_all add: saved_as_def)
  from set_effect [OF assms(1), of OIDCRefreshTTL t "rt_key ?h" "RDoc (RefreshDoc ?d)"] obtain s1 where
    1: "rSet R s t (rt_key ?h) (RDoc (RefreshDoc ?d)) OIDCRefreshTTL = (s1, ROk ())" "up s1"
    "see s1 t = (see s t)(rt_key ?h \<mapsto> (RDoc (RefreshDoc ?d), Some (t + OIDCRefreshTTL)))" by auto
  have wf: "wf_index (see s1 t ?u)" "see s1 t ?u = see s t ?u"
    using indexedD(2) [OF assms(2)] h by (simp_all add: 1 store_keys)
  from index_insert [OF 1(2) wf(1), of ?h] obtain s2 n s3 b3 xs where
    2: "rSAdd R s1 t ?u ?h = (s2, ROk n)" "rExpire R s2 t ?u OIDCRefreshTTL = (s3, ROk b3)" "up s3"
    "set xs = insert ?h (set (members (see s t ?u)))" "see s3 t = (see s1 t)(?u \<mapsto> (RSet xs, Some (t + OIDCRefreshTTL)))"
    unfolding wf(2) by blast
  have wf': "wf_index (see s3 t ?f)" "see s3 t ?f = see s t ?f"
    using indexedD(3) [OF assms(2)] h by (simp_all add: 1 2 store_keys)
  from index_insert [OF 2(3) wf'(1), of ?h] obtain s4 n4 s5 b5 ys where
    3: "rSAdd R s3 t ?f ?h = (s4, ROk n4)" "rExpire R s4 t ?f OIDCRefreshTTL = (s5, ROk b5)" "up s5"
    "set ys = insert ?h (set (members (see s t ?f)))" "see s5 t = (see s3 t)(?f \<mapsto> (RSet ys, Some (t + OIDCRefreshTTL)))"
    unfolding wf'(2) by blast
  have view: "see s5 t = (see s t)(rt_key ?h \<mapsto> (RDoc (RefreshDoc ?d), Some (t + OIDCRefreshTTL)),
      ?u \<mapsto> (RSet xs, Some (t + OIDCRefreshTTL)), ?f \<mapsto> (RSet ys, Some (t + OIDCRefreshTTL)))"
    by (simp add: 1 2 3)
  have "rt_Save R sha t (Some b) fid d s = (s5, Inr (hex_encode b))"
    by (simp add: rt_Save_def Let_def 1 2 3 flip: saved_as_def)
  moreover have "set (members (see s5 t k)) \<subseteq> insert ?h (set (members (see s t k)))" for k
    using 2(4) 3(4) by (auto simp: view members_def)
  moreover note indexed_add [OF assms(2,3) fam 2(4) 3(4) view]
  ultimately show ?thesis
    using h 3(3) by (intro that [of s5]) (auto simp: view store_keys)
qed

text \<open>\<open>SREM\<close> of hashes whose tokens are gone.\<close>

lemma index_remove:
  assumes "up s" "wf_index (see s t k)"
  obtains s' n e where "rSRem R s t k ms = (s', ROk n)" "up s'" "see s' t = (see s t)(k := e)"
    "\<And>H. set ms \<subseteq> H \<Longrightarrow> index_keeps H (see s t k) e"
proof -
  from assms(2) have "is_set_entry (see s t k)" by (simp add: wf_index_def)
  from srem_effect [OF assms(1) this] obtain s' n xs where 1: "rSRem R s t k ms = (s', ROk n)" "up s'"
    "set xs = set (members (see s t k)) - set ms"
    "see s' t = (see s t)(k := (if xs = [] then None else Some (RSet xs, entry_expiry (see s t k))))" by metis
  show ?thesis by (rule that [OF 1(1,2,4)]) (rule index_keeps_srem [OF assms(2) 1(3)])
qed

lemma keeps_trans: "index_keeps H e e' \<Longrightarrow> index_keeps H e' e'' \<Longrightarrow> index_keeps H e e''"
  by (auto simp: index_keeps_def)

lemma revokeFamily_refines:
  assumes "up s" "indexed t (see s t)" "f \<noteq> ''''"
  shows "up (revokeFamily R t f u s)" "indexed t (see (revokeFamily R t f u s) t)"
    "grants (see (revokeFamily R t f u s) t) = restrict (\<lambda>h. \<not> family_of (see s t) f h) (grants (see s t))"
    "see (revokeFamily R t f u s) t (rt_usedKey x) = see s t (rt_usedKey x)"
proof -
  let ?K = "see s t" and ?f = "rt_familyKey f" and ?u = "rt_userKey u"
  have wf: "wf_index (?K ?f)" "wf_index (?K ?u)" by (rule indexedD [OF assms(2)])+
  then obtain hs where hs: "rSMembers R s t ?f = ROk hs" "set hs = set (members (?K ?f))"
    using smembers_effect [OF assms(1)] by (metis wf_index_def)
  have hash: "\<forall>h \<in> set hs. is_hash h" using wf(1) hs(2) by (simp add: wf_index_def)
  from del_effect [OF assms(1), of t "map rt_key hs"] obtain s1 n1 where
    1: "rDel R s t (map rt_key hs) = (s1, ROk n1)" "up s1"
    "see s1 t = (\<lambda>k. if k \<in> set (map rt_key hs) then None else ?K k)" by blast
  have s1: "see s1 t ?u = ?K ?u" "see s1 t (rt_familyKey g) = ?K (rt_familyKey g)" for g
    using hash by (auto simp: 1(3) store_keys)
  from index_remove [OF 1(2), of t ?u hs] wf(2) obtain s2 n2 e where
    2: "rSRem R s1 t ?u hs = (s2, ROk n2)" "up s2" "see s2 t = (see s1 t)(?u := e)" "index_keeps (set hs) (?K ?u) e"
    unfolding s1(1) by (metis subset_refl)
  define s3 where s3_def: "s3 = (if hs = [] then s else s2)"
  have "?u \<notin> rt_key ` set hs" using hash by (auto simp: store_keys)
  then have s3: "up s3" "s3 = (if hs = [] then s else s2)"
    "see s3 t = (\<lambda>k. if k \<in> rt_key ` set hs then None else if k = ?u \<and> hs \<noteq> [] then e else ?K k)"
    using assms(1) by (auto simp: s3_def 1 2)
  from del_effect [OF s3(1), of t "[?f]"] obtain s4 n4 where
    4: "rDel R s3 t [?f] = (s4, ROk n4)" "up s4" "see s4 t = (\<lambda>k. if k \<in> set [?f] then None else see s3 t k)" by blast
  have run: "revokeFamily R t f u s = s4"
    using assms(3) hs(1) 1(1) 2(1) 4(1) s3(2) by (cases "hs = []") (simp_all add: revokeFamily_def Let_def)
  have K': "see s4 t k = (if k = ?f \<or> k \<in> rt_key ` set hs then None else if k = ?u \<and> hs \<noteq> [] then e else ?K k)" for k
    by (simp add: 4 s3(3))
  have "indexed t (see s4 t) \<and> grants (see s4 t) = restrict (\<lambda>h. h \<notin> set hs) (grants ?K)"
  proof (rule indexed_drop [OF assms(2)])
    fix g
    show "index_keeps (set hs) (?K (rt_familyKey g)) (see s4 t (rt_familyKey g))"
      using hash hs(2) indexedD(3) [OF assms(2), of g]
      by (cases "g = f") (auto simp: K' store_keys intro: index_keeps_gone index_keeps_same)
    show "index_keeps (set hs) (?K (rt_userKey g)) (see s4 t (rt_userKey g))"
      using hash 2(4) indexedD(2) [OF assms(2), of g] by (auto simp: K' store_keys intro: index_keeps_same)
    show "used_ok (see s4 t (rt_usedKey g))"
      using hash indexedD(4) [OF assms(2), of g] by (auto simp: K' store_keys used_ok_def)
    show "plain_entry (see s4 t (code_key g))"
      using indexedD(5) [OF assms(2), of g] by (auto simp: K')
  qed (auto simp: K' store_keys)
  moreover have "restrict (\<lambda>h. h \<notin> set hs) (grants ?K) = restrict (\<lambda>h. \<not> family_of ?K f h) (grants ?K)"
    using indexed_exact(1) [OF assms(2)] by (auto simp: restrict_def family_of_def hs(2) fun_eq_iff split: option.splits)
  ultimately show "up (revokeFamily R t f u s)" "indexed t (see (revokeFamily R t f u s) t)"
    "grants (see (revokeFamily R t f u s) t) = restrict (\<lambda>h. \<not> family_of ?K f h) (grants ?K)"
    by (simp_all add: run 4(2))
  show "see (revokeFamily R t f u s) t (rt_usedKey x) = ?K (rt_usedKey x)"
    using hash by (auto simp: run K' store_keys)
qed

text \<open>A token is taken out and then dropped from both indexes, as \<open>GetAndConsume\<close> and \<open>Delete\<close> do.\<close>

lemma unlist_refines:
  assumes K: "indexed t K" and h: "is_hash h" and up: "up s1"
    and gone: "see s1 t (rt_key h) = None" and same: "\<And>g. g \<noteq> h \<Longrightarrow> is_hash g \<Longrightarrow> see s1 t (rt_key g) = K (rt_key g)"
    and idx: "\<And>g. see s1 t (rt_userKey g) = K (rt_userKey g)" "\<And>g. see s1 t (rt_familyKey g) = K (rt_familyKey g)"
    and used: "\<And>g. used_ok (see s1 t (rt_usedKey g))" and code: "\<And>g. plain_entry (see s1 t (code_key g))"
  obtains s2 n2 s3 n3 where "rSRem R s1 t (rt_userKey u) [h] = (s2, ROk n2)"
    "rSRem R s2 t (rt_familyKey f) [h] = (s3, ROk n3)" "up s3" "indexed t (see s3 t)"
    "grants (see s3 t) = (grants K)(h := None)" "\<And>g. see s3 t (rt_usedKey g) = see s1 t (rt_usedKey g)"
    "\<And>k. set (members (see s3 t k)) \<subseteq> set (members (see s1 t k))"
proof -
  from index_remove [OF up, of t "rt_userKey u" "[h]"] indexedD(2) [OF K, of u] obtain s2 n2 e2 where
    2: "rSRem R s1 t (rt_userKey u) [h] = (s2, ROk n2)" "up s2" "see s2 t = (see s1 t)(rt_userKey u := e2)"
    "index_keeps {h} (K (rt_userKey u)) e2" unfolding idx by (metis empty_set list.simps(15) subset_refl)
  have "see s2 t (rt_familyKey f) = K (rt_familyKey f)" by (simp add: 2 idx)
  with index_remove [OF 2(2), of t "rt_familyKey f" "[h]"] indexedD(3) [OF K, of f] obtain s3 n3 e3 where
    3: "rSRem R s2 t (rt_familyKey f) [h] = (s3, ROk n3)" "up s3" "see s3 t = (see s2 t)(rt_familyKey f := e3)"
    "index_keeps {h} (K (rt_familyKey f)) e3" by (metis empty_set list.simps(15) subset_refl)
  have K3: "see s3 t = (see s1 t)(rt_userKey u := e2, rt_familyKey f := e3)" by (simp add: 2 3)
  have "indexed t (see s3 t) \<and> grants (see s3 t) = restrict (\<lambda>g. g \<notin> {h}) (grants K)"
  proof (rule indexed_drop [OF K])
    fix g
    show "index_keeps {h} (K (rt_userKey g)) (see s3 t (rt_userKey g))"
      using 2(4) indexedD(2) [OF K, of g] by (auto simp: K3 idx intro: index_keeps_same)
    show "index_keeps {h} (K (rt_familyKey g)) (see s3 t (rt_familyKey g))"
      using 3(4) indexedD(3) [OF K, of g] by (auto simp: K3 idx intro: index_keeps_same)
    show "see s3 t (rt_key g) = (if g \<in> {h} then None else K (rt_key g))" if "is_hash g"
      using that h gone same by (auto simp: K3 store_keys)
  qed (use used code in \<open>auto simp: K3\<close>)
  moreover have "restrict (\<lambda>g. g \<notin> {h}) (grants K) = (grants K)(h := None)" by (auto simp: restrict_def)
  moreover have "set (members (see s3 t k)) \<subseteq> set (members (see s1 t k))" for k
    using 2(4) 3(4) by (auto simp: K3 index_keeps_def idx)
  ultimately show ?thesis using that [OF 2(1) 3(1,2)] by (simp add: K3)
qed

lemma Consume_refines:
  assumes up: "up s" and K: "indexed t (see s t)" and d: "grants (see s t) (rt_hash sha tok) = Some d"
  obtains s' where "rt_GetAndConsume R sha t tok s = (s', Inr d)" "up s'" "indexed t (see s' t)"
    "grants (see s' t) = (grants (see s t))(rt_hash sha tok := None)"
    "\<And>g. see s' t (rt_usedKey g) = (if g = rt_hash sha tok then Some (RDoc (RefreshDoc d), Some (t + OIDCRefreshTTL))
       else see s t (rt_usedKey g))"
    "\<And>k. set (members (see s' t k)) \<subseteq> set (members (see s t k))"
proof -
  let ?h = "rt_hash sha tok" and ?K = "see s t"
  have h: "is_hash ?h" by simp
  from d obtain x where x: "?K (rt_key ?h) = Some (RDoc (RefreshDoc d), x)" by (auto simp: grants_Some)
  have fam: "rs_FamilyID d \<noteq> ''''" by (rule indexed_token [OF K h x]) simp
  from getdel_effect [OF up indexed_plain [OF K h]] obtain s1 where
    1: "up s1" "see s1 t = ?K(rt_key ?h := None)" "rGetDel R s t (rt_key ?h) = (s1, ROk (RDoc (RefreshDoc d)))"
    by (auto simp: x)
  from set_effect [OF 1(1), of OIDCRefreshTTL t "rt_usedKey ?h" "RDoc (RefreshDoc d)"] obtain s2 where
    2: "rSet R s1 t (rt_usedKey ?h) (RDoc (RefreshDoc d)) OIDCRefreshTTL = (s2, ROk ())" "up s2"
    "see s2 t = (see s1 t)(rt_usedKey ?h \<mapsto> (RDoc (RefreshDoc d), Some (t + OIDCRefreshTTL)))" by auto
  have K2: "see s2 t = ?K(rt_key ?h := None, rt_usedKey ?h \<mapsto> (RDoc (RefreshDoc d), Some (t + OIDCRefreshTTL)))"
    by (simp add: 1 2)
  have used: "used_ok (see s2 t (rt_usedKey g))" for g
    using indexedD(4) [OF K, of g] h fam by (auto simp: K2 store_keys used_ok_def grant_doc_iff)
  have rest: "see s2 t (rt_key ?h) = None" "g \<noteq> ?h \<Longrightarrow> is_hash g \<Longrightarrow> see s2 t (rt_key g) = ?K (rt_key g)"
    "see s2 t (rt_userKey g) = ?K (rt_userKey g)" "see s2 t (rt_familyKey g) = ?K (rt_familyKey g)"
    "plain_entry (see s2 t (code_key g))" for g
    using indexedD(5) [OF K] h by (auto simp: K2 store_keys)
  obtain s3 n3 s4 n4 where 4: "rSRem R s2 t (rt_userKey (rs_UserID d)) [?h] = (s3, ROk n3)"
    "rSRem R s3 t (rt_familyKey (rs_FamilyID d)) [?h] = (s4, ROk n4)" "up s4" "indexed t (see s4 t)"
    "grants (see s4 t) = (grants ?K)(?h := None)" "\<And>g. see s4 t (rt_usedKey g) = see s2 t (rt_usedKey g)"
    "\<And>k. set (members (see s4 t k)) \<subseteq> set (members (see s2 t k))"
    using unlist_refines [OF K h 2(2) rest(1-4) used rest(5), where u = "rs_UserID d" and f = "rs_FamilyID d"]
    by blast
  have "rt_GetAndConsume R sha t tok s = (s4, Inr d)"
    by (simp add: rt_GetAndConsume_def Let_def 1(3) 2(1) 4(1,2))
  moreover have "set (members (see s2 t k)) \<subseteq> set (members (?K k))" for k by (auto simp: K2 members_def)
  with 4(7) have "set (members (see s4 t k)) \<subseteq> set (members (?K k))" for k by blast
  moreover have "see s4 t (rt_usedKey g) = (if g = ?h then Some (RDoc (RefreshDoc d), Some (t + OIDCRefreshTTL))
       else ?K (rt_usedKey g))" for g using h by (simp add: 4(6) K2 store_keys)
  ultimately show ?thesis using that [of s4] 4(3-5) by blast
qed

lemma Miss_refines:
  assumes up: "up s" and K: "indexed t (see s t)" and d: "grants (see s t) (rt_hash sha tok) = None"
  obtains s' e where "rt_GetAndConsume R sha t tok s = (s', Inl e)" "up s'" "indexed t (see s' t)"
    "\<And>g. see s' t (rt_usedKey g) = see s t (rt_usedKey g)"
    "case see s t (rt_usedKey (rt_hash sha tok)) of
       None \<Rightarrow> e = ErrRefreshTokenNotFound \<and> grants (see s' t) = grants (see s t)
     | Some (v, _) \<Rightarrow> e = ErrRefreshTokenReused \<and> (\<exists>d. unmarshal_refresh v = Some d \<and>
         grants (see s' t) = restrict (\<lambda>h. \<not> family_of (see s t) (rs_FamilyID d) h) (grants (see s t)))"
proof -
  let ?h = "rt_hash sha tok" and ?K = "see s t"
  have h: "is_hash ?h" by simp
  have none: "?K (rt_key ?h) = None"
    using d h by (cases "?K (rt_key ?h)") (auto simp: grants_def elim: indexed_token [OF K h])
  from getdel_effect [OF up indexed_plain [OF K h]] none obtain s1 where
    1: "up s1" "see s1 t = ?K" "rGetDel R s t (rt_key ?h) = (s1, RNil)" by (auto simp: fun_upd_idem)
  have K1: "indexed t (see s1 t)" by (simp add: 1 K)
  have get: "rGet R s1 t (rt_usedKey ?h) = (case ?K (rt_usedKey ?h) of None \<Rightarrow> RNil | Some (v, _) \<Rightarrow> ROk v)"
    using get_value [OF 1(1), of t "rt_usedKey ?h"] used_ok_plain [OF indexedD(4) [OF K]] by (simp add: 1)
  have run: "rt_GetAndConsume R sha t tok s = (case handleMiss R t ?h s1 of (s2, e) \<Rightarrow> (s2, Inl e))"
    by (simp add: rt_GetAndConsume_def Let_def 1(3))
  show ?thesis
  proof (cases "?K (rt_usedKey ?h)")
    case None
    with run get that [of s1 ErrRefreshTokenNotFound] 1 K1 show ?thesis by (simp add: handleMiss_def)
  next
    case (Some p)
    with indexedD(4) [OF K, of ?h] obtain e x where p: "p = (RDoc (RefreshDoc e), x)" "rs_FamilyID e \<noteq> ''''"
      by (cases p) (auto simp: used_ok_def grant_doc_iff)
    let ?s2 = "revokeFamily R t (rs_FamilyID e) (rs_UserID e) s1"
    from revokeFamily_refines [OF 1(1) K1 p(2), of "rs_UserID e"] Some p get run
    show ?thesis by (intro that [of ?s2 ErrRefreshTokenReused]) (simp_all add: handleMiss_def 1(2))
  qed
qed

lemma Consume_cases:
  assumes "up s" "indexed t (see s t)" "rt_GetAndConsume R sha t tok s = (s1, Inr d)"
  shows "grants (see s t) (rt_hash sha tok) = Some d"
proof (cases "grants (see s t) (rt_hash sha tok)")
  case None
  then show ?thesis using Miss_refines [OF assms(1,2) None] assms(3) by (metis Inl_Inr_False Pair_inject)
next
  case (Some e)
  then show ?thesis using Consume_refines [OF assms(1,2) Some] assms(3) by (metis Inr_inject Pair_inject)
qed

lemma Delete_refines:
  assumes up: "up s" and K: "indexed t (see s t)"
  obtains s' where "rt_Delete R sha t tok s = (s', Inr ())" "up s'" "indexed t (see s' t)"
    "grants (see s' t) = (grants (see s t))(rt_hash sha tok := None)"
    "\<And>g. see s' t (rt_usedKey g) = see s t (rt_usedKey g)"
proof -
  let ?h = "rt_hash sha tok" and ?K = "see s t"
  have h: "is_hash ?h" by simp
  from getdel_effect [OF up indexed_plain [OF K h]] obtain s1 where 1: "up s1" "see s1 t = ?K(rt_key ?h := None)"
    "rGetDel R s t (rt_key ?h) = (s1, case ?K (rt_key ?h) of None \<Rightarrow> RNil | Some (v, _) \<Rightarrow> ROk v)" by blast
  have used: "used_ok (see s1 t (rt_usedKey g))" "plain_entry (see s1 t (code_key g))" for g
    using indexedD(4,5) [OF K, of g] h by (auto simp: 1 store_keys)
  have rest: "see s1 t (rt_key ?h) = None" "g \<noteq> ?h \<Longrightarrow> is_hash g \<Longrightarrow> see s1 t (rt_key g) = ?K (rt_key g)"
    "see s1 t (rt_userKey g) = ?K (rt_userKey g)" "see s1 t (rt_familyKey g) = ?K (rt_familyKey g)" for g
    using h by (auto simp: 1 store_keys)
  show ?thesis
  proof (cases "?K (rt_key ?h)")
    case None
    then have eq: "see s1 t = ?K" by (simp add: 1 fun_upd_idem)
    from None have "grants ?K ?h = None" by (simp add: grants_def)
    with None that [of s1] 1 K eq show ?thesis by (simp add: rt_Delete_def Let_def fun_upd_idem)
  next
    case (Some p)
    then obtain d x where p: "p = (RDoc (RefreshDoc d), x)"
      by (cases p) (auto elim: indexed_token [OF K h])
    obtain s3 n3 s4 n4 where 4: "rSRem R s1 t (rt_userKey (rs_UserID d)) [?h] = (s3, ROk n3)"
      "rSRem R s3 t (rt_familyKey (rs_FamilyID d)) [?h] = (s4, ROk n4)" "up s4" "indexed t (see s4 t)"
      "grants (see s4 t) = (grants ?K)(?h := None)" "\<And>g. see s4 t (rt_usedKey g) = see s1 t (rt_usedKey g)"
      "\<And>k. set (members (see s4 t k)) \<subseteq> set (members (see s1 t k))"
      using unlist_refines [OF K h 1(1) rest used, where u = "rs_UserID d" and f = "rs_FamilyID d"] by blast
    have "rt_Delete R sha t tok s = (s4, Inr ())"
      by (simp add: rt_Delete_def Let_def 1(3) Some p 4(1,2))
    with 4 that [of s4] h show ?thesis by (simp add: 1 store_keys)
  qed
qed

lemma RevokeAll_refines:
  assumes up: "up s" and K: "indexed t (see s t)"
  obtains s' where "rt_RevokeAllForUser R t u s = (s', Inr ())" "up s'" "indexed t (see s' t)"
    "grants (see s' t) = restrict (\<lambda>h. \<not> owned_by (see s t) u h) (grants (see s t))"
    "\<And>g. see s' t (rt_usedKey g) = see s t (rt_usedKey g)"
proof -
  let ?K = "see s t" and ?u = "rt_userKey u"
  have wf: "wf_index (?K ?u)" by (rule indexedD [OF K])
  then obtain hs where hs: "rSMembers R s t ?u = ROk hs" "set hs = set (members (?K ?u))"
    using smembers_effect [OF up] by (metis wf_index_def)
  have hash: "\<forall>h \<in> set hs. is_hash h" using wf hs(2) by (simp add: wf_index_def)
  let ?ks = "if hs \<noteq> [] then map rt_key hs @ [?u] else [?u]"
  from del_effect [OF up, of t ?ks] obtain s' n where 1: "rDel R s t ?ks = (s', ROk n)" "up s'"
    "see s' t = (\<lambda>k. if k \<in> set ?ks then None else ?K k)" by blast
  have K': "see s' t k = (if k = ?u \<or> k \<in> rt_key ` set hs then None else ?K k)" for k by (auto simp: 1(3))
  have run: "rt_RevokeAllForUser R t u s = (s', Inr ())"
    using hs(1) 1(1) by (cases "hs = []") (simp_all add: rt_RevokeAllForUser_def Let_def)
  have "indexed t (see s' t) \<and> grants (see s' t) = restrict (\<lambda>h. h \<notin> set hs) (grants ?K)"
  proof (rule indexed_drop [OF K])
    fix g
    show "index_keeps (set hs) (?K (rt_userKey g)) (see s' t (rt_userKey g))"
      using hash hs(2) indexedD(2) [OF K, of g]
      by (cases "g = u") (auto simp: K' store_keys intro: index_keeps_gone index_keeps_same)
    show "index_keeps (set hs) (?K (rt_familyKey g)) (see s' t (rt_familyKey g))"
      using hash indexedD(3) [OF K, of g] by (auto simp: K' store_keys intro: index_keeps_same)
    show "used_ok (see s' t (rt_usedKey g))"
      using hash indexedD(4) [OF K, of g] by (auto simp: K' store_keys used_ok_def)
    show "plain_entry (see s' t (code_key g))"
      using indexedD(5) [OF K, of g] by (auto simp: K')
  qed (auto simp: K' store_keys)
  moreover have "restrict (\<lambda>h. h \<notin> set hs) (grants ?K) = restrict (\<lambda>h. \<not> owned_by ?K u h) (grants ?K)"
    using indexed_exact(2) [OF K] by (auto simp: restrict_def owned_by_def hs(2) fun_eq_iff split: option.splits)
  moreover have "rt_usedKey g \<notin> rt_key ` set hs" for g using hash by (auto simp: store_keys)
  ultimately show ?thesis
    using that [OF run 1(2)] by (simp add: K')
qed

text \<open>Authorization codes live under other keys.\<close>

lemma code_keeps:
  assumes K: "indexed t K" and K': "\<And>k. k \<notin> range code_key \<Longrightarrow> K' k = K k" and "\<And>c. plain_entry (K' (code_key c))"
  shows "indexed t K' \<and> grants K' = grants K"
proof -
  have same: "K' (rt_key h) = K (rt_key h)" "K' (rt_userKey h) = K (rt_userKey h)"
    "K' (rt_familyKey h) = K (rt_familyKey h)" "K' (rt_usedKey h) = K (rt_usedKey h)" for h
    by (rule K', auto)+
  have "indexed t K' \<and> grants K' = restrict (\<lambda>h. h \<notin> {}) (grants K)"
    using indexedD [OF K] assms(3) by (intro indexed_drop [OF K]) (auto simp: same intro: index_keeps_same)
  then show ?thesis by (simp add: restrict_def fun_eq_iff)
qed

lemma code_Save_effect:
  assumes "up s" "indexed t (see s t)"
  obtains s' where "code_Save R t a s = (s', Inr ())" "up s'" "indexed t (see s' t)"
    "see s' t = (see s t)(code_key (ac_Code a) \<mapsto> (RDoc (CodeDoc a), Some (t + codeTTL)))"
proof -
  from set_effect [OF assms(1), of codeTTL t "code_key (ac_Code a)" "RDoc (CodeDoc a)"] obtain s' where
    1: "rSet R s t (code_key (ac_Code a)) (RDoc (CodeDoc a)) codeTTL = (s', ROk ())" "up s'"
    "see s' t = (see s t)(code_key (ac_Code a) \<mapsto> (RDoc (CodeDoc a), Some (t + codeTTL)))" by auto
  have "indexed t (see s' t)"
    by (rule conjunct1 [OF code_keeps [OF assms(2)]]) (use indexedD(5) [OF assms(2)] in \<open>auto simp: 1(3)\<close>)
  with 1 that show ?thesis by (simp add: code_Save_def)
qed

lemma code_Consume_effect:
  assumes "up s" "indexed t (see s t)"
  shows "up (fst (code_GetAndConsume R t c s)) \<and> indexed t (see (fst (code_GetAndConsume R t c s)) t) \<and>
    see (fst (code_GetAndConsume R t c s)) t = (see s t)(code_key c := None)"
proof -
  from getdel_effect [OF assms(1) indexedD(5) [OF assms(2)]] obtain s' where 1: "up s'"
    "see s' t = (see s t)(code_key c := None)"
    "rGetDel R s t (code_key c) = (s', case see s t (code_key c) of None \<Rightarrow> RNil | Some (v, _) \<Rightarrow> ROk v)" by metis
  then have "fst (code_GetAndConsume R t c s) = s'"
    by (simp add: code_GetAndConsume_def split: option.splits)
  moreover have "indexed t (see s' t)"
    by (rule conjunct1 [OF code_keeps [OF assms(2)]]) (use indexedD(5) [OF assms(2)] in \<open>auto simp: 1(2)\<close>)
  ultimately show ?thesis using 1 by simp
qed

end

interpretation memo: oidc_redis mem_server mem_see mem_up
  by unfold_locales

section \<open>Histories of the store\<close>

text \<open>
  What can happen to the store between two instants: time passes, tokens and codes are saved, consumed,
  deleted and revoked, in any order. A saved token is a fresh random value: its hash is in no index and
  was not consumed before.
\<close>

inductive oidc_run :: "('r, oidc_doc) redis \<Rightarrow> ('r \<Rightarrow> instant \<Rightarrow> string \<Rightarrow> oidc_doc rentry option) \<Rightarrow>
    (string \<Rightarrow> bytes) \<Rightarrow> 'r \<Rightarrow> instant \<Rightarrow> 'r \<Rightarrow> instant \<Rightarrow> bool"
  for R see sha s0 t0 where
  start: "oidc_run R see sha s0 t0 s0 t0"
| wait: "oidc_run R see sha s0 t0 s t \<Longrightarrow> t \<le> t' \<Longrightarrow> oidc_run R see sha s0 t0 s t'"
| save: "oidc_run R see sha s0 t0 s t \<Longrightarrow> fresh_hash (see s t) (rt_hash sha (hex_encode b)) \<Longrightarrow>
    see s t (rt_usedKey (rt_hash sha (hex_encode b))) = None \<Longrightarrow> fid \<noteq> '''' \<Longrightarrow>
    oidc_run R see sha s0 t0 (fst (rt_Save R sha t (Some b) fid d s)) t"
| consume: "oidc_run R see sha s0 t0 s t \<Longrightarrow> oidc_run R see sha s0 t0 (fst (rt_GetAndConsume R sha t tok s)) t"
| delete: "oidc_run R see sha s0 t0 s t \<Longrightarrow> oidc_run R see sha s0 t0 (fst (rt_Delete R sha t tok s)) t"
| revoke_user: "oidc_run R see sha s0 t0 s t \<Longrightarrow> oidc_run R see sha s0 t0 (fst (rt_RevokeAllForUser R t u s)) t"
| save_code: "oidc_run R see sha s0 t0 s t \<Longrightarrow> oidc_run R see sha s0 t0 (fst (code_Save R t a s)) t"
| consume_code: "oidc_run R see sha s0 t0 s t \<Longrightarrow> oidc_run R see sha s0 t0 (fst (code_GetAndConsume R t c s)) t"

context oidc_redis
begin

lemma run_indexed:
  assumes "oidc_run R see sha s0 t0 s t" "up s0" "indexed t0 (see s0 t0)"
  shows "up s \<and> indexed t (see s t) \<and> t0 \<le> t"
  using assms
proof (induction rule: oidc_run.induct)
  case (wait s t t')
  then show ?case using indexed_see_later by auto
next
  case (save s t b fid d)
  then show ?case using Save_refines [of s t sha b fid d] by (metis fst_conv)
next
  case (consume s t tok)
  then show ?case
    using Consume_refines [of s t sha tok] Miss_refines [of s t sha tok]
    by (cases "grants (see s t) (rt_hash sha tok)") (metis fst_conv)+
next
  case (delete s t tok)
  then show ?case using Delete_refines [of s t sha tok] by (metis fst_conv)
next
  case (revoke_user s t u)
  then show ?case using RevokeAll_refines [of s t u] by (metis fst_conv)
next
  case (save_code s t a)
  then show ?case using code_Save_effect [of s t a] by (metis fst_conv)
next
  case (consume_code s t c)
  then show ?case using code_Consume_effect [of s t c] by metis
qed simp

text \<open>A tombstone stays until its expiry, and the token it stands for does not come back.\<close>

abbreviation dead_token :: "'r \<Rightarrow> instant \<Rightarrow> string \<Rightarrow> refresh_session \<Rightarrow> instant \<Rightarrow> bool" where
  "dead_token s t h d x \<equiv> grants (see s t) h = None \<and> see s t (rt_usedKey h) = Some (RDoc (RefreshDoc d), Some x)"

lemma run_tombstone:
  assumes "oidc_run R see sha s0 t0 s t" "up s0" "indexed t0 (see s0 t0)" "dead_token s0 t0 h d x" "t < x"
  shows "dead_token s t h d x"
  using assms
proof (induction rule: oidc_run.induct)
  case (wait s t t')
  then have dead: "dead_token s t h d x" by simp
  have "see s t' = (\<lambda>k. live t' (see s t k))" using see_later wait.hyps(2) by blast
  with dead wait.prems show ?case by (auto simp: grants_def live_def split: option.splits if_splits)
next
  case (save s t b fid d')
  then have "rt_hash sha (hex_encode b) \<noteq> h" by auto
  with save run_indexed [OF save.hyps(1) save.prems(1,2)] Save_refines [of s t sha b fid d'] show ?case
    by (metis fst_conv fun_upd_other)
next
  case (consume s t tok)
  note inv = run_indexed [OF consume.hyps(1) consume.prems(1,2)]
  show ?case
  proof (cases "grants (see s t) (rt_hash sha tok)")
    case None
    from inv have "up s" "indexed t (see s t)" by auto
    from Miss_refines [OF this None] obtain s' e where s': "rt_GetAndConsume R sha t tok s = (s', Inl e)"
      "\<And>g. see s' t (rt_usedKey g) = see s t (rt_usedKey g)"
      and "case see s t (rt_usedKey (rt_hash sha tok)) of
       None \<Rightarrow> e = ErrRefreshTokenNotFound \<and> grants (see s' t) = grants (see s t)
     | Some (v, _) \<Rightarrow> e = ErrRefreshTokenReused \<and> (\<exists>d. unmarshal_refresh v = Some d \<and>
         grants (see s' t) = restrict (\<lambda>h. \<not> family_of (see s t) (rs_FamilyID d) h) (grants (see s t)))"
      by blast
    then have "grants (see s' t) g = None" if "grants (see s t) g = None" for g
      using that by (auto simp: restrict_def split: option.splits)
    with consume s' show ?thesis by simp
  next
    case (Some e)
    with consume have "rt_hash sha tok \<noteq> h" by auto
    with consume Consume_refines [OF _ _ Some] inv show ?thesis by (metis fst_conv fun_upd_other)
  qed
next
  case (delete s t tok)
  with Delete_refines [of s t sha tok] run_indexed [OF delete.hyps(1) delete.prems(1,2)] show ?case
    by (metis fst_conv fun_upd_apply)
next
  case (revoke_user s t u)
  from run_indexed [OF revoke_user.hyps(1) revoke_user.prems(1,2)] have "up s" "indexed t (see s t)" by auto
  from RevokeAll_refines [OF this] obtain s' where "rt_RevokeAllForUser R t u s = (s', Inr ())"
    "grants (see s' t) = restrict (\<lambda>h. \<not> owned_by (see s t) u h) (grants (see s t))"
    "\<And>g. see s' t (rt_usedKey g) = see s t (rt_usedKey g)" by blast
  with revoke_user show ?case by (simp add: restrict_def)
next
  case (save_code s t a)
  from run_indexed [OF save_code.hyps(1) save_code.prems(1,2)] have "up s" "indexed t (see s t)" by auto
  from code_Save_effect [OF this] obtain s' where s': "code_Save R t a s = (s', Inr ())"
    and K': "see s' t = (see s t)(code_key (ac_Code a) \<mapsto> (RDoc (CodeDoc a), Some (t + codeTTL)))" by blast
  have "grants (see s' t) = grants (see s t)" "see s' t (rt_usedKey h) = see s t (rt_usedKey h)"
    unfolding K' by (rule grants_code, simp)
  with save_code s' show ?case by simp
next
  case (consume_code s t c)
  from run_indexed [OF consume_code.hyps(1) consume_code.prems(1,2)] code_Consume_effect [of s t c]
  have K': "see (fst (code_GetAndConsume R t c s)) t = (see s t)(code_key c := None)" by blast
  let ?s' = "fst (code_GetAndConsume R t c s)"
  have "grants (see ?s' t) = grants (see s t)" "see ?s' t (rt_usedKey h) = see s t (rt_usedKey h)"
    unfolding K' by (rule grants_code, simp)
  with consume_code show ?case by simp
qed simp

end

context oidc_redis
begin

lemma reuse_revokes:
  assumes "up s" "indexed t (see s t)" "rt_GetAndConsume R sha t tok s = (s1, Inr d)"
    and run: "oidc_run R see sha s1 t s2 t2" and soon: "t2 < t + OIDCRefreshTTL"
  shows "\<exists>s3. rt_GetAndConsume R sha t2 tok s2 = (s3, Inl ErrRefreshTokenReused) \<and> up s3 \<and> indexed t2 (see s3 t2) \<and>
    grants (see s3 t2) = restrict (\<lambda>h. \<not> family_of (see s2 t2) (rs_FamilyID d) h) (grants (see s2 t2))"
proof -
  let ?h = "rt_hash sha tok"
  have d: "grants (see s t) ?h = Some d" by (rule Consume_cases [OF assms(1-3)])
  from Consume_refines [OF assms(1,2) d] obtain s' where s': "rt_GetAndConsume R sha t tok s = (s', Inr d)"
    "up s'" "indexed t (see s' t)" "grants (see s' t) = (grants (see s t))(?h := None)"
    "see s' t (rt_usedKey ?h) = Some (RDoc (RefreshDoc d), Some (t + OIDCRefreshTTL))" by (metis (full_types))
  with assms(3) have s1: "up s1" "indexed t (see s1 t)"
    and "dead_token s1 t ?h d (t + OIDCRefreshTTL)" by auto
  then have dead: "dead_token s2 t2 ?h d (t + OIDCRefreshTTL)" using run_tombstone [OF run s1 _ soon] by blast
  from run_indexed [OF run s1] have s2: "up s2" "indexed t2 (see s2 t2)" by auto
  from dead have "grants (see s2 t2) ?h = None" by blast
  from Miss_refines [OF s2 this] obtain s3 e where s3: "rt_GetAndConsume R sha t2 tok s2 = (s3, Inl e)" "up s3"
    "indexed t2 (see s3 t2)"
    and "case see s2 t2 (rt_usedKey ?h) of
       None \<Rightarrow> e = ErrRefreshTokenNotFound \<and> grants (see s3 t2) = grants (see s2 t2)
     | Some (v, _) \<Rightarrow> e = ErrRefreshTokenReused \<and> (\<exists>d. unmarshal_refresh v = Some d \<and>
         grants (see s3 t2) = restrict (\<lambda>h. \<not> family_of (see s2 t2) (rs_FamilyID d) h) (grants (see s2 t2)))"
    by blast
  with dead show ?thesis by simp
qed

end

section \<open>Properties\<close>

definition empty_oidc :: "oidc_doc mem_redis" where
  "empty_oidc = \<lparr>mem_kv = (\<lambda>_. None), mem_up = True\<rparr>"

definition demo_grant :: refresh_session where
  "demo_grant = \<lparr>rs_UserID = ''a'', rs_ClientID = ''c1'', rs_Scopes = [''openid''], rs_AuthTime = 0, rs_FamilyID = ''f1''\<rparr>"

definition demo_tok :: string where "demo_tok = hex_encode [1]"

text \<open>A token is issued, consumed and replaced by its successor in the same family.\<close>

definition demo_issued :: "oidc_doc mem_redis" where
  "demo_issued = fst (rt_Save mem_server bytes_of 0 (Some [1]) ''f1'' demo_grant empty_oidc)"

definition demo_consumed :: "oidc_doc mem_redis" where
  "demo_consumed = fst (rt_GetAndConsume mem_server bytes_of 0 demo_tok demo_issued)"

definition demo_successor :: "oidc_doc mem_redis" where
  "demo_successor = fst (rt_Save mem_server bytes_of 0 (Some [2]) ''f1'' demo_grant demo_consumed)"

lemma empty_oidc_indexed: "mem_up empty_oidc" "indexed 0 (mem_see empty_oidc 0)" "grants (mem_see empty_oidc 0) = Map.empty"
  by (simp_all add: empty_oidc_def indexed_def mem_see_def token_ok_def used_ok_def exact_def grants_def fun_eq_iff)

lemma demo_words: "(1 :: 8 word) \<noteq> 2"
  by simp

lemma demo_hashes: "rt_hash bytes_of demo_tok \<noteq> rt_hash bytes_of (hex_encode [2])"
proof -
  have "bytes_of demo_tok \<noteq> bytes_of (hex_encode [2])"
    by (metis string_of_bytes_of demo_tok_def hex_encode_inj list.inject demo_words)
  then show ?thesis by (simp add: rt_hash_def hex_encode_inj)
qed

lemma mem_members_empty: "mem_see empty_oidc t k = None"
  by (simp add: empty_oidc_def mem_see_def)

lemma demo_save1:
  "rt_Save mem_server bytes_of 0 (Some [1]) ''f1'' demo_grant empty_oidc = (demo_issued, Inr demo_tok)"
  "mem_up demo_issued" "indexed 0 (mem_see demo_issued 0)"
  "grants (mem_see demo_issued 0) = [rt_hash bytes_of demo_tok \<mapsto> demo_grant]"
  "mem_see demo_issued 0 (rt_usedKey g) = None"
  "set (members (mem_see demo_issued 0 k)) \<subseteq> {rt_hash bytes_of demo_tok}"
proof -
  have fresh: "fresh_hash (mem_see empty_oidc 0) (rt_hash bytes_of (hex_encode [1]))"
    by (simp add: fresh_hash_def mem_members_empty)
  obtain s' where
    s': "rt_Save mem_server bytes_of 0 (Some [1]) ''f1'' demo_grant empty_oidc = (s', Inr demo_tok)" "mem_up s'"
    "indexed 0 (mem_see s' 0)" "grants (mem_see s' 0) = [rt_hash bytes_of demo_tok \<mapsto> saved_as ''f1'' demo_grant]"
    "\<And>h. mem_see s' 0 (rt_usedKey h) = None"
    "\<And>k. set (members (mem_see s' 0 k)) \<subseteq> {rt_hash bytes_of demo_tok}"
    by (rule memo.Save_refines [OF empty_oidc_indexed(1,2) fresh, of "''f1''" demo_grant])
      (auto simp: demo_tok_def empty_oidc_indexed(3) mem_members_empty)
  moreover have "demo_issued = s'" using s'(1) by (simp add: demo_issued_def)
  moreover have "saved_as ''f1'' demo_grant = demo_grant" by (simp add: saved_as_def demo_grant_def)
  ultimately show "rt_Save mem_server bytes_of 0 (Some [1]) ''f1'' demo_grant empty_oidc = (demo_issued, Inr demo_tok)"
    "mem_up demo_issued" "indexed 0 (mem_see demo_issued 0)"
    "grants (mem_see demo_issued 0) = [rt_hash bytes_of demo_tok \<mapsto> demo_grant]"
    "mem_see demo_issued 0 (rt_usedKey g) = None"
    "set (members (mem_see demo_issued 0 k)) \<subseteq> {rt_hash bytes_of demo_tok}" by simp_all
qed

lemma demo_consume:
  "rt_GetAndConsume mem_server bytes_of 0 demo_tok demo_issued = (demo_consumed, Inr demo_grant)"
  "set (members (mem_see demo_consumed 0 k)) \<subseteq> set (members (mem_see demo_issued 0 k))"
  "mem_see demo_consumed 0 (rt_usedKey g) = (if g = rt_hash bytes_of demo_tok
     then Some (RDoc (RefreshDoc demo_grant), Some (0 + OIDCRefreshTTL)) else mem_see demo_issued 0 (rt_usedKey g))"
proof -
  have g: "grants (mem_see demo_issued 0) (rt_hash bytes_of demo_tok) = Some demo_grant" by (simp add: demo_save1)
  show "rt_GetAndConsume mem_server bytes_of 0 demo_tok demo_issued = (demo_consumed, Inr demo_grant)"
    "set (members (mem_see demo_consumed 0 k)) \<subseteq> set (members (mem_see demo_issued 0 k))"
    "mem_see demo_consumed 0 (rt_usedKey g) = (if g = rt_hash bytes_of demo_tok
       then Some (RDoc (RefreshDoc demo_grant), Some (0 + OIDCRefreshTTL)) else mem_see demo_issued 0 (rt_usedKey g))"
    by (rule memo.Consume_refines [OF demo_save1(2,3) g]; simp add: demo_consumed_def)+
qed

lemma demo_fresh1: "fresh_hash (mem_see demo_issued 0) (rt_hash bytes_of (hex_encode [2]))"
proof -
  have "rt_hash bytes_of (hex_encode [2]) \<notin> set (members (mem_see demo_issued 0 k))" for k
  proof
    assume "rt_hash bytes_of (hex_encode [2]) \<in> set (members (mem_see demo_issued 0 k))"
    from subsetD [OF demo_save1(6) this] demo_hashes show False by simp
  qed
  then show ?thesis by (simp add: fresh_hash_def)
qed

lemma demo_fresh2:
  "fresh_hash (mem_see demo_consumed 0) (rt_hash bytes_of (hex_encode [2]))"
  "mem_see demo_consumed 0 (rt_usedKey (rt_hash bytes_of (hex_encode [2]))) = None"
proof -
  let ?h = "rt_hash bytes_of (hex_encode [2])"
  have "?h \<notin> set (members (mem_see demo_consumed 0 k))" for k
  proof
    assume "?h \<in> set (members (mem_see demo_consumed 0 k))"
    from subsetD [OF demo_save1(6) subsetD [OF demo_consume(2) this]] demo_hashes show False by simp
  qed
  then show "fresh_hash (mem_see demo_consumed 0) ?h" by (auto simp: fresh_hash_def)
  show "mem_see demo_consumed 0 (rt_usedKey ?h) = None"
    using demo_hashes by (simp add: demo_consume(3) demo_save1(5))
qed

text \<open>C17: reuse of a consumed refresh token is detected and ends its grant chain (RFC 6819, 5.2.2.3). After
  \<open>GetAndConsume\<close> has handed out the grant of a token, and after any history of issuing, consuming, deleting
  and revoking, presenting the token again within its 30 days answers \<open>ErrRefreshTokenReused\<close> and removes
  exactly the live tokens of that family: no token of the family is left, every other grant is untouched.\<close>

theorem refresh_reuse_revokes_family:
  assumes "oidc_redis R see up" "up s" "indexed t (see s t)"
    and "rt_GetAndConsume R sha t tok s = (s1, Inr d)"
    and "oidc_run R see sha s1 t s2 t2" "t2 < t + OIDCRefreshTTL"
  shows "\<exists>s3. rt_GetAndConsume R sha t2 tok s2 = (s3, Inl ErrRefreshTokenReused) \<and>
    (\<forall>h. grants (see s3 t2) h =
      (if family_of (see s2 t2) (rs_FamilyID d) h then None else grants (see s2 t2) h)) \<and>
    (\<forall>h. \<not> family_of (see s3 t2) (rs_FamilyID d) h)"
proof -
  from oidc_redis.reuse_revokes [OF assms] obtain s3 where "rt_GetAndConsume R sha t2 tok s2 = (s3, Inl ErrRefreshTokenReused)"
    and g: "grants (see s3 t2) = restrict (\<lambda>h. \<not> family_of (see s2 t2) (rs_FamilyID d) h) (grants (see s2 t2))" by blast
  moreover have "\<not> family_of (see s3 t2) (rs_FamilyID d) h" for h
    by (simp add: family_of_def g restrict_def split: option.splits)
  ultimately show ?thesis by (auto simp: restrict_def)
qed

theorem refresh_reuse_revokes_family_witness:
  "\<exists>s3. rt_GetAndConsume mem_server bytes_of go_minute demo_tok demo_successor = (s3, Inl ErrRefreshTokenReused) \<and>
    (\<forall>h. grants (mem_see s3 go_minute) h =
      (if family_of (mem_see demo_successor go_minute) (rs_FamilyID demo_grant) h then None
       else grants (mem_see demo_successor go_minute) h)) \<and>
    (\<forall>h. \<not> family_of (mem_see s3 go_minute) (rs_FamilyID demo_grant) h)"
proof -
  have "oidc_run mem_server mem_see bytes_of demo_consumed 0 demo_successor go_minute"
    unfolding demo_successor_def by (rule wait [OF save [OF start]]) (simp_all add: demo_fresh2)
  from refresh_reuse_revokes_family [OF memo.oidc_redis_axioms demo_save1(2,3) demo_consume(1) this] show ?thesis
    by (simp add: OIDCRefreshTTL_def)
qed

end
