(* ===== verification/Go_Base64.thy ===== *)
theory Go_Base64
  imports ZT_Prelude
begin

text \<open>
  Package \<open>encoding/base64\<close>: \<open>RawURLEncoding\<close>, the alphabet with \<open>-\<close> and \<open>_\<close> and without padding, as the
  code uses it for PKCE challenges, key thumbprints and DPoP token hashes.
\<close>

definition b64_alphabet :: string where
  "b64_alphabet = ''ABCDEFGHIJKLMNOPQRSTUVWXYZabcdefghijklmnopqrstuvwxyz0123456789-_''"

definition b64_char :: "nat \<Rightarrow> char" where
  "b64_char n = b64_alphabet ! n"

text \<open>Three bytes become four digits; the last group may have one or two bytes.\<close>

fun RawURLEncoding :: "bytes \<Rightarrow> string" where
  "RawURLEncoding [] = []"
| "RawURLEncoding [a] = map b64_char [unat a div 4, unat a mod 4 * 16]"
| "RawURLEncoding [a, b] = map b64_char [unat a div 4, unat a mod 4 * 16 + unat b div 16, unat b mod 16 * 4]"
| "RawURLEncoding (a # b # c # cs) =
     map b64_char [unat a div 4, unat a mod 4 * 16 + unat b div 16, unat b mod 16 * 4 + unat c div 64, unat c mod 64]
     @ RawURLEncoding cs"

lemma b64_alphabet_distinct: "distinct b64_alphabet"
  unfolding b64_alphabet_def by code_simp

lemma b64_alphabet_length: "length b64_alphabet = 64"
  by (simp add: b64_alphabet_def)

lemma b64_char_inj: "m < 64 \<Longrightarrow> n < 64 \<Longrightarrow> b64_char m = b64_char n \<longleftrightarrow> m = n"
  by (simp add: b64_char_def nth_eq_iff_index_eq b64_alphabet_distinct b64_alphabet_length)

lemma byte_bounds: "unat (a :: 8 word) div 4 < 64" "unat a div 16 < 16" "unat a div 64 < 4" "unat a < 256"
proof -
  have "unat a < 2 ^ LENGTH(8)" by (rule unsigned_less)
  then show "unat a < 256" by simp
  then show "unat a div 4 < 64" "unat a div 16 < 16" "unat a div 64 < 4" by simp_all
qed

lemma div_mod_same: "m div k = n div k \<Longrightarrow> m mod k = n mod k \<Longrightarrow> m = (n :: nat)"
  by (metis div_mult_mod_eq)

lemma byte_eqI: "unat a div k = unat b div k \<Longrightarrow> unat a mod k = unat b mod k \<Longrightarrow> a = (b :: 8 word)"
  by (metis div_mod_same word_unat_eq_iff)

lemma digit_pair:
  assumes "p < k" "q < k" "m * k + p = n * k + (q :: nat)"
  shows "m = n" "p = q"
proof -
  have "(m * k + p) div k = m" "(n * k + q) div k = n" using assms(1,2) by auto
  then show "m = n" unfolding assms(3) by simp
  with assms(3) show "p = q" by simp
qed

lemma b64_two:
  fixes a a' :: "8 word"
  assumes "map b64_char [unat a div 4, unat a mod 4 * 16 + p] = map b64_char [unat a' div 4, unat a' mod 4 * 16 + q]"
    and "p < 16" "q < 16"
  shows "a = a' \<and> p = q"
proof -
  have lt: "unat a mod 4 * 16 + p < 64" "unat a' mod 4 * 16 + q < 64"
    using assms(2,3) mod_less_divisor [of 4 "unat a"] mod_less_divisor [of 4 "unat a'"] by linarith+
  from assms(1) have div: "unat a div 4 = unat a' div 4" and eq: "unat a mod 4 * 16 + p = unat a' mod 4 * 16 + q"
    by (simp_all add: b64_char_inj byte_bounds lt)
  from digit_pair [OF assms(2,3) eq] div show ?thesis by (auto intro: byte_eqI)
qed

lemma b64_third:
  fixes b b' :: "8 word"
  assumes "b64_char (unat b mod 16 * 4 + p) = b64_char (unat b' mod 16 * 4 + q)" "p < 4" "q < 4"
    and "unat b div 16 = unat b' div 16"
  shows "b = b' \<and> p = q"
proof -
  have lt: "unat b mod 16 * 4 + p < 64" "unat b' mod 16 * 4 + q < 64"
    using assms(2,3) mod_less_divisor [of 16 "unat b"] mod_less_divisor [of 16 "unat b'"] by linarith+
  from assms(1) lt have "unat b mod 16 * 4 + p = unat b' mod 16 * 4 + q" by (simp add: b64_char_inj)
  from digit_pair [OF assms(2,3) this] assms(4) show ?thesis by (auto intro: byte_eqI)
qed

lemma RawURLEncoding_length_mod: "length (RawURLEncoding xs) = (length xs * 4 + 2) div 3"
  by (induction xs rule: RawURLEncoding.induct) simp_all

lemma RawURLEncoding_inj_aux:
  "length xs = length ys \<Longrightarrow> RawURLEncoding xs = RawURLEncoding ys \<Longrightarrow> xs = ys"
proof (induction xs arbitrary: ys rule: RawURLEncoding.induct)
  case 1
  then show ?case by simp
next
  case (2 a)
  then obtain a' where ys: "ys = [a']" by (cases ys) auto
  with 2 b64_two [of a 0 a' 0] show ?case by simp
next
  case (3 a b)
  then have "length ys = Suc (Suc 0)" by simp
  then obtain a' b' where ys: "ys = [a', b']" by (auto simp: length_Suc_conv)
  with 3 b64_two [of a "unat b div 16" a' "unat b' div 16"] b64_third [of b 0 b' 0] show ?case
    by (simp add: byte_bounds)
next
  case (4 a b c cs)
  then have "length ys = Suc (Suc (Suc (length cs)))" by simp
  then obtain a' b' c' cs' where ys: "ys = a' # b' # c' # cs'" by (auto simp: length_Suc_conv)
  with "4.prems" have ab: "a = a'" "unat b div 16 = unat b' div 16"
    using b64_two [of a "unat b div 16" a' "unat b' div 16"] by (simp_all add: byte_bounds)
  from ys "4.prems" ab have bc: "b = b'" "unat c div 64 = unat c' div 64"
    using b64_third [of b "unat c div 64" b' "unat c' div 64"] by (simp_all add: byte_bounds)
  from ys "4.prems" have "unat c mod 64 = unat c' mod 64" by (simp add: b64_char_inj)
  with bc(2) have "c = c'" by (rule byte_eqI)
  with ab(1) bc(1) ys "4.IH" [of cs'] "4.prems" show ?case by simp
qed

lemma RawURLEncoding_inj: "RawURLEncoding xs = RawURLEncoding ys \<longleftrightarrow> xs = ys"
proof
  assume eq: "RawURLEncoding xs = RawURLEncoding ys"
  then have "(length xs * 4 + 2) div 3 = (length ys * 4 + 2) div 3"
    by (metis RawURLEncoding_length_mod)
  moreover have "3 * ((n * 4 + 2) div 3) \<le> n * 4 + 2" "n * 4 + 2 < 3 * ((n * 4 + 2) div 3) + 3" for n :: nat
    by (simp_all add: dividend_less_times_div)
  note this [of "length xs"] this [of "length ys"]
  ultimately have "length xs * 4 < length ys * 4 + 3" "length ys * 4 < length xs * 4 + 3" by linarith+
  then have "length xs = length ys" by linarith
  then show "xs = ys" using eq by (rule RawURLEncoding_inj_aux)
qed simp

section \<open>Decoding\<close>

text \<open>\<open>RawURLEncoding.DecodeString\<close>: carriage returns and newlines are skipped, another character outside the
  alphabet or a single left-over digit is an error, and the unused low bits of the last digit are ignored
  (the encoding is not strict).\<close>

definition b64_val :: "char \<Rightarrow> nat option" where
  "b64_val c = (let n = of_char c :: nat in
     if 65 \<le> n \<and> n \<le> 90 then Some (n - 65)
     else if 97 \<le> n \<and> n \<le> 122 then Some (n - 71)
     else if 48 \<le> n \<and> n \<le> 57 then Some (n + 4)
     else if c = CHR ''-'' then Some 62 else if c = CHR ''_'' then Some 63 else None)"

fun b64_digits :: "nat list \<Rightarrow> bytes option" where
  "b64_digits [] = Some []"
| "b64_digits [_] = None"
| "b64_digits [p, q] = Some [of_nat (p * 4 + q div 16)]"
| "b64_digits [p, q, r] = Some [of_nat (p * 4 + q div 16), of_nat (q mod 16 * 16 + r div 4)]"
| "b64_digits (p # q # r # s # ds) = (case b64_digits ds of None \<Rightarrow> None
     | Some bs \<Rightarrow> Some (of_nat (p * 4 + q div 16) # of_nat (q mod 16 * 16 + r div 4) # of_nat (r mod 4 * 64 + s) # bs))"

definition RawURLDecode :: "string \<Rightarrow> bytes option" where
  "RawURLDecode s =
    (let ds = map b64_val (filter (\<lambda>c. c \<noteq> CHR 0x0A \<and> c \<noteq> CHR 0x0D) s) in
     if None \<in> set ds then None else b64_digits (map the ds))"

lemma b64_val_char: "n < 64 \<Longrightarrow> b64_val (b64_char n) = Some n"
proof -
  assume n: "n < 64"
  have "map b64_val b64_alphabet = map Some [0..<64]"
    by (simp add: b64_alphabet_def b64_val_def) code_simp
  then have "map b64_val b64_alphabet ! n = map Some [0..<64] ! n" by simp
  with n show ?thesis by (simp add: b64_char_def b64_alphabet_length)
qed

lemma b64_char_visible: "n < 64 \<Longrightarrow> b64_char n \<noteq> CHR 0x0A \<and> b64_char n \<noteq> CHR 0x0D"
  using b64_val_char [of n] by (auto simp: b64_val_def)

text \<open>The digits of an encoding.\<close>

fun b64_split :: "bytes \<Rightarrow> nat list" where
  "b64_split [] = []"
| "b64_split [a] = [unat a div 4, unat a mod 4 * 16]"
| "b64_split [a, b] = [unat a div 4, unat a mod 4 * 16 + unat b div 16, unat b mod 16 * 4]"
| "b64_split (a # b # c # cs) =
     [unat a div 4, unat a mod 4 * 16 + unat b div 16, unat b mod 16 * 4 + unat c div 64, unat c mod 64] @ b64_split cs"

lemma RawURLEncoding_split: "RawURLEncoding bs = map b64_char (b64_split bs)"
  by (induction bs rule: b64_split.induct) simp_all

lemma group_bounds:
  "unat (a :: 8 word) mod 4 * 16 + unat (b :: 8 word) div 16 < 64" "unat a mod 16 * 4 + unat b div 64 < 64"
  "unat a mod 4 * 16 < 64" "unat a mod 16 * 4 < 64"
proof -
  have "unat a mod 4 < 4" "unat a mod 16 < 16" by simp_all
  with byte_bounds [of b] show "unat a mod 4 * 16 + unat b div 16 < 64" "unat a mod 16 * 4 + unat b div 64 < 64"
    "unat a mod 4 * 16 < 64" "unat a mod 16 * 4 < 64" by linarith+
qed

lemma b64_split_bound: "d \<in> set (b64_split bs) \<Longrightarrow> d < 64"
  by (induction bs rule: b64_split.induct) (auto simp: byte_bounds group_bounds)

lemma digits_joined:
  "(unat (a :: 8 word) mod 4 * 16 + unat (b :: 8 word) div 16) div 16 = unat a mod 4"
  "(unat a mod 4 * 16 + unat b div 16) mod 16 = unat b div 16"
  "(unat a mod 16 * 4 + unat b div 64) div 4 = unat a mod 16"
  "(unat a mod 16 * 4 + unat b div 64) mod 4 = unat b div 64"
  using byte_bounds [of b] by simp_all

lemma joined_byte: "of_nat (unat (a :: 8 word) div k * k + unat a mod k) = a"
  by (simp only: div_mult_mod_eq of_nat_unat ucast_id)

lemma joined_words:
  "word_of_nat (unat (a :: 8 word) div 16 mod 16) * 16 + word_of_nat (unat a mod 16) = a"
  "word_of_nat (unat a div 64 mod 4) * 64 + word_of_nat (unat a mod 64) = a"
  by (metis joined_byte of_nat_add of_nat_mult of_nat_numeral mod_less byte_bounds(2,3))+

lemma b64_digits_split: "b64_digits (b64_split bs) = Some bs"
  by (induction bs rule: b64_split.induct) (simp_all add: digits_joined joined_byte joined_words)

lemma RawURL_roundtrip: "RawURLDecode (RawURLEncoding bs) = Some bs"
proof -
  have "filter (\<lambda>c. c \<noteq> CHR 0x0A \<and> c \<noteq> CHR 0x0D) (RawURLEncoding bs) = RawURLEncoding bs"
    by (auto simp: RawURLEncoding_split filter_id_conv dest: b64_split_bound b64_char_visible)
  moreover have "map b64_val (RawURLEncoding bs) = map Some (b64_split bs)"
    by (simp add: RawURLEncoding_split b64_val_char b64_split_bound)
  ultimately show ?thesis by (auto simp: RawURLDecode_def Let_def b64_digits_split comp_def)
qed

end
