(* ===== verification/OIDC_Service.thy ===== *)
theory OIDC_Service
  imports OIDC_Store Go_Base64 Token_Service User_Repo
begin

text \<open>
  \<open>internal/oidc/client.go\<close> and \<open>internal/oidc/service.go\<close>: the registered OAuth2 clients, the
  authorization code and refresh token grants, PKCE. The service uses the stores of \<open>OIDC_Store\<close>, the
  key store of \<open>Token_Service\<close> and the users of \<open>User_Repo\<close>; bcrypt, SHA-256 and the JWT library are
  parameters.
\<close>

section \<open>Clients\<close>

record oidc_client =
  cl_ID :: string
  cl_ClientID :: string
  cl_SecretHash :: string
  cl_Name :: string
  cl_RedirectURIs :: "string list"
  cl_AllowedScopes :: "string list"
  cl_CreatedAt :: instant
  cl_UpdatedAt :: instant

type_synonym client_table = "oidc_client list"

datatype client_error = ErrClientNotFound | ErrInvalidClientSecret | ErrClientDB | ErrClientHash | ErrClientRandom

definition cl_FindByClientID :: "bool \<Rightarrow> string \<Rightarrow> client_table \<Rightarrow> client_error + oidc_client" where
  "cl_FindByClientID ok clientID tbl = (if \<not> ok then Inl ErrClientDB
     else case sql_first (\<lambda>c. cl_ClientID c = clientID) tbl of None \<Rightarrow> Inl ErrClientNotFound | Some c \<Rightarrow> Inr c)"

definition AuthenticateClient :: "(string \<Rightarrow> string \<Rightarrow> bool) \<Rightarrow> bool \<Rightarrow> string \<Rightarrow> string \<Rightarrow> client_table \<Rightarrow>
    client_error + oidc_client" where
  "AuthenticateClient bcrypt ok clientID clientSecret tbl =
    (case cl_FindByClientID ok clientID tbl of
       Inl e \<Rightarrow> Inl e
     | Inr c \<Rightarrow> if bcrypt (cl_SecretHash c) clientSecret then Inr c else Inl ErrInvalidClientSecret)"

definition ValidateRedirectURI :: "oidc_client \<Rightarrow> string \<Rightarrow> bool" where
  "ValidateRedirectURI c uri = list_ex (\<lambda>u. u = uri) (cl_RedirectURIs c)"

definition ValidateScope :: "oidc_client \<Rightarrow> string list \<Rightarrow> bool" where
  "ValidateScope c scopes = list_all (\<lambda>s. s \<in> set (cl_AllowedScopes c)) scopes"

text \<open>\<open>ORDER BY created_at DESC\<close>; rows created at the same instant come in any order.\<close>

definition cl_List :: "bool \<Rightarrow> client_table \<Rightarrow> client_error + oidc_client list" where
  "cl_List ok tbl = (if \<not> ok then Inl ErrClientDB else Inr (rev (sort_key cl_CreatedAt tbl)))"

text \<open>\<open>client_id\<close> is unique: a second row with it is refused.\<close>

definition cl_Create :: "bool \<Rightarrow> string \<Rightarrow> instant \<Rightarrow> string \<Rightarrow> string \<Rightarrow> string \<Rightarrow> string list \<Rightarrow> string list \<Rightarrow> client_table \<Rightarrow>
    client_table \<times> (client_error + oidc_client)" where
  "cl_Create ok newid now clientID secretHash name redirectURIs allowedScopes tbl =
    (if \<not> ok \<or> list_ex (\<lambda>c. cl_ClientID c = clientID \<or> cl_ID c = newid) tbl then (tbl, Inl ErrClientDB)
     else (let c = \<lparr>cl_ID = newid, cl_ClientID = clientID, cl_SecretHash = secretHash, cl_Name = name,
             cl_RedirectURIs = redirectURIs, cl_AllowedScopes = allowedScopes, cl_CreatedAt = now, cl_UpdatedAt = now\<rparr>
           in (tbl @ [c], Inr c)))"

definition cl_Delete :: "bool \<Rightarrow> string \<Rightarrow> client_table \<Rightarrow> client_table \<times> (client_error + string)" where
  "cl_Delete ok i tbl = (if \<not> ok then (tbl, Inl ErrClientDB)
     else case sql_first (\<lambda>c. cl_ID c = i) tbl of
         None \<Rightarrow> (tbl, Inl ErrClientNotFound)
       | Some c \<Rightarrow> (filter (\<lambda>c. cl_ID c \<noteq> i) tbl, Inr (cl_ClientID c)))"

text \<open>\<open>raw\<close> is the outcome of \<open>rand.Read\<close>, \<open>hash\<close> of \<open>bcrypt.GenerateFromPassword\<close>.\<close>

definition cl_RotateSecret :: "bool \<Rightarrow> instant \<Rightarrow> bytes option \<Rightarrow> (string \<Rightarrow> string option) \<Rightarrow> string \<Rightarrow> client_table \<Rightarrow>
    client_table \<times> (client_error + string)" where
  "cl_RotateSecret ok now raw hash i tbl =
    (case raw of
       None \<Rightarrow> (tbl, Inl ErrClientRandom)
     | Some b \<Rightarrow>
       (let secret = hex_encode b in
        case hash secret of
          None \<Rightarrow> (tbl, Inl ErrClientHash)
        | Some h \<Rightarrow>
          if \<not> ok then (tbl, Inl ErrClientDB)
          else if \<not> list_ex (\<lambda>c. cl_ID c = i) tbl then (tbl, Inl ErrClientNotFound)
          else (sql_update (\<lambda>c. cl_ID c = i) (\<lambda>c. c\<lparr>cl_SecretHash := h, cl_UpdatedAt := now\<rparr>) tbl, Inr secret)))"

definition cl_Update :: "bool \<Rightarrow> instant \<Rightarrow> string \<Rightarrow> string \<Rightarrow> string list \<Rightarrow> string list \<Rightarrow> client_table \<Rightarrow>
    client_table \<times> (client_error + oidc_client)" where
  "cl_Update ok now i name redirectURIs allowedScopes tbl =
    (if \<not> ok then (tbl, Inl ErrClientDB)
     else (let tbl' = sql_update (\<lambda>c. cl_ID c = i) (\<lambda>c. c\<lparr>cl_Name := name, cl_RedirectURIs := redirectURIs,
             cl_AllowedScopes := allowedScopes, cl_UpdatedAt := now\<rparr>) tbl
           in case sql_first (\<lambda>c. cl_ID c = i) tbl' of
                None \<Rightarrow> (tbl, Inl ErrClientNotFound) | Some c \<Rightarrow> (tbl', Inr c)))"

section \<open>PKCE\<close>

definition unreserved :: "char \<Rightarrow> bool" where
  "unreserved c = (let n = of_char c :: nat in (65 \<le> n \<and> n \<le> 90) \<or> (97 \<le> n \<and> n \<le> 122) \<or> (48 \<le> n \<and> n \<le> 57) \<or>
     c = CHR ''-'' \<or> c = CHR ''.'' \<or> c = CHR ''_'' \<or> c = CHR ''~'')"

datatype pkce_error = PkceLength | PkceCharacter | PkceMethod | PkceMismatch

definition verifyPKCE :: "(string \<Rightarrow> bytes) \<Rightarrow> string \<Rightarrow> string \<Rightarrow> string \<Rightarrow> pkce_error option" where
  "verifyPKCE sha challenge method verifier =
    (if length verifier < 43 \<or> length verifier > 128 then Some PkceLength
     else if \<not> list_all unreserved verifier then Some PkceCharacter
     else if method = ''S256'' \<or> method = '''' then
       (if RawURLEncoding (sha verifier) = challenge then None else Some PkceMismatch)
     else Some PkceMethod)"

definition hasScope :: "string list \<Rightarrow> string \<Rightarrow> bool" where
  "hasScope scopes target = list_ex (\<lambda>s. s = target) scopes"

section \<open>The service\<close>

text \<open>The values of \<open>jwt.MapClaims\<close> and what unmarshalling such a token into \<open>auth.Claims\<close> sees of them:
  the JSON names of the two agree on \<open>iss\<close>, \<open>sub\<close>, \<open>aud\<close>, \<open>exp\<close>, \<open>iat\<close>, \<open>email\<close> and \<open>locale\<close> only.\<close>

datatype claim_val = CStr string | CInt int | CBool bool

type_synonym map_claims = "string \<rightharpoonup> claim_val"

definition str_claim :: "map_claims \<Rightarrow> string \<Rightarrow> string" where
  "str_claim m k = (case m k of Some (CStr s) \<Rightarrow> s | _ \<Rightarrow> '''')"

definition int_claim :: "map_claims \<Rightarrow> string \<Rightarrow> int" where
  "int_claim m k = (case m k of Some (CInt i) \<Rightarrow> i | _ \<Rightarrow> 0)"

definition claims_view :: "map_claims \<Rightarrow> claims" where
  "claims_view m = zero_claims\<lparr>Email := str_claim m ''email'', Locale := str_claim m ''locale'',
     Issuer := str_claim m ''iss'', Subject := str_claim m ''sub'', Audience := [str_claim m ''aud''],
     ExpiresAt := int_claim m ''exp'', IssuedAt := int_claim m ''iat''\<rparr>"

record ('r, 'k, 'p, 't) oidc_service =
  os_redis :: "('r, oidc_doc) redis"
  os_sha :: "string \<Rightarrow> bytes"
  os_jwt :: "('k, 'p, 't) jwt_lib"
  os_signMap :: "string \<Rightarrow> string \<Rightarrow> 'k \<Rightarrow> map_claims \<Rightarrow> 't option"
  os_ks :: "'k key_store"
  os_issuer :: string
  os_bcrypt :: "string \<Rightarrow> string \<Rightarrow> bool"
  os_enc :: "encrypter option"
  os_refresh :: bool

record 'r oidc_world =
  ow_rd :: 'r
  ow_clients :: client_table
  ow_users :: user_db

text \<open>One request: the clock, the random values and which database calls succeed.\<close>

record oidc_env =
  oe_now :: instant
  oe_client_ok :: bool
  oe_auth_ok :: bool
  oe_user_ok :: bool
  oe_code :: string
  oe_jti :: string
  oe_raw :: "bytes option"
  oe_fid :: string

datatype oidc_error = ErrInvalidRedirectURI | ErrInvalidScope | ErrInvalidGrant | ErrCodeVerifierFailed
  | ErrRefreshTokenReuse | ErrRefreshNotSupported | OidcClient client_error | OidcStore store_error
  | OidcSign token_error

record 't token_response =
  tr_AccessToken :: 't
  tr_RefreshToken :: string
  tr_IDToken :: "'t option"
  tr_TokenType :: string
  tr_ExpiresIn :: int
  tr_Scope :: string

definition CreateAuthCodeSession :: "('r, 'k, 'p, 't) oidc_service \<Rightarrow> oidc_env \<Rightarrow> string \<Rightarrow> string \<Rightarrow> string \<Rightarrow> string list \<Rightarrow>
    string \<Rightarrow> string \<Rightarrow> string \<Rightarrow> 'r oidc_world \<Rightarrow> 'r oidc_world \<times> (oidc_error + string)" where
  "CreateAuthCodeSession S e userID clientID redirectURI scopes codeChallenge codeChallengeMethod nonce w =
    (case cl_FindByClientID (oe_client_ok e) clientID (ow_clients w) of
       Inl er \<Rightarrow> (w, Inl (OidcClient er))
     | Inr client \<Rightarrow>
       if \<not> ValidateRedirectURI client redirectURI then (w, Inl ErrInvalidRedirectURI)
       else if \<not> ValidateScope client scopes then (w, Inl ErrInvalidScope)
       else
         (let session = \<lparr>ac_Code = oe_code e, ac_UserID = userID, ac_ClientID = clientID, ac_RedirectURI = redirectURI,
                ac_Scopes = scopes, ac_CodeChallenge = codeChallenge, ac_CodeChallengeMethod = codeChallengeMethod,
                ac_Nonce = nonce, ac_AuthTime = oe_now e\<rparr>
          in case code_Save (os_redis S) (oe_now e) session (ow_rd w) of
               (s', Inl er) \<Rightarrow> (w\<lparr>ow_rd := s'\<rparr>, Inl (OidcStore er))
             | (s', Inr _) \<Rightarrow> (w\<lparr>ow_rd := s'\<rparr>, Inr (oe_code e))))"

abbreviation oidcAccessTTL :: duration where "oidcAccessTTL \<equiv> go_hour"

definition oidc_claims :: "('r, 'k, 'p, 't) oidc_service \<Rightarrow> oidc_env \<Rightarrow> user \<Rightarrow> string \<Rightarrow> string list \<Rightarrow> claims" where
  "oidc_claims S e u clientID scopes =
    zero_claims\<lparr>UserID := u_ID u, Email := u_Email u, Locale := u_Locale u, Permissions := [], Scopes := scopes,
      SubType := SubTypeUser, Issuer := os_issuer S, Subject := u_ID u, Audience := [clientID],
      ExpiresAt := numeric_date (oe_now e + oidcAccessTTL), IssuedAt := numeric_date (oe_now e), JTI := oe_jti e\<rparr>"

definition scope_claims :: "user \<Rightarrow> string \<Rightarrow> map_claims \<Rightarrow> map_claims" where
  "scope_claims u scope m =
    (if scope = ''profile'' then
       m(''name'' \<mapsto> CStr (TrimSpace (u_FirstName u @ '' '' @ u_LastName u)), ''given_name'' \<mapsto> CStr (u_FirstName u),
         ''family_name'' \<mapsto> CStr (u_LastName u), ''locale'' \<mapsto> CStr (u_Locale u))
     else if scope = ''email'' then m(''email'' \<mapsto> CStr (u_Email u), ''email_verified'' \<mapsto> CBool True)
     else m)"

definition id_claims :: "('r, 'k, 'p, 't) oidc_service \<Rightarrow> oidc_env \<Rightarrow> user \<Rightarrow> string \<Rightarrow> auth_code_session \<Rightarrow> map_claims" where
  "id_claims S e u clientID a =
    (let base = [''iss'' \<mapsto> CStr (os_issuer S), ''sub'' \<mapsto> CStr (u_ID u), ''aud'' \<mapsto> CStr clientID,
           ''exp'' \<mapsto> CInt ((oe_now e + oidcAccessTTL) div go_second), ''iat'' \<mapsto> CInt (oe_now e div go_second),
           ''auth_time'' \<mapsto> CInt (ac_AuthTime a div go_second)];
         withNonce = (if ac_Nonce a \<noteq> '''' then base(''nonce'' \<mapsto> CStr (ac_Nonce a)) else base)
     in fold (scope_claims u) (ac_Scopes a) withNonce)"

text \<open>\<open>KeyStore.Sign\<close> on \<open>jwt.MapClaims\<close>.\<close>

definition sign_map :: "('r, 'k, 'p, 't) oidc_service \<Rightarrow> map_claims \<Rightarrow> token_error + 't" where
  "sign_map S m = (case map_of (keys (os_ks S)) (primary (os_ks S)) of
     None \<Rightarrow> Inl ErrSign
   | Some k \<Rightarrow> (case os_signMap S (signingMethodFor (alg k)) (primary (os_ks S)) (signer k) m of
        None \<Rightarrow> Inl ErrSign | Some t \<Rightarrow> Inr t))"

text \<open>Client authentication and PKCE of \<open>ExchangeCode\<close>.\<close>

definition code_client_auth :: "('r, 'k, 'p, 't) oidc_service \<Rightarrow> oidc_env \<Rightarrow> auth_code_session \<Rightarrow> string \<Rightarrow> string \<Rightarrow> string \<Rightarrow>
    client_table \<Rightarrow> oidc_error option" where
  "code_client_auth S e a clientID clientSecret codeVerifier tbl =
    (if clientSecret \<noteq> '''' \<and> \<not> is_ok (AuthenticateClient (os_bcrypt S) (oe_auth_ok e) clientID clientSecret tbl)
       then Some ErrInvalidGrant
     else if clientSecret = '''' \<and> ac_CodeChallenge a = '''' then Some ErrInvalidGrant
     else if ac_CodeChallenge a \<noteq> '''' \<and>
         verifyPKCE (os_sha S) (ac_CodeChallenge a) (ac_CodeChallengeMethod a) codeVerifier \<noteq> None
       then Some ErrCodeVerifierFailed
     else None)"

text \<open>The tail of \<open>ExchangeCode\<close>: the access token, the ID token for \<open>openid\<close>, the refresh token for
  \<open>offline_access\<close>.\<close>

definition code_tokens :: "('r, 'k, 'p, 't) oidc_service \<Rightarrow> oidc_env \<Rightarrow> user \<Rightarrow> string \<Rightarrow> auth_code_session \<Rightarrow>
    'r \<Rightarrow> 'r \<times> (oidc_error + 't token_response)" where
  "code_tokens S e u clientID a s =
    (case Sign (os_jwt S) (os_ks S) (oidc_claims S e u clientID (ac_Scopes a)) of
       Inl er \<Rightarrow> (s, Inl (OidcSign er))
     | Inr access \<Rightarrow>
       (case (if hasScope (ac_Scopes a) ''openid'' then map_sum id Some (sign_map S (id_claims S e u clientID a)) else Inr None) of
          Inl er \<Rightarrow> (s, Inl (OidcSign er))
        | Inr idTok \<Rightarrow>
          (let resp = \<lparr>tr_AccessToken = access, tr_RefreshToken = '''', tr_IDToken = idTok, tr_TokenType = ''Bearer'',
                 tr_ExpiresIn = oidcAccessTTL div go_second, tr_Scope = Join '' '' (ac_Scopes a)\<rparr>
           in if os_refresh S \<and> hasScope (ac_Scopes a) ''offline_access'' then
                (case rt_Save (os_redis S) (os_sha S) (oe_now e) (oe_raw e) (oe_fid e)
                   \<lparr>rs_UserID = u_ID u, rs_ClientID = clientID, rs_Scopes = ac_Scopes a, rs_AuthTime = ac_AuthTime a,
                    rs_FamilyID = ''''\<rparr> s of
                   (s', Inl er) \<Rightarrow> (s', Inl (OidcStore er))
                 | (s', Inr rt) \<Rightarrow> (s', Inr (resp\<lparr>tr_RefreshToken := rt\<rparr>)))
              else (s, Inr resp))))"

definition ExchangeCode :: "('r, 'k, 'p, 't) oidc_service \<Rightarrow> oidc_env \<Rightarrow> string \<Rightarrow> string \<Rightarrow> string \<Rightarrow> string \<Rightarrow> string \<Rightarrow>
    'r oidc_world \<Rightarrow> 'r oidc_world \<times> (oidc_error + 't token_response)" where
  "ExchangeCode S e code clientID clientSecret redirectURI codeVerifier w =
    (case code_GetAndConsume (os_redis S) (oe_now e) code (ow_rd w) of
       (s1, Inl _) \<Rightarrow> (w\<lparr>ow_rd := s1\<rparr>, Inl ErrInvalidGrant)
     | (s1, Inr a) \<Rightarrow>
       (let w1 = w\<lparr>ow_rd := s1\<rparr> in
        if ac_ClientID a \<noteq> clientID then (w1, Inl ErrInvalidGrant)
        else if ac_RedirectURI a \<noteq> redirectURI then (w1, Inl ErrInvalidRedirectURI)
        else case code_client_auth S e a clientID clientSecret codeVerifier (ow_clients w) of
            Some er \<Rightarrow> (w1, Inl er)
          | None \<Rightarrow>
            (case user_FindByID (os_enc S) (oe_user_ok e) (ac_UserID a) (ow_users w) of
               Inl _ \<Rightarrow> (w1, Inl ErrInvalidGrant)
             | Inr u \<Rightarrow> if \<not> u_IsActive u then (w1, Inl ErrInvalidGrant)
                 else (case code_tokens S e u clientID a s1 of (s2, r) \<Rightarrow> (w\<lparr>ow_rd := s2\<rparr>, r)))))"

text \<open>Requested scopes outside the grant are dropped; when none is left the grant's scopes are used.\<close>

definition granted_scopes :: "string list \<Rightarrow> string list \<Rightarrow> string list" where
  "granted_scopes granted requested =
    (let valid = filter (\<lambda>rs. rs \<in> set granted) requested in
     if requested \<noteq> [] \<and> valid \<noteq> [] then valid else granted)"

definition refresh_client_auth :: "('r, 'k, 'p, 't) oidc_service \<Rightarrow> oidc_env \<Rightarrow> string \<Rightarrow> string \<Rightarrow> client_table \<Rightarrow> bool" where
  "refresh_client_auth S e clientID clientSecret tbl =
    (case cl_FindByClientID (oe_client_ok e) clientID tbl of
       Inl _ \<Rightarrow> False
     | Inr c \<Rightarrow> cl_SecretHash c = '''' \<or> is_ok (AuthenticateClient (os_bcrypt S) (oe_auth_ok e) clientID clientSecret tbl))"

definition ExchangeRefreshToken :: "('r, 'k, 'p, 't) oidc_service \<Rightarrow> oidc_env \<Rightarrow> string \<Rightarrow> string \<Rightarrow> string \<Rightarrow> string list \<Rightarrow>
    'r oidc_world \<Rightarrow> 'r oidc_world \<times> (oidc_error + 't token_response)" where
  "ExchangeRefreshToken S e refreshToken clientID clientSecret requestedScopes w =
    (if \<not> os_refresh S then (w, Inl ErrRefreshNotSupported)
     else if \<not> refresh_client_auth S e clientID clientSecret (ow_clients w) then (w, Inl ErrInvalidGrant)
     else case rt_GetAndConsume (os_redis S) (os_sha S) (oe_now e) refreshToken (ow_rd w) of
         (s1, Inl er) \<Rightarrow> (w\<lparr>ow_rd := s1\<rparr>, Inl (if er = ErrRefreshTokenReused then ErrRefreshTokenReuse else ErrInvalidGrant))
       | (s1, Inr sess) \<Rightarrow>
         (let w1 = w\<lparr>ow_rd := s1\<rparr>; scopes = granted_scopes (rs_Scopes sess) requestedScopes in
          if rs_ClientID sess \<noteq> clientID then (w1, Inl ErrInvalidGrant)
          else case user_FindByID (os_enc S) (oe_user_ok e) (rs_UserID sess) (ow_users w) of
              Inl _ \<Rightarrow> (w1, Inl ErrInvalidGrant)
            | Inr u \<Rightarrow> if \<not> u_IsActive u then (w1, Inl ErrInvalidGrant)
                else (case Sign (os_jwt S) (os_ks S) (oidc_claims S e u clientID scopes) of
                    Inl er \<Rightarrow> (w1, Inl (OidcSign er))
                  | Inr access \<Rightarrow>
                    (case rt_Save (os_redis S) (os_sha S) (oe_now e) (oe_raw e) (oe_fid e)
                       \<lparr>rs_UserID = u_ID u, rs_ClientID = clientID, rs_Scopes = scopes, rs_AuthTime = rs_AuthTime sess,
                        rs_FamilyID = rs_FamilyID sess\<rparr> s1 of
                       (s2, Inl er) \<Rightarrow> (w\<lparr>ow_rd := s2\<rparr>, Inl (OidcStore er))
                     | (s2, Inr rt) \<Rightarrow> (w\<lparr>ow_rd := s2\<rparr>, Inr \<lparr>tr_AccessToken = access, tr_RefreshToken = rt,
                         tr_IDToken = None, tr_TokenType = ''Bearer'', tr_ExpiresIn = oidcAccessTTL div go_second,
                         tr_Scope = Join '' '' scopes\<rparr>)))))"

definition RevokeRefreshToken :: "('r, 'k, 'p, 't) oidc_service \<Rightarrow> instant \<Rightarrow> string \<Rightarrow> string \<Rightarrow> 'r oidc_world \<Rightarrow> 'r oidc_world" where
  "RevokeRefreshToken S now token clientID w =
    (if \<not> os_refresh S then w
     else case rt_Peek (os_redis S) (os_sha S) now token (ow_rd w) of
         Inl _ \<Rightarrow> w
       | Inr sess \<Rightarrow> if rs_ClientID sess \<noteq> clientID then w
           else w\<lparr>ow_rd := fst (rt_Delete (os_redis S) (os_sha S) now token (ow_rd w))\<rparr>)"

section \<open>Facts\<close>

lemma numeric_date_after: "now < numeric_date (now + oidcAccessTTL) * go_second"
  unfolding numeric_date_def by linarith

lemma oidc_access_token:
  assumes "jwt_laws (os_jwt S) made" "wf_keys (os_ks S)"
    and "Sign (os_jwt S) (os_ks S) (oidc_claims S e u cid scopes) = Inr tok"
  shows "ValidateOIDCAccessToken (os_jwt S) (os_ks S) (oe_now e) tok = Inr (oidc_claims S e u cid scopes)"
    "\<not> is_ok (ValidateAccessToken (os_jwt S) (os_ks S) t tok)"
  using jwt_laws.sign_validate [OF assms(1,2,3) refl, of "oe_now e"] numeric_date_after [of "oe_now e"]
    jwt_laws.no_use_rejected [OF assms(1,3,2)]
  by (simp_all add: ValidateOIDCAccessToken_def oidc_claims_def zero_claims_def)

text \<open>The contract of the JWT library for \<open>jwt.MapClaims\<close>: such a token parses as the claims with the same JSON.\<close>

locale map_jwt_laws = jwt_laws J made_by
  for J :: "('k, 'p, 't) jwt_lib" and made_by +
  fixes signMap :: "string \<Rightarrow> string \<Rightarrow> 'k \<Rightarrow> map_claims \<Rightarrow> 't option"
  assumes map_made: "signMap a kd k m = Some tok \<Longrightarrow> made_by (Public J k) a (Some kd) tok (claims_view m)"
begin

lemma map_token_rejected:
  assumes "signMap a kd k m = Some tok"
  shows "\<not> is_ok (ValidateAccessToken J ks now tok)"
proof
  assume "is_ok (ValidateAccessToken J ks now tok)"
  then obtain c where c: "validateToken J ks now tok = Inr c" "TokenUse c \<noteq> ''''"
    by (auto simp: is_ok_iff ValidateAccessToken_def token_consts split: sum.splits if_splits)
  from validate_sound [OF c(1)] obtain p a' kid' where "made_by p a' kid' tok c" by blast
  with made_unique [OF map_made [OF assms]] have "c = claims_view m" by metis
  with c(2) show False by (simp add: claims_view_def zero_claims_def)
qed

end

interpretation sym_map: map_jwt_laws sym_jwt sym_made "\<lambda>a kid k m. Some (SymToken a (Some kid) k (claims_view m))"
  by unfold_locales (simp add: sym_made_def sym_jwt_def)

lemma verifyPKCE_ok:
  "verifyPKCE sha challenge method verifier = None \<longleftrightarrow> 43 \<le> length verifier \<and> length verifier \<le> 128 \<and>
    list_all unreserved verifier \<and> method \<in> {''S256'', ''''} \<and> RawURLEncoding (sha verifier) = challenge"
  by (auto simp: verifyPKCE_def not_less)

lemma AuthenticateClient_ok:
  "is_ok (AuthenticateClient bcrypt ok cid secret tbl) \<Longrightarrow>
    \<exists>c \<in> set tbl. cl_ClientID c = cid \<and> bcrypt (cl_SecretHash c) secret"
  by (auto simp: AuthenticateClient_def cl_FindByClientID_def is_ok_iff split: sum.splits if_splits option.splits
      dest!: sql_first_Some)

lemma user_FindByID_ok:
  "user_FindByID c ok uid db = Inr u \<Longrightarrow> u_ID u = uid"
  by (auto simp: user_FindByID_def load_user_def decryptUser_def scan_user_def
      split: if_splits option.splits dest!: sql_first_Some)

lemma granted_scopes_subset: "set (granted_scopes granted requested) \<subseteq> set granted"
  by (auto simp: granted_scopes_def Let_def)

subsection \<open>The stores when Redis answered\<close>

lemma sent_ok: "sent p = (s', True) \<longleftrightarrow> (\<exists>x. p = (s', ROk x))"
  by (cases p; cases "snd p") auto

lemma pipe_exec_ok: "pipe_exec (c # cs) s = (s', True) \<longleftrightarrow> (\<exists>s1. c s = (s1, True) \<and> pipe_exec cs s1 = (s', True))"
  by (auto split: prod.splits)

locale oidc_laws = redis_laws R see
  for R :: "('r, oidc_doc) redis" and see :: "'r \<Rightarrow> instant \<Rightarrow> string \<Rightarrow> oidc_doc rentry option"
begin

lemma sadd_frame: "rSAdd R s t k m = (s', ROk n) \<Longrightarrow> k' \<noteq> k \<Longrightarrow> see s' t k' = see s t k'"
  using sadd_ok [of s t k m s' n] by auto

lemma expire_frame: "rExpire R s t k d = (s', ROk b) \<Longrightarrow> 0 < d \<Longrightarrow> k' \<noteq> k \<Longrightarrow> see s' t k' = see s t k'"
  using expire_ok [of s t k d s' b] by (auto split: option.splits)

lemma set_frame: "rSet R s t k v d = (s', ROk u) \<Longrightarrow> 0 < d \<Longrightarrow> k' \<noteq> k \<Longrightarrow> see s' t k' = see s t k'"
  using set_ok [of s t k v d s' u] by auto

lemma rt_Save_code:
  assumes "rt_Save R sha t raw fid d s = (s', Inr tok)"
  shows "see s' t (code_key c) = see s t (code_key c)"
proof -
  from assms obtain b where "raw = Some b" by (cases raw) (auto simp: rt_Save_def)
  with assms obtain h d' u f where "pipe_exec
      [\<lambda>s. sent (rSet R s t (rt_key h) d' OIDCRefreshTTL), \<lambda>s. sent (rSAdd R s t (rt_userKey u) h),
       \<lambda>s. sent (rExpire R s t (rt_userKey u) OIDCRefreshTTL), \<lambda>s. sent (rSAdd R s t (rt_familyKey f) h),
       \<lambda>s. sent (rExpire R s t (rt_familyKey f) OIDCRefreshTTL)] s = (s', True)"
    by (auto simp: rt_Save_def Let_def simp del: pipe_exec.simps split: prod.splits bool.splits)
  then show ?thesis
    unfolding pipe_exec_ok sent_ok pipe_exec.simps(1)
    by (auto dest!: sadd_frame [where k' = "code_key c"] expire_frame [where k' = "code_key c"]
        set_frame [where k' = "code_key c"])
qed

lemma code_taken:
  assumes "code_GetAndConsume R t c s = (s', Inr a)"
  shows "\<exists>x. see s t (code_key c) = Some (RDoc (CodeDoc a), x)" "see s' t (code_key c) = None"
proof -
  from assms obtain v where "rGetDel R s t (code_key c) = (s', ROk v)" "unmarshal_code v = Some a"
    by (auto simp: code_GetAndConsume_def split: prod.splits reply.splits option.splits)
  with getdel_ok [of s t "code_key c" s' v]
  show "\<exists>x. see s t (code_key c) = Some (RDoc (CodeDoc a), x)" "see s' t (code_key c) = None"
    by (auto simp: unmarshal_code_Some)
qed

lemma code_missing:
  assumes "see s t (code_key c) = None"
  shows "\<exists>s' e. code_GetAndConsume R t c s = (s', Inl e)"
  using getdel_missing [OF assms] by (cases "rGetDel R s t (code_key c)"; cases "snd (rGetDel R s t (code_key c))")
    (auto simp: code_GetAndConsume_def)

end

interpretation memo_laws: oidc_laws mem_server mem_see ..

sublocale oidc_redis \<subseteq> oidc_laws ..

section \<open>Properties\<close>

lemma code_tokens_ok:
  assumes "code_tokens S e u cid a s = (s', Inr resp)"
  shows "Sign (os_jwt S) (os_ks S) (oidc_claims S e u cid (ac_Scopes a)) = Inr (tr_AccessToken resp)"
    "s' = s \<or> (\<exists>rt d. rt_Save (os_redis S) (os_sha S) (oe_now e) (oe_raw e) (oe_fid e) d s = (s', Inr rt))"
    "tr_IDToken resp = Some idt \<Longrightarrow> sign_map S (id_claims S e u cid a) = Inr idt"
  using assms
  by (auto simp: code_tokens_def Let_def map_sum_def split: sum.splits if_splits prod.splits)

lemma ExchangeCode_ok:
  assumes "ExchangeCode S e code cid secret uri ver w = (w', Inr resp)"
  obtains s1 a u s2 where "code_GetAndConsume (os_redis S) (oe_now e) code (ow_rd w) = (s1, Inr a)"
    "ac_ClientID a = cid" "ac_RedirectURI a = uri" "code_client_auth S e a cid secret ver (ow_clients w) = None"
    "user_FindByID (os_enc S) (oe_user_ok e) (ac_UserID a) (ow_users w) = Inr u" "u_IsActive u"
    "code_tokens S e u cid a s1 = (s2, Inr resp)" "w' = w\<lparr>ow_rd := s2\<rparr>"
  using assms that
  by (auto simp: ExchangeCode_def Let_def split: sum.splits if_splits prod.splits option.splits)

definition demo_oidc :: "(oidc_doc mem_redis, nat, nat, sym_token) oidc_service" where
  "demo_oidc = \<lparr>os_redis = mem_server, os_sha = bytes_of, os_jwt = sym_jwt,
     os_signMap = (\<lambda>a kid k m. Some (SymToken a (Some kid) k (claims_view m))), os_ks = demo_keys,
     os_issuer = ''https://idp'', os_bcrypt = (=), os_enc = None, os_refresh = True\<rparr>"

definition demo_code :: auth_code_session where
  "demo_code = \<lparr>ac_Code = ''code'', ac_UserID = ''a'', ac_ClientID = ''c1'', ac_RedirectURI = ''https://rp/cb'',
     ac_Scopes = [''openid''], ac_CodeChallenge = '''', ac_CodeChallengeMethod = '''', ac_Nonce = ''n'', ac_AuthTime = 0\<rparr>"

definition demo_client :: oidc_client where
  "demo_client = \<lparr>cl_ID = ''i1'', cl_ClientID = ''c1'', cl_SecretHash = ''s3cret'', cl_Name = ''RP'',
     cl_RedirectURIs = [''https://rp/cb''], cl_AllowedScopes = [''openid''], cl_CreatedAt = 0, cl_UpdatedAt = 0\<rparr>"

definition demo_oidc_env :: oidc_env where
  "demo_oidc_env = \<lparr>oe_now = go_minute, oe_client_ok = True, oe_auth_ok = True, oe_user_ok = True, oe_code = ''code'',
     oe_jti = ''j'', oe_raw = Some [2], oe_fid = ''f''\<rparr>"

definition demo_oidc_world :: "oidc_doc mem_redis oidc_world" where
  "demo_oidc_world = \<lparr>ow_rd = mem_put empty_oidc (code_key ''code'') (Some (RDoc (CodeDoc demo_code), Some codeTTL)),
     ow_clients = [demo_client], ow_users = demo_users\<rparr>"

text \<open>C18: the authorization code grant. A successful \<open>ExchangeCode\<close> consumed a live code that was issued to
  this client for this redirect URI; the client either presented a secret that matches its stored hash or the
  code is bound to a PKCE challenge, and a bound code was redeemed with a well-formed verifier whose S256
  digest is the challenge; the user exists and is active. The access token carries the user and the granted
  scopes but no role and no permission, is valid for the OIDC endpoints, and neither it nor the ID token is
  ever accepted as a first-party token. The code is spent: every later exchange of it against the resulting
  store fails.\<close>

theorem code_exchange_sound:
  assumes "oidc_laws (os_redis S) see" "map_jwt_laws (os_jwt S) made (os_signMap S)" "wf_keys (os_ks S)"
    and run: "ExchangeCode S e code cid secret uri ver w = (w', Inr resp)"
  shows "\<exists>a x u. see (ow_rd w) (oe_now e) (code_key code) = Some (RDoc (CodeDoc a), x) \<and>
      ac_ClientID a = cid \<and> ac_RedirectURI a = uri \<and>
      ((\<exists>c \<in> set (ow_clients w). secret \<noteq> '''' \<and> cl_ClientID c = cid \<and> os_bcrypt S (cl_SecretHash c) secret) \<or>
        ac_CodeChallenge a \<noteq> '''') \<and>
      (ac_CodeChallenge a \<noteq> '''' \<longrightarrow> 43 \<le> length ver \<and> length ver \<le> 128 \<and> list_all unreserved ver \<and>
        RawURLEncoding (os_sha S ver) = ac_CodeChallenge a) \<and>
      user_FindByID (os_enc S) (oe_user_ok e) (ac_UserID a) (ow_users w) = Inr u \<and> u_IsActive u \<and>
      (\<exists>c. ValidateOIDCAccessToken (os_jwt S) (os_ks S) (oe_now e) (tr_AccessToken resp) = Inr c \<and>
        UserID c = ac_UserID a \<and> Audience c = [cid] \<and> Scopes c = ac_Scopes a \<and> Roles c = [] \<and> Permissions c = []) \<and>
      (\<forall>t tok. tok = tr_AccessToken resp \<or> tr_IDToken resp = Some tok \<longrightarrow>
        \<not> is_ok (ValidateAccessToken (os_jwt S) (os_ks S) t tok)) \<and>
      (\<forall>e2 cid2 secret2 uri2 ver2. oe_now e \<le> oe_now e2 \<longrightarrow>
        snd (ExchangeCode S e2 code cid2 secret2 uri2 ver2 w') = Inl ErrInvalidGrant)"
proof -
  from run obtain s1 a u s2 where
    code: "code_GetAndConsume (os_redis S) (oe_now e) code (ow_rd w) = (s1, Inr a)"
    and who: "ac_ClientID a = cid" "ac_RedirectURI a = uri"
    and auth: "code_client_auth S e a cid secret ver (ow_clients w) = None"
    and u: "user_FindByID (os_enc S) (oe_user_ok e) (ac_UserID a) (ow_users w) = Inr u" "u_IsActive u"
    and toks: "code_tokens S e u cid a s1 = (s2, Inr resp)" and w': "w' = w\<lparr>ow_rd := s2\<rparr>"
    by (rule ExchangeCode_ok)
  note taken = oidc_laws.code_taken [OF assms(1) code]
  note tok = oidc_access_token [OF map_jwt_laws.axioms(1) [OF assms(2)] assms(3) code_tokens_ok(1) [OF toks]]
  have idt: "\<not> is_ok (ValidateAccessToken (os_jwt S) (os_ks S) t idt)" if "tr_IDToken resp = Some idt" for t idt
    using code_tokens_ok(3) [OF toks that] map_jwt_laws.map_token_rejected [OF assms(2)]
    by (auto simp: sign_map_def split: option.splits)
  from code_tokens_ok(2) [OF toks] taken(2) have "see s2 (oe_now e) (code_key code) = None"
    using oidc_laws.rt_Save_code [OF assms(1)] by metis
  then have spent: "see s2 t (code_key code) = None" if "oe_now e \<le> t" for t
    using that redis_laws.see_gone [OF oidc_laws.axioms(1) [OF assms(1)]] by blast
  have "snd (ExchangeCode S e2 code cid2 secret2 uri2 ver2 w') = Inl ErrInvalidGrant" if "oe_now e \<le> oe_now e2"
    for e2 cid2 secret2 uri2 ver2
    using oidc_laws.code_missing [OF assms(1) spent [OF that]] by (auto simp: ExchangeCode_def w')
  moreover have "(\<exists>c \<in> set (ow_clients w). secret \<noteq> '''' \<and> cl_ClientID c = cid \<and> os_bcrypt S (cl_SecretHash c) secret) \<or>
      ac_CodeChallenge a \<noteq> ''''"
    using auth AuthenticateClient_ok [of "os_bcrypt S" "oe_auth_ok e" cid secret "ow_clients w"]
    by (auto simp: code_client_auth_def split: if_splits)
  moreover have "ac_CodeChallenge a \<noteq> '''' \<longrightarrow> 43 \<le> length ver \<and> length ver \<le> 128 \<and> list_all unreserved ver \<and>
      RawURLEncoding (os_sha S ver) = ac_CodeChallenge a"
    using auth by (auto simp: code_client_auth_def verifyPKCE_ok split: if_splits)
  moreover have "\<exists>c. ValidateOIDCAccessToken (os_jwt S) (os_ks S) (oe_now e) (tr_AccessToken resp) = Inr c \<and>
      UserID c = ac_UserID a \<and> Audience c = [cid] \<and> Scopes c = ac_Scopes a \<and> Roles c = [] \<and> Permissions c = []"
    using tok(1) user_FindByID_ok [OF u(1)] by (simp add: oidc_claims_def zero_claims_def)
  moreover have "\<forall>t tk. tk = tr_AccessToken resp \<or> tr_IDToken resp = Some tk \<longrightarrow>
      \<not> is_ok (ValidateAccessToken (os_jwt S) (os_ks S) t tk)"
    using tok(2) idt by auto
  ultimately show ?thesis using taken(1) who u by (metis (no_types, lifting))
qed

definition demo_exchanged :: "oidc_doc mem_redis oidc_world \<times> (oidc_error + sym_token token_response)" where
  "demo_exchanged = ExchangeCode demo_oidc demo_oidc_env ''code'' ''c1'' ''s3cret'' ''https://rp/cb'' '''' demo_oidc_world"

lemma demo_exchange_ok: "\<exists>resp. snd demo_exchanged = Inr resp"
  by (simp add: demo_exchanged_def ExchangeCode_def code_GetAndConsume_def demo_oidc_def demo_oidc_env_def demo_oidc_world_def
      mem_defs mem_put_def empty_oidc_def mem_see_def codeTTL_def demo_code_def code_client_auth_def AuthenticateClient_def
      cl_FindByClientID_def sql_first_def demo_client_def user_FindByID_def demo_users_def load_user_def new_row_def
      decryptUser_def decrypt_def scan_user_def code_tokens_def hasScope_def Sign_def sign_map_def demo_keys_def addKey_def
      NewKeyStore_def sym_jwt_def)

theorem code_exchange_sound_witness:
  "\<exists>w' resp a x u. demo_exchanged = (w', Inr resp) \<and>
      mem_see (ow_rd demo_oidc_world) (oe_now demo_oidc_env) (code_key ''code'') = Some (RDoc (CodeDoc a), x) \<and>
      user_FindByID None True (ac_UserID a) (ow_users demo_oidc_world) = Inr u \<and> u_IsActive u \<and>
      (\<forall>t. \<not> is_ok (ValidateAccessToken sym_jwt demo_keys t (tr_AccessToken resp))) \<and>
      snd (ExchangeCode demo_oidc demo_oidc_env ''code'' ''c1'' ''s3cret'' ''https://rp/cb'' '''' w') = Inl ErrInvalidGrant"
proof -
  obtain w' resp where run: "demo_exchanged = (w', Inr resp)"
    using demo_exchange_ok by (metis prod.collapse)
  have "oidc_laws (os_redis demo_oidc) mem_see" by (simp add: demo_oidc_def memo_laws.oidc_laws_axioms)
  moreover have "map_jwt_laws (os_jwt demo_oidc) sym_made (os_signMap demo_oidc)"
    by (simp add: demo_oidc_def sym_map.map_jwt_laws_axioms)
  moreover have "wf_keys (os_ks demo_oidc)" by (simp add: demo_oidc_def)
  ultimately have "\<exists>a x u. mem_see (ow_rd demo_oidc_world) (oe_now demo_oidc_env) (code_key ''code'') =
        Some (RDoc (CodeDoc a), x) \<and> user_FindByID None True (ac_UserID a) (ow_users demo_oidc_world) = Inr u \<and> u_IsActive u \<and>
      (\<forall>t. \<not> is_ok (ValidateAccessToken sym_jwt demo_keys t (tr_AccessToken resp))) \<and>
      snd (ExchangeCode demo_oidc demo_oidc_env ''code'' ''c1'' ''s3cret'' ''https://rp/cb'' '''' w') = Inl ErrInvalidGrant"
    using code_exchange_sound [OF _ _ _ run [unfolded demo_exchanged_def], of mem_see sym_made]
    by (fastforce simp: demo_oidc_def demo_oidc_env_def)
  with run show ?thesis by blast
qed

lemma ExchangeRefreshToken_ok:
  assumes "ExchangeRefreshToken S e tok cid secret req w = (w', Inr resp)"
  obtains s1 d u s2 where "refresh_client_auth S e cid secret (ow_clients w)"
    "rt_GetAndConsume (os_redis S) (os_sha S) (oe_now e) tok (ow_rd w) = (s1, Inr d)" "rs_ClientID d = cid"
    "user_FindByID (os_enc S) (oe_user_ok e) (rs_UserID d) (ow_users w) = Inr u" "u_IsActive u"
    "Sign (os_jwt S) (os_ks S) (oidc_claims S e u cid (granted_scopes (rs_Scopes d) req)) = Inr (tr_AccessToken resp)"
    "rt_Save (os_redis S) (os_sha S) (oe_now e) (oe_raw e) (oe_fid e)
       (d\<lparr>rs_Scopes := granted_scopes (rs_Scopes d) req\<rparr>) s1 = (s2, Inr (tr_RefreshToken resp))"
    "tr_Scope resp = Join '' '' (granted_scopes (rs_Scopes d) req)" "w' = w\<lparr>ow_rd := s2\<rparr>"
proof -
  from assms obtain s1 d u access s2 rt where
    1: "refresh_client_auth S e cid secret (ow_clients w)"
    "rt_GetAndConsume (os_redis S) (os_sha S) (oe_now e) tok (ow_rd w) = (s1, Inr d)" "rs_ClientID d = cid"
    "user_FindByID (os_enc S) (oe_user_ok e) (rs_UserID d) (ow_users w) = Inr u" "u_IsActive u"
    "Sign (os_jwt S) (os_ks S) (oidc_claims S e u cid (granted_scopes (rs_Scopes d) req)) = Inr access"
    and 2: "rt_Save (os_redis S) (os_sha S) (oe_now e) (oe_raw e) (oe_fid e)
       \<lparr>rs_UserID = u_ID u, rs_ClientID = cid, rs_Scopes = granted_scopes (rs_Scopes d) req,
        rs_AuthTime = rs_AuthTime d, rs_FamilyID = rs_FamilyID d\<rparr> s1 = (s2, Inr rt)"
    and resp: "tr_AccessToken resp = access" "tr_RefreshToken resp = rt"
    "tr_Scope resp = Join '' '' (granted_scopes (rs_Scopes d) req)" "w' = w\<lparr>ow_rd := s2\<rparr>"
    by (auto simp: ExchangeRefreshToken_def Let_def split: sum.splits if_splits prod.splits)
  have "\<lparr>rs_UserID = u_ID u, rs_ClientID = cid, rs_Scopes = granted_scopes (rs_Scopes d) req,
      rs_AuthTime = rs_AuthTime d, rs_FamilyID = rs_FamilyID d\<rparr> = d\<lparr>rs_Scopes := granted_scopes (rs_Scopes d) req\<rparr>"
    using 1(3) user_FindByID_ok [OF 1(4)] by simp
  with 1 2 resp that show ?thesis by metis
qed

text \<open>Consuming a token and saving its successor, on the abstract store.\<close>

context oidc_redis
begin

lemma rotation_refines:
  assumes up: "up s" and K: "indexed t (see s t)" and fresh: "fresh_hash (see s t) (rt_hash sha (hex_encode b))"
    and fid: "fid \<noteq> ''''" and take: "rt_GetAndConsume R sha t tok s = (s1, Inr d)"
    and save: "rt_Save R sha t (Some b) fid (d\<lparr>rs_Scopes := sc\<rparr>) s1 = (s2, Inr rt)"
  shows "grants (see s t) (rt_hash sha tok) = Some d" "rt = hex_encode b" "up s2" "indexed t (see s2 t)"
    "grants (see s2 t) = (grants (see s t))(rt_hash sha tok := None, rt_hash sha (hex_encode b) \<mapsto> d\<lparr>rs_Scopes := sc\<rparr>)"
proof -
  show d: "grants (see s t) (rt_hash sha tok) = Some d" by (rule Consume_cases [OF up K take])
  have fam: "rs_FamilyID d \<noteq> ''''"
  proof -
    from d obtain x where "see s t (rt_key (rt_hash sha tok)) = Some (RDoc (RefreshDoc d), x)" by (auto simp: grants_Some)
    then show ?thesis by (rule indexed_token [OF K rt_hash_is_hash]) simp
  qed
  obtain s' where s': "rt_GetAndConsume R sha t tok s = (s', Inr d)" "up s'" "indexed t (see s' t)"
    "grants (see s' t) = (grants (see s t))(rt_hash sha tok := None)"
    "\<And>k. set (members (see s' t k)) \<subseteq> set (members (see s t k))"
    using Consume_refines [OF up K d] by metis
  with take have s1: "s' = s1" by simp
  have fresh1: "fresh_hash (see s1 t) (rt_hash sha (hex_encode b))"
    using fresh s'(5) unfolding s1 fresh_hash_def by (meson subsetD)
  obtain s'' where "rt_Save R sha t (Some b) fid (d\<lparr>rs_Scopes := sc\<rparr>) s1 = (s'', Inr (hex_encode b))" "up s''"
    "indexed t (see s'' t)" "grants (see s'' t) = (grants (see s1 t))(rt_hash sha (hex_encode b) \<mapsto> saved_as fid (d\<lparr>rs_Scopes := sc\<rparr>))"
    using Save_refines [OF s'(2,3) [unfolded s1] fresh1 fid] by metis
  moreover have "saved_as fid (d\<lparr>rs_Scopes := sc\<rparr>) = d\<lparr>rs_Scopes := sc\<rparr>" using fam by (simp add: saved_as_def)
  ultimately show "rt = hex_encode b" "up s2" "indexed t (see s2 t)"
    "grants (see s2 t) = (grants (see s t))(rt_hash sha tok := None, rt_hash sha (hex_encode b) \<mapsto> d\<lparr>rs_Scopes := sc\<rparr>)"
    using save s'(4) by (simp_all add: s1)
qed

end

text \<open>C19: the refresh token grant rotates within the grant. When \<open>ExchangeRefreshToken\<close> answers with tokens, the
  client exists and, if it has a secret, presented it; the presented token was a live grant of this client and
  its user is active. The store then differs in exactly two entries: the presented token is gone and its
  successor holds the same grant (user, client, family, authentication time) with scopes that are a subset of
  the granted ones, which are also the scopes of the access token; the invariant of the store holds again. A
  request whose client authentication fails is refused before the token is touched.\<close>

theorem refresh_exchange_rotates:
  assumes "oidc_redis (os_redis S) see up" "up (ow_rd w)" "indexed (oe_now e) (see (ow_rd w) (oe_now e))"
    and "jwt_laws (os_jwt S) made" "wf_keys (os_ks S)"
    and "oe_raw e = Some b" "fresh_hash (see (ow_rd w) (oe_now e)) (rt_hash (os_sha S) (hex_encode b))" "oe_fid e \<noteq> ''''"
    and run: "ExchangeRefreshToken S e tok cid secret req w = (w', r)"
  shows "case r of
      Inl _ \<Rightarrow> \<not> refresh_client_auth S e cid secret (ow_clients w) \<longrightarrow> w' = w
    | Inr resp \<Rightarrow> \<exists>d u sc c. refresh_client_auth S e cid secret (ow_clients w) \<and>
        grants (see (ow_rd w) (oe_now e)) (rt_hash (os_sha S) tok) = Some d \<and> rs_ClientID d = cid \<and>
        user_FindByID (os_enc S) (oe_user_ok e) (rs_UserID d) (ow_users w) = Inr u \<and> u_IsActive u \<and>
        set sc \<subseteq> set (rs_Scopes d) \<and> tr_Scope resp = Join '' '' sc \<and> tr_RefreshToken resp = hex_encode b \<and>
        up (ow_rd w') \<and> indexed (oe_now e) (see (ow_rd w') (oe_now e)) \<and>
        grants (see (ow_rd w') (oe_now e)) = (grants (see (ow_rd w) (oe_now e)))
          (rt_hash (os_sha S) tok := None, rt_hash (os_sha S) (hex_encode b) \<mapsto> d\<lparr>rs_Scopes := sc\<rparr>) \<and>
        ValidateOIDCAccessToken (os_jwt S) (os_ks S) (oe_now e) (tr_AccessToken resp) = Inr c \<and>
        UserID c = rs_UserID d \<and> Scopes c = sc \<and> Permissions c = [] \<and> Roles c = [] \<and>
        \<not> is_ok (ValidateAccessToken (os_jwt S) (os_ks S) (oe_now e) (tr_AccessToken resp))"
proof (cases r)
  case (Inl er)
  with run show ?thesis by (auto simp: ExchangeRefreshToken_def split: if_splits)
next
  case (Inr resp)
  from run [unfolded Inr] obtain s1 d u s2 where
    auth: "refresh_client_auth S e cid secret (ow_clients w)"
    and take: "rt_GetAndConsume (os_redis S) (os_sha S) (oe_now e) tok (ow_rd w) = (s1, Inr d)" "rs_ClientID d = cid"
    and u: "user_FindByID (os_enc S) (oe_user_ok e) (rs_UserID d) (ow_users w) = Inr u" "u_IsActive u"
    and sign: "Sign (os_jwt S) (os_ks S) (oidc_claims S e u cid (granted_scopes (rs_Scopes d) req)) = Inr (tr_AccessToken resp)"
    and save: "rt_Save (os_redis S) (os_sha S) (oe_now e) (oe_raw e) (oe_fid e)
       (d\<lparr>rs_Scopes := granted_scopes (rs_Scopes d) req\<rparr>) s1 = (s2, Inr (tr_RefreshToken resp))"
    and out: "tr_Scope resp = Join '' '' (granted_scopes (rs_Scopes d) req)" "w' = w\<lparr>ow_rd := s2\<rparr>"
    by (rule ExchangeRefreshToken_ok)
  note rot = oidc_redis.rotation_refines [OF assms(1-3,7,8) take(1) save [unfolded assms(6)]]
  note tk = oidc_access_token [OF assms(4,5) sign]
  let ?sc = "granted_scopes (rs_Scopes d) req"
  let ?c = "oidc_claims S e u cid ?sc"
  have c: "UserID ?c = rs_UserID d" "Scopes ?c = ?sc" "Permissions ?c = []" "Roles ?c = []"
    using user_FindByID_ok [OF u(1)] by (simp_all add: oidc_claims_def zero_claims_def)
  have w': "ow_rd w' = s2" by (simp add: out(2))
  show ?thesis
    unfolding Inr sum.case w'
    by (intro exI [of _ d] exI [of _ u] exI [of _ ?sc] exI [of _ ?c] conjI)
      (fact auth take(2) u out(1) rot tk c granted_scopes_subset)+
qed

definition demo_env0 :: oidc_env where
  "demo_env0 = demo_oidc_env\<lparr>oe_now := 0\<rparr>"

definition demo_world0 :: "oidc_doc mem_redis oidc_world" where
  "demo_world0 = demo_oidc_world\<lparr>ow_rd := demo_issued\<rparr>"

lemma demo_refresh_run:
  obtains w' resp where
    "ExchangeRefreshToken demo_oidc demo_env0 demo_tok ''c1'' ''s3cret'' [] demo_world0 = (w', Inr resp)"
proof -
  have g: "grants (mem_see demo_issued 0) (rt_hash bytes_of demo_tok) = Some demo_grant" by (simp add: demo_save1)
  obtain s2 where save: "rt_Save mem_server bytes_of 0 (Some [2]) ''f'' demo_grant demo_consumed = (s2, Inr (hex_encode [2]))"
    using memo.Consume_refines [OF demo_save1(2,3) g] memo.Save_refines [OF _ _ demo_fresh2(1), of "''f''" demo_grant]
    by (metis demo_consume(1) list.discI prod.inject)
  have eq: "demo_grant = \<lparr>rs_UserID = ''a'', rs_ClientID = ''c1'', rs_Scopes = granted_scopes [''openid''] [], rs_AuthTime = 0,
      rs_FamilyID = ''f1''\<rparr>" by (simp add: demo_grant_def granted_scopes_def)
  have flds: "rs_UserID demo_grant = ''a''" "rs_ClientID demo_grant = ''c1''" "rs_Scopes demo_grant = [''openid'']"
    "rs_AuthTime demo_grant = 0" "rs_FamilyID demo_grant = ''f1''" by (simp_all add: demo_grant_def)
  note save' = save [unfolded eq]
  have "\<exists>w' resp. ExchangeRefreshToken demo_oidc demo_env0 demo_tok ''c1'' ''s3cret'' [] demo_world0 = (w', Inr resp)"
    using save' demo_consume(1) flds
    by (simp add: ExchangeRefreshToken_def demo_oidc_def demo_env0_def demo_oidc_env_def demo_world0_def demo_oidc_world_def
        refresh_client_auth_def AuthenticateClient_def cl_FindByClientID_def sql_first_def demo_client_def Let_def
        user_FindByID_def demo_users_def load_user_def new_row_def decryptUser_def decrypt_def scan_user_def Sign_def
        demo_keys_def addKey_def NewKeyStore_def sym_jwt_def)
  with that show ?thesis by blast
qed

theorem refresh_exchange_rotates_witness:
  "\<exists>w' resp. ExchangeRefreshToken demo_oidc demo_env0 demo_tok ''c1'' ''s3cret'' [] demo_world0 = (w', Inr resp) \<and>
    tr_RefreshToken resp = hex_encode [2] \<and> indexed 0 (mem_see (ow_rd w') 0) \<and>
    grants (mem_see (ow_rd w') 0) (rt_hash bytes_of demo_tok) = None \<and>
    \<not> is_ok (ValidateAccessToken sym_jwt demo_keys 0 (tr_AccessToken resp))"
proof -
  obtain w' resp where run: "ExchangeRefreshToken demo_oidc demo_env0 demo_tok ''c1'' ''s3cret'' [] demo_world0 = (w', Inr resp)"
    by (rule demo_refresh_run)
  have S: "os_redis demo_oidc = mem_server" "os_sha demo_oidc = bytes_of" "os_jwt demo_oidc = sym_jwt"
    "os_ks demo_oidc = demo_keys" "oe_now demo_env0 = 0" "oe_raw demo_env0 = Some [2]" "oe_fid demo_env0 \<noteq> ''''"
    "ow_rd demo_world0 = demo_issued"
    by (simp_all add: demo_oidc_def demo_env0_def demo_oidc_env_def demo_world0_def)
  from refresh_exchange_rotates [of demo_oidc mem_see mem_up demo_world0 demo_env0 sym_made "[2]", unfolded S,
      OF memo.oidc_redis_axioms demo_save1(2,3) sym.jwt_laws_axioms demo_keys_wf refl demo_fresh1 S(7) run]
  have "\<exists>d sc. tr_RefreshToken resp = hex_encode [2] \<and> indexed 0 (mem_see (ow_rd w') 0) \<and>
      grants (mem_see (ow_rd w') 0) = (grants (mem_see demo_issued 0))
        (rt_hash bytes_of demo_tok := None, rt_hash bytes_of (hex_encode [2]) \<mapsto> d\<lparr>rs_Scopes := sc\<rparr>) \<and>
      \<not> is_ok (ValidateAccessToken sym_jwt demo_keys 0 (tr_AccessToken resp))"
    by auto
  with run demo_hashes show ?thesis by auto
qed

end
