(* ===== verification/DPoP_Proof.thy ===== *)
theory DPoP_Proof
  imports Go_Base64
begin

text \<open>
  \<open>internal/auth/dpop.go\<close>: proofs of possession (RFC 9449) for the tokens of machine clients. A proof is a
  JWT that carries its own public key. The JWT library is a parameter: \<open>parse\<close> is
  \<open>jwt.ParseWithClaims\<close> for \<open>DPoPClaims\<close>, which calls the key function on the header and answers with header
  and claims when the signature verifies under the key it returned. \<open>url_parse\<close> is \<open>url.Parse\<close>, reduced to
  the scheme, the host and the decoded path that the code reads.
\<close>

section \<open>Types\<close>

record dpop_claims =
  dp_Jti :: string
  dp_Htm :: string
  dp_Htu :: string
  dp_Iat :: int

text \<open>The header fields the code reads; \<open>None\<close> when absent or of another JSON type. A member of the JWK that
  is absent or no string reads as the empty string.\<close>

record dpop_header =
  dh_typ :: "string option"
  dh_jwk :: "(string \<times> string) list option"

datatype dpop_key = Ed25519Key bytes | P256Key nat nat

datatype dpop_error = DPoPEmpty | DPoPToken | DPoPTyp | DPoPNoJti | DPoPTime | DPoPMethod | DPoPURI | DPoPThumbprint

type_synonym dpop_parser = "string \<Rightarrow> (dpop_header \<Rightarrow> dpop_key option) \<Rightarrow> (dpop_header \<times> dpop_claims) option"

section \<open>The key of a proof\<close>

text \<open>\<open>big.Int.SetBytes\<close>.\<close>

fun big_endian :: "nat \<Rightarrow> bytes \<Rightarrow> nat" where
  "big_endian n [] = n"
| "big_endian n (b # bs) = big_endian (n * 256 + unat b) bs"

definition dpop_keyfunc :: "dpop_header \<Rightarrow> dpop_key option" where
  "dpop_keyfunc h = (case dh_jwk h of
     None \<Rightarrow> None
   | Some jwk \<Rightarrow>
     (let kty = go_get jwk ''kty''; crv = go_get jwk ''crv''; x = go_get jwk ''x''; y = go_get jwk ''y'' in
      if kty = ''OKP'' then
        (if crv \<noteq> ''Ed25519'' \<or> x = '''' then None else map_option Ed25519Key (RawURLDecode x))
      else if kty = ''EC'' then
        (if x = '''' \<or> y = '''' then None
         else case (RawURLDecode x, RawURLDecode y) of
             (Some xb, Some yb) \<Rightarrow> if crv = ''P-256'' then Some (P256Key (big_endian 0 xb) (big_endian 0 yb)) else None
           | _ \<Rightarrow> None)
      else None))"

text \<open>\<open>fmt\<close>'s verb \<open>%q\<close> on ASCII text: quotes, backslashes and the control characters that a base64url
  value may contain are escaped.\<close>

definition quote_char :: "char \<Rightarrow> string" where
  "quote_char c = (if c = CHR 0x22 then [CHR 0x5C, CHR 0x22] else if c = CHR 0x5C then [CHR 0x5C, CHR 0x5C]
     else if c = CHR 0x0A then [CHR 0x5C, CHR ''n''] else if c = CHR 0x0D then [CHR 0x5C, CHR ''r''] else [c])"

definition quoted :: "string \<Rightarrow> string" where
  "quoted s = [CHR 0x22] @ concat (map quote_char s) @ [CHR 0x22]"

definition jwk_json :: "(string \<times> string) list \<Rightarrow> string option" where
  "jwk_json jwk =
    (let kty = go_get jwk ''kty''; crv = go_get jwk ''crv''; x = go_get jwk ''x''; y = go_get jwk ''y'' in
     if kty = ''OKP'' then Some (''{'' @ quoted ''crv'' @ '':'' @ quoted crv @ '','' @ quoted ''kty'' @ '':'' @ quoted kty @ '','' @
         quoted ''x'' @ '':'' @ quoted x @ ''}'')
     else if kty = ''EC'' then Some (''{'' @ quoted ''crv'' @ '':'' @ quoted crv @ '','' @ quoted ''kty'' @ '':'' @ quoted kty @ '','' @
         quoted ''x'' @ '':'' @ quoted x @ '','' @ quoted ''y'' @ '':'' @ quoted y @ ''}'')
     else None)"

definition CalculateJKT :: "(string \<Rightarrow> bytes) \<Rightarrow> (string \<times> string) list \<Rightarrow> string option" where
  "CalculateJKT sha jwk = map_option (\<lambda>j. RawURLEncoding (sha j)) (jwk_json jwk)"

section \<open>The URI of a proof\<close>

type_synonym url_parser = "string \<Rightarrow> (string \<times> string \<times> string) option"

definition splitHTU :: "url_parser \<Rightarrow> string \<Rightarrow> string \<times> string" where
  "splitHTU url_parse htu =
    (let bare = ('''', takeWhile (\<lambda>c. c \<noteq> CHR ''?'' \<and> c \<noteq> CHR ''#'') htu) in
     case url_parse htu of
       None \<Rightarrow> bare
     | Some (scheme, host, path) \<Rightarrow>
       if scheme = '''' \<or> host = '''' then bare
       else (scheme @ ''://'' @ host, if path = '''' then ''/'' else path))"

definition validateHTU :: "url_parser \<Rightarrow> string \<Rightarrow> string \<Rightarrow> string \<Rightarrow> bool" where
  "validateHTU url_parse htu expectedPath expectedOrigin =
    (case splitHTU url_parse htu of (gotOrigin, gotPath) \<Rightarrow>
       if gotPath \<noteq> expectedPath then False
       else if expectedOrigin = '''' then True else EqualFold gotOrigin expectedOrigin)"

text \<open>\<open>strings.TrimRight(strings.TrimSpace(origin), "/")\<close>, the package variable the origin check uses.\<close>

definition SetExpectedDPoPOrigin :: "string \<Rightarrow> string" where
  "SetExpectedDPoPOrigin origin = rev (dropWhile (\<lambda>c. c = CHR ''/'') (rev (TrimSpace origin)))"

section \<open>Validation\<close>

text \<open>\<open>now\<close> is the clock in nanoseconds; the proof's \<open>iat\<close> is in seconds.\<close>

definition ValidateDPoPProofWithJTI :: "(string \<Rightarrow> bytes) \<Rightarrow> dpop_parser \<Rightarrow> url_parser \<Rightarrow> string \<Rightarrow> instant \<Rightarrow> string \<Rightarrow> string \<Rightarrow> string \<Rightarrow>
    dpop_error + string \<times> string" where
  "ValidateDPoPProofWithJTI sha parse url_parse origin now tokenStr expectedMethod expectedURI =
    (if tokenStr = '''' then Inl DPoPEmpty
     else case parse tokenStr dpop_keyfunc of
         None \<Rightarrow> Inl DPoPToken
       | Some (h, c) \<Rightarrow>
         (let unix = now div go_second in
          if \<not> (case dh_typ h of None \<Rightarrow> False | Some typ \<Rightarrow> EqualFold typ ''dpop+jwt'') then Inl DPoPTyp
          else if dp_Jti c = '''' then Inl DPoPNoJti
          else if dp_Iat c < unix - 120 \<or> dp_Iat c > unix + 120 then Inl DPoPTime
          else if \<not> EqualFold (dp_Htm c) expectedMethod then Inl DPoPMethod
          else if \<not> validateHTU url_parse (dp_Htu c) expectedURI origin then Inl DPoPURI
          else case (case dh_jwk h of None \<Rightarrow> None | Some jwk \<Rightarrow> CalculateJKT sha jwk) of
              None \<Rightarrow> Inl DPoPThumbprint
            | Some jkt \<Rightarrow> Inr (jkt, dp_Jti c)))"

definition ValidateDPoPProof :: "(string \<Rightarrow> bytes) \<Rightarrow> dpop_parser \<Rightarrow> url_parser \<Rightarrow> string \<Rightarrow> instant \<Rightarrow> string \<Rightarrow> string \<Rightarrow> string \<Rightarrow>
    dpop_error + string" where
  "ValidateDPoPProof sha parse url_parse origin now tokenStr expectedMethod expectedURI =
    map_sum id fst (ValidateDPoPProofWithJTI sha parse url_parse origin now tokenStr expectedMethod expectedURI)"

text \<open>\<open>DPoPRequiredMiddleware\<close>: a request without the header is answered with 400.\<close>

definition DPoPRequiredMiddleware :: "string \<Rightarrow> (int \<times> string) option" where
  "DPoPRequiredMiddleware dpop = (if dpop = '''' then Some (400, ''invalid_dpop_proof'') else None)"

section \<open>Thumbprints identify keys\<close>

lemma quote_char_inj: "quote_char a @ s = quote_char b @ t \<Longrightarrow> a = b \<and> s = t"
  by (auto simp: quote_char_def split: if_splits)

lemma quote_char_open: "quote_char a @ s \<noteq> CHR 0x22 # t"
  by (auto simp: quote_char_def)

text \<open>A quoted text ends at its closing quote: it can be read back from any continuation.\<close>

lemma quoted_inj: "quoted s @ p = quoted t @ q \<longleftrightarrow> s = t \<and> p = q"
proof
  have "concat (map quote_char s) @ CHR 0x22 # p = concat (map quote_char t) @ CHR 0x22 # q \<Longrightarrow> s = t \<and> p = q"
  proof (induction s arbitrary: t)
    case Nil
    then show ?case by (cases t) (auto simp: quote_char_open [symmetric])
  next
    case (Cons a s)
    show ?case
    proof (cases t)
      case Nil
      with Cons.prems show ?thesis by (simp add: quote_char_open)
    next
      case (Cons b t')
      with Cons.prems quote_char_inj Cons.IH [of t'] show ?thesis by fastforce
    qed
  qed
  then show "quoted s @ p = quoted t @ q \<Longrightarrow> s = t \<and> p = q" by (simp add: quoted_def)
qed simp

lemma quoted_eq: "quoted s = quoted t \<longleftrightarrow> s = t"
  using quoted_inj [of s "[]" t "[]"] by simp

lemma jwk_json_key:
  assumes "jwk_json j = Some s" "jwk_json k = Some s"
  shows "dpop_keyfunc \<lparr>dh_typ = a, dh_jwk = Some j\<rparr> = dpop_keyfunc \<lparr>dh_typ = b, dh_jwk = Some k\<rparr>"
proof -
  have ends: "(quoted u @ '','' @ p = quoted v @ ''}'') = False" for u v p using quoted_inj [of u "'','' @ p" v "''}''"] by simp
  have "go_get j ''kty'' = go_get k ''kty'' \<and> go_get j ''crv'' = go_get k ''crv'' \<and> go_get j ''x'' = go_get k ''x'' \<and>
      (go_get j ''kty'' = ''EC'' \<longrightarrow> go_get j ''y'' = go_get k ''y'')"
    using assms by (auto simp: jwk_json_def Let_def quoted_inj quoted_eq ends split: if_splits)
  then show ?thesis by (auto simp: dpop_keyfunc_def Let_def)
qed

text \<open>With a collision-free hash, two proofs with the same thumbprint carry the same public key.\<close>

lemma same_jkt_same_key:
  assumes "inj sha" "CalculateJKT sha j = Some t" "CalculateJKT sha k = Some t"
  shows "dpop_keyfunc \<lparr>dh_typ = a, dh_jwk = Some j\<rparr> = dpop_keyfunc \<lparr>dh_typ = b, dh_jwk = Some k\<rparr>"
proof -
  from assms(2,3) obtain s s' where "jwk_json j = Some s" "jwk_json k = Some s'" "RawURLEncoding (sha s) = RawURLEncoding (sha s')"
    by (auto simp: CalculateJKT_def)
  with assms(1) show ?thesis using jwk_json_key by (metis RawURLEncoding_inj injD)
qed

lemma proof_ok:
  assumes "ValidateDPoPProofWithJTI sha parse up origin now tok m uri = Inr (jkt, jti)"
  obtains h c jwk where "parse tok dpop_keyfunc = Some (h, c)" "dh_jwk h = Some jwk" "CalculateJKT sha jwk = Some jkt"
    "dp_Jti c = jti" "jti \<noteq> ''''" "\<bar>dp_Iat c - now div go_second\<bar> \<le> 120" "EqualFold (dp_Htm c) m"
    "validateHTU up (dp_Htu c) uri origin"
  using assms that
  by (auto simp: ValidateDPoPProofWithJTI_def Let_def split: if_splits option.splits)

end
