(* ===== verification/Http_Core.thy ===== *)
theory Http_Core
  imports Go_Net Token_Service
begin

text \<open>
  The request pipeline of \<open>pkg/middleware\<close>: what a middleware sees of a request, and the stateless ones,
  \<open>clientip.go\<close>, \<open>csrf.go\<close>, \<open>rbac.go\<close> and \<open>security.go\<close>. A middleware either answers the request itself
  (\<open>Deny\<close> with the status and the error code of the JSON body) or hands a request on (\<open>Next\<close>).
\<close>

section \<open>Requests\<close>

text \<open>Header names are in canonical form, as \<open>net/http\<close> stores them; \<open>rq_claims\<close> is the value under \<open>ClaimsKey\<close>.\<close>

record http_request =
  rq_method :: string
  rq_path :: string
  rq_remote :: string
  rq_headers :: "(string \<times> string) list"
  rq_cookies :: "(string \<times> string) list"
  rq_claims :: "claims option"

datatype 'a verdict = Deny int string | Next 'a

text \<open>What a handler answers: an error status with the code of the JSON body, or a value.\<close>

datatype 'a http_reply = HErr int string | HOk 'a

definition Header_Get :: "http_request \<Rightarrow> string \<Rightarrow> string" where
  "Header_Get r name = go_get (rq_headers r) name"

text \<open>\<open>r.Cookie\<close>: the first cookie of the name, \<open>None\<close> is \<open>http.ErrNoCookie\<close>.\<close>

definition Cookie :: "http_request \<Rightarrow> string \<Rightarrow> string option" where
  "Cookie r name = map_of (rq_cookies r) name"

definition then_mw :: "('a \<Rightarrow> 'b verdict) \<Rightarrow> 'a verdict \<Rightarrow> 'b verdict" where
  "then_mw f v = (case v of Deny s c \<Rightarrow> Deny s c | Next a \<Rightarrow> f a)"

lemma then_mw_Next: "then_mw f v = Next b \<longleftrightarrow> (\<exists>a. v = Next a \<and> f a = Next b)"
  by (cases v) (auto simp: then_mw_def)

section \<open>Client address\<close>

definition ParseCIDRs :: "string \<Rightarrow> ip_net list" where
  "ParseCIDRs s = concat (map (\<lambda>raw. let raw = TrimSpace raw in
     if raw = '''' then [] else (case ParseCIDR raw of None \<Rightarrow> [] | Some n \<Rightarrow> [n])) (Split CHR '','' s))"

definition socketAddr :: "string \<Rightarrow> string" where
  "socketAddr addr = (case SplitHostPort addr of None \<Rightarrow> addr | Some (host, _) \<Rightarrow> host)"

definition inTrustedCIDR :: "string \<Rightarrow> ip_net list \<Rightarrow> bool" where
  "inTrustedCIDR ip cidrs = (case ParseIP ip of None \<Rightarrow> False | Some b \<Rightarrow> list_ex (\<lambda>n. net_contains n b) cidrs)"

definition TrustedClientIP :: "ip_net list \<Rightarrow> http_request \<Rightarrow> http_request" where
  "TrustedClientIP trusted r =
    (let ip = socketAddr (rq_remote r); xrip = TrimSpace (Header_Get r ''X-Real-Ip'') in
     r\<lparr>rq_remote := (if trusted \<noteq> [] \<and> inTrustedCIDR ip trusted \<and> xrip \<noteq> '''' then xrip else ip)\<rparr>)"

definition ClientIP :: "http_request \<Rightarrow> string" where
  "ClientIP r = socketAddr (rq_remote r)"

section \<open>Cross-site request forgery\<close>

definition safe_method :: "string \<Rightarrow> bool" where
  "safe_method m = (m \<in> set [''GET'', ''HEAD'', ''OPTIONS''])"

definition CSRF :: "http_request \<Rightarrow> http_request verdict" where
  "CSRF r =
    (if safe_method (rq_method r) then Next r
     else if HasPrefix (Header_Get r ''Authorization'') ''Bearer '' then Next r
     else if Cookie r ''access_token'' = None \<and> Cookie r ''refresh_token'' = None then Next r
     else case Cookie r ''csrf_token'' of
         None \<Rightarrow> Deny 403 ''csrf_missing''
       | Some c \<Rightarrow> if c = '''' then Deny 403 ''csrf_missing''
           else if Header_Get r ''X-Csrf-Token'' \<noteq> c then Deny 403 ''csrf_invalid'' else Next r)"

section \<open>Roles and permissions\<close>

definition RequireUserToken :: "http_request \<Rightarrow> http_request verdict" where
  "RequireUserToken r = (case rq_claims r of
     None \<Rightarrow> Deny 403 ''forbidden''
   | Some c \<Rightarrow> if SubType c \<noteq> SubTypeUser then Deny 403 ''forbidden'' else Next r)"

definition RequireRole :: "string list \<Rightarrow> http_request \<Rightarrow> http_request verdict" where
  "RequireRole required r = (case rq_claims r of
     None \<Rightarrow> Deny 403 ''forbidden''
   | Some c \<Rightarrow> if list_ex (\<lambda>q. list_ex (\<lambda>u. u = q) (Roles c)) required then Next r else Deny 403 ''forbidden'')"

definition RequirePermission :: "string \<Rightarrow> string \<Rightarrow> http_request \<Rightarrow> http_request verdict" where
  "RequirePermission resource action r = (case rq_claims r of
     None \<Rightarrow> Deny 403 ''forbidden''
   | Some c \<Rightarrow> if HasPermission c resource action then Next r else Deny 403 ''forbidden'')"

section \<open>Response headers\<close>

definition SecurityHeaders :: "bool \<Rightarrow> (string \<times> string) list" where
  "SecurityHeaders tlsEnabled =
    [(''X-Content-Type-Options'', ''nosniff''), (''X-Frame-Options'', ''DENY''), (''X-XSS-Protection'', ''0''),
     (''Referrer-Policy'', ''strict-origin-when-cross-origin''),
     (''Permissions-Policy'', ''geolocation=(), microphone=(), camera=(), payment=()''),
     (''Content-Security-Policy'', ''default-src '' @ [CHR 0x27] @ ''none'' @ [CHR 0x27] @ ''; frame-ancestors '' @
        [CHR 0x27] @ ''none'' @ [CHR 0x27])] @
    (if tlsEnabled then [(''Strict-Transport-Security'', ''max-age=31536000; includeSubDomains; preload'')] else [])"

section \<open>Access tokens in requests\<close>

definition extractToken :: "http_request \<Rightarrow> string" where
  "extractToken r =
    (let bearer = (let h = Header_Get r ''Authorization'' in
       if \<not> HasPrefix h ''Bearer '' then '''' else TrimPrefix h ''Bearer '') in
     case Cookie r ''access_token'' of None \<Rightarrow> bearer | Some c \<Rightarrow> if c \<noteq> '''' then c else bearer)"

section \<open>Facts\<close>

text \<open>Without a trusted proxy the address a handler sees comes from the socket, whatever headers say.\<close>

lemma TrustedClientIP_untrusted:
  "\<not> inTrustedCIDR (socketAddr (rq_remote r)) trusted \<Longrightarrow> rq_remote (TrustedClientIP trusted r) = socketAddr (rq_remote r)"
  by (simp add: TrustedClientIP_def Let_def)

lemma CSRF_Next:
  "CSRF r = Next r' \<longleftrightarrow> r' = r \<and> (safe_method (rq_method r) \<or> HasPrefix (Header_Get r ''Authorization'') ''Bearer '' \<or>
     (Cookie r ''access_token'' = None \<and> Cookie r ''refresh_token'' = None) \<or>
     (\<exists>c. Cookie r ''csrf_token'' = Some c \<and> c \<noteq> '''' \<and> Header_Get r ''X-Csrf-Token'' = c))"
  by (auto simp: CSRF_def split: option.splits)

lemma RequirePermission_Next:
  "RequirePermission resource action r = Next r' \<longleftrightarrow> r' = r \<and> (\<exists>c. rq_claims r = Some c \<and> HasPermission c resource action)"
  by (auto simp: RequirePermission_def split: option.splits)

lemma RequireRole_Next:
  "RequireRole required r = Next r' \<longleftrightarrow> r' = r \<and> (\<exists>c. rq_claims r = Some c \<and> set required \<inter> set (Roles c) \<noteq> {})"
  by (auto simp: RequireRole_def list_ex_iff split: option.splits)

lemma RequireUserToken_Next:
  "RequireUserToken r = Next r' \<longleftrightarrow> r' = r \<and> (\<exists>c. rq_claims r = Some c \<and> SubType c = SubTypeUser)"
  by (auto simp: RequireUserToken_def split: option.splits)

end
