(* ===== verification/Authenticate.thy ===== *)
theory Authenticate
  imports Auth_Service DPoP_Proof Http_Core
begin

text \<open>
  \<open>pkg/middleware/auth.go\<close>: the middleware in front of every protected route. It joins the token service,
  the access evaluation and the DPoP proofs; what passes carries its claims to the handlers. The wire form
  of a token (\<open>m_token\<close>), the JSON decoder of \<open>X-Client-Info\<close> and the parsers of DPoP proofs and URLs are
  parameters.
\<close>

section \<open>The middleware\<close>

record ('r, 'k, 'p, 't, 'o, 'c) auth_mw =
  m_auth :: "('r, 'k, 'p, 't, 'o, 'c) auth_service"
  m_token :: "string \<Rightarrow> 't"
  m_json :: "string \<Rightarrow> device_info option"
  m_dpop :: dpop_parser
  m_url :: url_parser
  m_origin :: string

text \<open>A nil map and an empty one read alike.\<close>

definition parseXClientInfo :: "('r, 'k, 'p, 't, 'o, 'c) auth_mw \<Rightarrow> http_request \<Rightarrow> device_info" where
  "parseXClientInfo M r = (let raw = Header_Get r ''X-Client-Info'' in
     if raw = '''' then [] else (case m_json M raw of None \<Rightarrow> [] | Some info \<Rightarrow> info))"

definition access_denied :: "auth_error \<Rightarrow> http_request verdict" where
  "access_denied er = (case er of
     ErrDeviceNotAllowed \<Rightarrow> Deny 403 ''device_not_allowed''
   | ErrIPNotAllowed \<Rightarrow> Deny 403 ''ip_not_allowed''
   | ErrCountryNotAllowed \<Rightarrow> Deny 403 ''country_not_allowed''
   | ErrInactiveUser \<Rightarrow> Deny 401 ''user_inactive''
   | _ \<Rightarrow> Deny 401 ''invalid_token'')"

text \<open>The proof of a bound token: the header, the thumbprint of the token, and the proof's identifier used up.\<close>

definition check_binding :: "('r, 'k, 'p, 't, 'o, 'c) auth_mw \<Rightarrow> instant \<Rightarrow> claims \<Rightarrow> http_request \<Rightarrow> 'r \<Rightarrow> 'r \<times> bool" where
  "check_binding M now c r s =
    (case Confirmation c of
       None \<Rightarrow> (s, True)
     | Some bound \<Rightarrow>
       if bound = '''' then (s, True)
       else (let dpopHeader = Header_Get r ''Dpop'' in
         if dpopHeader = '''' then (s, False)
         else case ValidateDPoPProofWithJTI (c_sha (m_auth M)) (m_dpop M) (m_url M) (m_origin M) now dpopHeader (rq_method r) (rq_path r) of
             Inl _ \<Rightarrow> (s, False)
           | Inr (jkt, jti) \<Rightarrow>
             if jkt \<noteq> bound then (s, False)
             else (case ConsumeDPoPProof (m_auth M) now jti s of (s', Inl _) \<Rightarrow> (s', False) | (s', Inr _) \<Rightarrow> (s', True))))"

definition Authenticate :: "('r, 'k, 'p, 't, 'o, 'c) auth_mw \<Rightarrow> auth_env \<Rightarrow> http_request \<Rightarrow> 'r auth_world \<Rightarrow>
    'r auth_world \<times> http_request verdict" where
  "Authenticate M e r w =
    (let A = m_auth M; token = extractToken r in
     if token = '''' then (w, Deny 401 ''missing_token'')
     else case ValidateAccessToken (a_jwt A) (a_ks A) (e_now e) (m_token M token) of
         Inl er \<Rightarrow> (w, Deny 401 (if er = ErrExpiredToken then ''token_expired'' else ''invalid_token''))
       | Inr c \<Rightarrow>
         (case EvaluateAccess A e c (rq_remote r) (parseXClientInfo M r) w of
            Some er \<Rightarrow> (w, access_denied er)
          | None \<Rightarrow>
            (case check_binding M (e_now e) c r (w_rd w) of
               (s, False) \<Rightarrow> (w\<lparr>w_rd := s\<rparr>, Deny 401 ''invalid_dpop_proof'')
             | (s, True) \<Rightarrow> (w\<lparr>w_rd := s\<rparr>, Next (r\<lparr>rq_claims := Some c\<rparr>)))))"

definition ClaimsFrom :: "http_request \<Rightarrow> claims option" where
  "ClaimsFrom r = rq_claims r"

text \<open>A protected route: authentication, then the guards of \<open>rbac.go\<close> on the request it hands on.\<close>

definition guarded :: "('r, 'k, 'p, 't, 'o, 'c) auth_mw \<Rightarrow> (http_request \<Rightarrow> http_request verdict) \<Rightarrow> auth_env \<Rightarrow> http_request \<Rightarrow>
    'r auth_world \<Rightarrow> 'r auth_world \<times> http_request verdict" where
  "guarded M g e r w = map_prod id (then_mw g) (Authenticate M e r w)"

section \<open>Facts\<close>

lemma Authenticate_Next:
  assumes "Authenticate M e r w = (w', Next r')"
  obtains c s where "ValidateAccessToken (a_jwt (m_auth M)) (a_ks (m_auth M)) (e_now e) (m_token M (extractToken r)) = Inr c"
    "EvaluateAccess (m_auth M) e c (rq_remote r) (parseXClientInfo M r) w = None"
    "check_binding M (e_now e) c r (w_rd w) = (s, True)" "w' = w\<lparr>w_rd := s\<rparr>" "r' = r\<lparr>rq_claims := Some c\<rparr>" "extractToken r \<noteq> ''''"
proof -
  have no: "access_denied er \<noteq> Next q" for er q by (cases er) (simp_all add: access_denied_def)
  from assms that no show ?thesis
    by (auto simp: Authenticate_def Let_def split: if_splits sum.splits option.splits prod.splits bool.splits)
qed

lemma check_binding_bound:
  assumes "check_binding M now c r s = (s', True)" "Confirmation c = Some bound" "bound \<noteq> ''''"
  obtains jti where "ValidateDPoPProofWithJTI (c_sha (m_auth M)) (m_dpop M) (m_url M) (m_origin M) now (Header_Get r ''Dpop'')
      (rq_method r) (rq_path r) = Inr (bound, jti)" "ConsumeDPoPProof (m_auth M) now jti s = (s', Inr ())"
  using assms that by (auto simp: check_binding_def Let_def split: if_splits sum.splits prod.splits)

text \<open>Only a bound token changes Redis, and nothing else is ever changed by the middleware.\<close>

lemma Authenticate_frame:
  assumes "Authenticate M e r w = (w', v)"
  shows "\<exists>s. w' = w\<lparr>w_rd := s\<rparr>"
proof -
  have id: "\<exists>s. w = w\<lparr>w_rd := s\<rparr>" by (rule exI [of _ "w_rd w"]) simp
  with assms show ?thesis
    by (auto simp: Authenticate_def Let_def split: if_splits sum.splits option.splits prod.splits bool.splits)
qed

lemma bound_pass:
  assumes "Authenticate M e r w = (w', Next r')" "rq_claims r' = Some c" "Confirmation c = Some bound" "bound \<noteq> ''''"
  obtains h d where "m_dpop M (Header_Get r ''Dpop'') dpop_keyfunc = Some (h, d)" "dp_Jti d \<noteq> ''''"
    "\<bar>dp_Iat d - e_now e div go_second\<bar> \<le> 120" "ConsumeDPoPProof (m_auth M) (e_now e) (dp_Jti d) (w_rd w) = (w_rd w', Inr ())"
proof -
  from Authenticate_Next [OF assms(1)] obtain c' s where "ValidateAccessToken (a_jwt (m_auth M)) (a_ks (m_auth M)) (e_now e) (m_token M (extractToken r)) = Inr c'"
    "EvaluateAccess (m_auth M) e c' (rq_remote r) (parseXClientInfo M r) w = None"
    and b: "check_binding M (e_now e) c' r (w_rd w) = (s, True)" and w': "w' = w\<lparr>w_rd := s\<rparr>" and r': "r' = r\<lparr>rq_claims := Some c'\<rparr>"
    and "extractToken r \<noteq> ''''" by blast
  from r' assms(2) have "c' = c" by simp
  with assms(3,4) check_binding_bound [OF b] obtain jti where
    v: "ValidateDPoPProofWithJTI (c_sha (m_auth M)) (m_dpop M) (m_url M) (m_origin M) (e_now e) (Header_Get r ''Dpop'')
        (rq_method r) (rq_path r) = Inr (bound, jti)" and con: "ConsumeDPoPProof (m_auth M) (e_now e) jti (w_rd w) = (s, Inr ())" by blast
  from proof_ok [OF v] obtain h d jwk where "m_dpop M (Header_Get r ''Dpop'') dpop_keyfunc = Some (h, d)" "dh_jwk h = Some jwk"
    "CalculateJKT (c_sha (m_auth M)) jwk = Some bound" "dp_Jti d = jti" "jti \<noteq> ''''" "\<bar>dp_Iat d - e_now e div go_second\<bar> \<le> 120"
    "EqualFold (dp_Htm d) (rq_method r)" "validateHTU (m_url M) (dp_Htu d) (rq_path r) (m_origin M)" by blast
  with con w' that [of h d] show ?thesis by simp
qed

lemma proof_too_old: "t + 300 \<le> t' \<Longrightarrow> \<bar>iat - t\<bar> \<le> 120 \<Longrightarrow> \<bar>iat - t'\<bar> \<le> 120 \<Longrightarrow> False" for t t' iat :: int
  by arith

text \<open>With Redis up, a proof identifier that is consumed was unknown and is on record for the replay window.\<close>

lemma fresh_proof:
  assumes "redis_up R see up" "c_rdb C = Some R" "up s" "jti \<noteq> ''''" "ConsumeDPoPProof C t jti s = (s', Inr ())"
  shows "see s t (dpopJTIKey jti) = None \<and> see s' t (dpopJTIKey jti) = Some (RStr ''1'', Some (t + dpopReplayWindow)) \<and> up s'"
proof -
  obtain s1 rb where p: "rSetNX R s t (dpopJTIKey jti) (RStr ''1'') dpopReplayWindow = (s1, rb)" by fastforce
  with redis_up.setnx_up [OF assms(1,3)] obtain b where b: "rb = ROk b" "up s1" by blast
  with p assms(2,4,5) have "b" "s' = s1" by (auto simp: ConsumeDPoPProof_def split: if_splits)
  with redis_laws.setnx_ok [OF redis_up.axioms(1) [OF assms(1)], of s t _ _ dpopReplayWindow s1 b] p b show ?thesis by simp
qed

section \<open>Properties\<close>

text \<open>C20: a request reaches a route guarded by \<open>RequirePermission\<close> only with a token that was signed under a key
  of the store with that key's algorithm, is unexpired and first-party, is not on the blocklist as Redis answers,
  satisfies the address, country and device rules, and belongs to an active user with exactly the roles in the
  token or to an active service account with exactly its scopes; the token grants the permission; and when the
  token is bound to a key, the request carries a fresh proof for its own method and path, signed under a key with
  the bound thumbprint. Handlers see exactly the claims of that token.\<close>

theorem protected_route_sound:
  assumes "jwt_laws (a_jwt (m_auth M)) made" "guarded M (RequirePermission res act) e r w = (w', Next r')"
  shows "\<exists>c kid k. ClaimsFrom r' = Some c \<and> r' = r\<lparr>rq_claims := Some c\<rparr> \<and> map_of (keys (a_ks (m_auth M))) kid = Some k \<and>
    made (Public (a_jwt (m_auth M)) (signer k)) (alg k) (Some kid) (m_token M (extractToken r)) c \<and>
    e_now e < ExpiresAt c * go_second \<and> (TokenUse c = TokenUseSession \<or> TokenUse c = TokenUseService) \<and>
    \<not> IsRevoked (m_auth M) (e_now e) (JTI c) (w_rd w) \<and>
    access_gate (m_auth M) (rq_remote r) (parseXClientInfo M r) = None \<and>
    ((SubType c = SubTypeUser \<and> (\<exists>u. findByID (m_auth M) e (UserID c) w = Inr u \<and> u_IsActive u \<and> mset (Roles c) = mset (u_Roles u))) \<or>
     (SubType c = SubTypeService \<and> (a_sa (m_auth M) = None \<or> (\<exists>st sa. a_sa (m_auth M) = Some st \<and>
        sa_FindByClientID st (ClientID c) = Some sa \<and> sa_IsActive sa \<and> mset (Scopes c) = mset (sa_Scopes sa))))) \<and>
    HasPermission c res act \<and>
    (\<forall>bound. Confirmation c = Some bound \<and> bound \<noteq> '''' \<longrightarrow>
      (\<exists>h d jwk. m_dpop M (Header_Get r ''Dpop'') dpop_keyfunc = Some (h, d) \<and> dh_jwk h = Some jwk \<and>
        CalculateJKT (c_sha (m_auth M)) jwk = Some bound \<and> EqualFold (dp_Htm d) (rq_method r) \<and>
        validateHTU (m_url M) (dp_Htu d) (rq_path r) (m_origin M) \<and> \<bar>dp_Iat d - e_now e div go_second\<bar> \<le> 120))"
proof -
  from assms(2) obtain r1 where auth: "Authenticate M e r w = (w', Next r1)" and perm: "RequirePermission res act r1 = Next r'"
    by (cases "Authenticate M e r w") (auto simp: guarded_def then_mw_Next)
  from Authenticate_Next [OF auth] obtain c s where
    c: "ValidateAccessToken (a_jwt (m_auth M)) (a_ks (m_auth M)) (e_now e) (m_token M (extractToken r)) = Inr c"
    and ev: "EvaluateAccess (m_auth M) e c (rq_remote r) (parseXClientInfo M r) w = None"
    and b: "check_binding M (e_now e) c r (w_rd w) = (s, True)" and "w' = w\<lparr>w_rd := s\<rparr>" and r1: "r1 = r\<lparr>rq_claims := Some c\<rparr>"
    and "extractToken r \<noteq> ''''" by blast
  from perm r1 have r': "r' = r\<lparr>rq_claims := Some c\<rparr>" "HasPermission c res act" by (auto simp: RequirePermission_Next)
  from ValidateAccessToken_sound [OF assms(1) c] obtain kid k where k: "map_of (keys (a_ks (m_auth M))) kid = Some k"
    "made (Public (a_jwt (m_auth M)) (signer k)) (alg k) (Some kid) (m_token M (extractToken r)) c"
    "e_now e < ExpiresAt c * go_second" "TokenUse c = TokenUseSession \<or> TokenUse c = TokenUseService" by blast
  have bound: "\<exists>h d jwk. m_dpop M (Header_Get r ''Dpop'') dpop_keyfunc = Some (h, d) \<and> dh_jwk h = Some jwk \<and>
      CalculateJKT (c_sha (m_auth M)) jwk = Some x \<and> EqualFold (dp_Htm d) (rq_method r) \<and>
      validateHTU (m_url M) (dp_Htu d) (rq_path r) (m_origin M) \<and> \<bar>dp_Iat d - e_now e div go_second\<bar> \<le> 120"
    if "Confirmation c = Some x \<and> x \<noteq> ''''" for x
  proof -
    from that check_binding_bound [OF b] obtain jti where
      v: "ValidateDPoPProofWithJTI (c_sha (m_auth M)) (m_dpop M) (m_url M) (m_origin M) (e_now e) (Header_Get r ''Dpop'')
        (rq_method r) (rq_path r) = Inr (x, jti)" by blast
    from proof_ok [OF v] obtain h d jwk where "m_dpop M (Header_Get r ''Dpop'') dpop_keyfunc = Some (h, d)" "dh_jwk h = Some jwk"
      "CalculateJKT (c_sha (m_auth M)) jwk = Some x" "dp_Jti d = jti" "jti \<noteq> ''''" "\<bar>dp_Iat d - e_now e div go_second\<bar> \<le> 120"
      "EqualFold (dp_Htm d) (rq_method r)" "validateHTU (m_url M) (dp_Htu d) (rq_path r) (m_origin M)" by blast
    then show ?thesis by blast
  qed
  have "ClaimsFrom r' = Some c" by (simp add: ClaimsFrom_def r'(1))
  with r' k EvaluateAccess_None [OF ev] bound show ?thesis by blast
qed

text \<open>C21: a proof of possession is good for one request, for ever. When a request with a key-bound token has passed
  with Redis up, no request with the same proof passes with a bound token at any later time, on any route, as long
  as Redis is up and the record of the proof was not deleted before it expired: the record lives for five minutes
  and a proof is too old four minutes after its first use.\<close>

theorem dpop_proof_never_reused:
  assumes "redis_up R see up" "c_rdb (m_auth M) = Some R" "up (w_rd w)" "up (w_rd w2)"
    and first: "Authenticate M e r w = (w1, Next r1)" "rq_claims r1 = Some c1" "Confirmation c1 = Some b1" "b1 \<noteq> ''''"
    and kept: "\<forall>jti x. see (w_rd w1) (e_now e2) (dpopJTIKey jti) = Some x \<longrightarrow> see (w_rd w2) (e_now e2) (dpopJTIKey jti) \<noteq> None"
    and later: "e_now e \<le> e_now e2" "Header_Get r2 ''Dpop'' = Header_Get r ''Dpop''"
  shows "\<not> (\<exists>w3 r3 c2 b2. Authenticate M e2 r2 w2 = (w3, Next r3) \<and> rq_claims r3 = Some c2 \<and> Confirmation c2 = Some b2 \<and> b2 \<noteq> '''')"
proof
  assume "\<exists>w3 r3 c2 b2. Authenticate M e2 r2 w2 = (w3, Next r3) \<and> rq_claims r3 = Some c2 \<and> Confirmation c2 = Some b2 \<and> b2 \<noteq> ''''"
  then obtain w3 r3 c2 b2 where second: "Authenticate M e2 r2 w2 = (w3, Next r3)" "rq_claims r3 = Some c2" "Confirmation c2 = Some b2" "b2 \<noteq> ''''"
    by blast
  from bound_pass [OF first] obtain h1 d1 where 1: "m_dpop M (Header_Get r ''Dpop'') dpop_keyfunc = Some (h1, d1)" "dp_Jti d1 \<noteq> ''''"
    "\<bar>dp_Iat d1 - e_now e div go_second\<bar> \<le> 120" "ConsumeDPoPProof (m_auth M) (e_now e) (dp_Jti d1) (w_rd w) = (w_rd w1, Inr ())" by blast
  from bound_pass [OF second] obtain h2 d2 where 2: "m_dpop M (Header_Get r2 ''Dpop'') dpop_keyfunc = Some (h2, d2)" "dp_Jti d2 \<noteq> ''''"
    "\<bar>dp_Iat d2 - e_now e2 div go_second\<bar> \<le> 120" "ConsumeDPoPProof (m_auth M) (e_now e2) (dp_Jti d2) (w_rd w2) = (w_rd w3, Inr ())" by blast
  from 1(1) 2(1) later(2) have d: "d2 = d1" by simp
  have soon: "e_now e2 < e_now e + dpopReplayWindow"
  proof (rule ccontr)
    assume "\<not> ?thesis"
    then have "e_now e + 300 * go_second \<le> e_now e2" by simp
    then have "(e_now e + 300 * go_second) div go_second \<le> e_now e2 div go_second" by (intro zdiv_mono1) simp_all
    then have "e_now e div go_second + 300 \<le> e_now e2 div go_second" by simp
    then show False by (rule proof_too_old [OF _ 1(3) 2(3) [unfolded d]])
  qed
  from fresh_proof [OF assms(1,2,3) 1(2,4)] have rec: "see (w_rd w1) (e_now e) (dpopJTIKey (dp_Jti d1)) = Some (RStr ''1'', Some (e_now e + dpopReplayWindow))"
    by blast
  have "see (w_rd w1) (e_now e2) (dpopJTIKey (dp_Jti d1)) = Some (RStr ''1'', Some (e_now e + dpopReplayWindow))"
    unfolding redis_laws.see_later [OF redis_up.axioms(1) [OF assms(1)] later(1)] rec live_def using soon by simp
  with kept have "see (w_rd w2) (e_now e2) (dpopJTIKey (dp_Jti d1)) \<noteq> None" by blast
  with fresh_proof [OF assms(1,2,4) 2(2,4)] d show False by simp
qed

section \<open>Witnesses\<close>

definition demo_jwk :: "(string \<times> string) list" where
  "demo_jwk = [(''kty'', ''OKP''), (''crv'', ''Ed25519''), (''x'', ''AA'')]"

definition demo_jkt :: string where
  "demo_jkt = RawURLEncoding (bytes_of (the (jwk_json demo_jwk)))"

definition demo_service_claims :: claims where
  "demo_service_claims = service_claims ''j'' 0 ''cl'' ''n'' [''users:read''] (5 * go_minute) demo_jkt"

text \<open>Every proof names itself as its identifier and was made at time 0 for \<open>GET /api\<close>.\<close>

definition demo_mw :: "(pending_login mem_redis, nat, nat, sym_token, unit, unit) auth_mw" where
  "demo_mw = \<lparr>m_auth = demo_auth, m_token = (\<lambda>_. SymToken AlgEdDSA (Some ''k1'') 7 demo_service_claims), m_json = (\<lambda>_. None),
     m_dpop = (\<lambda>tok kf. let h = \<lparr>dh_typ = Some ''dpop+jwt'', dh_jwk = Some demo_jwk\<rparr> in
       if kf h = None then None else Some (h, \<lparr>dp_Jti = tok, dp_Htm = ''GET'', dp_Htu = ''/api'', dp_Iat = 0\<rparr>)),
     m_url = (\<lambda>_. None), m_origin = ''''\<rparr>"

definition demo_api :: http_request where
  "demo_api = \<lparr>rq_method = ''GET'', rq_path = ''/api'', rq_remote = ''10.0.0.1'',
     rq_headers = [(''Authorization'', ''Bearer t''), (''Dpop'', ''p'')], rq_cookies = [], rq_claims = None\<rparr>"

lemma demo_api_simps:
  "extractToken demo_api = ''t''" "Header_Get demo_api ''Dpop'' = ''p''" "rq_method demo_api = ''GET''" "rq_path demo_api = ''/api''"
  "Header_Get demo_api ''X-Client-Info'' = ''''"
  by (simp_all add: demo_api_def extractToken_def Header_Get_def Cookie_def go_get_def HasPrefix_def TrimPrefix_def)

lemma demo_valid:
  "ValidateAccessToken sym_jwt demo_keys 0 (SymToken AlgEdDSA (Some ''k1'') 7 demo_service_claims) = Inr demo_service_claims"
  by (simp add: ValidateAccessToken_def validateToken_def sym_jwt_def keyfunc_def PublicKey_def demo_keys_def
      addKey_def NewKeyStore_def alg_defs demo_service_claims_def service_claims_def numeric_date_def token_consts zero_claims_def)

lemma demo_eval: "EvaluateAccess demo_auth demo_env demo_service_claims ip [] demo_auth_world = None"
  by (simp add: EvaluateAccess_def IsRevoked_def mem_server_def mem_see_def access_gate_def demo_service_claims_def
      service_claims_def token_consts)

lemma demo_proof: "ValidateDPoPProofWithJTI bytes_of (m_dpop demo_mw) (m_url demo_mw) (m_origin demo_mw) 0 ''p'' ''GET'' ''/api'' =
    Inr (demo_jkt, ''p'')"
proof -
  have "dpop_keyfunc \<lparr>dh_typ = Some ''dpop+jwt'', dh_jwk = Some demo_jwk\<rparr> = Some (Ed25519Key [0])" unfolding demo_jwk_def by code_simp
  then have key: "\<exists>k. dpop_keyfunc \<lparr>dh_typ = Some ''dpop+jwt'', dh_jwk = Some demo_jwk\<rparr> = Some k" by blast
  have fold: "EqualFold ''dpop+jwt'' ''dpop+jwt''" "EqualFold ''GET'' ''GET''" by code_simp+
  have "jwk_json demo_jwk = Some (the (jwk_json demo_jwk))" unfolding demo_jwk_def by (simp add: jwk_json_def go_get_def)
  then have "CalculateJKT bytes_of demo_jwk = Some demo_jkt" by (metis CalculateJKT_def demo_jkt_def option.simps(9))
  with key fold show ?thesis
    by (auto simp: ValidateDPoPProofWithJTI_def demo_mw_def Let_def validateHTU_def splitHTU_def)
qed

definition demo_used :: "pending_login mem_redis" where
  "demo_used = mem_put (w_rd demo_auth_world) (dpopJTIKey ''p'') (Some (RStr ''1'', Some dpopReplayWindow))"

lemma demo_binding: "check_binding demo_mw 0 demo_service_claims demo_api (w_rd demo_auth_world) = (demo_used, True)"
proof -
  have c: "Confirmation demo_service_claims = Some demo_jkt" "demo_jkt \<noteq> ''''" unfolding demo_service_claims_def demo_jkt_def demo_jwk_def by code_simp+
  have "ConsumeDPoPProof demo_auth 0 ''p'' (w_rd demo_auth_world) = (demo_used, Inr ())"
    by (simp add: ConsumeDPoPProof_def mem_defs demo_used_def mem_see_def)
  with c demo_proof show ?thesis by (simp add: check_binding_def demo_api_simps demo_mw_def)
qed

lemma demo_auth_pass: "Authenticate demo_mw demo_env demo_api demo_auth_world =
    (demo_auth_world\<lparr>w_rd := demo_used\<rparr>, Next (demo_api\<lparr>rq_claims := Some demo_service_claims\<rparr>))"
  using demo_binding
  by (simp add: Authenticate_def demo_mw_def demo_api_simps parseXClientInfo_def demo_valid demo_eval)

lemma demo_route: "guarded demo_mw (RequirePermission ''users'' ''read'') demo_env demo_api demo_auth_world =
    (demo_auth_world\<lparr>w_rd := demo_used\<rparr>, Next (demo_api\<lparr>rq_claims := Some demo_service_claims\<rparr>))"
  by (simp add: guarded_def demo_auth_pass then_mw_def RequirePermission_def HasPermission_def demo_service_claims_def
      service_claims_def token_consts)

theorem protected_route_sound_witness:
  "\<exists>c kid k. ClaimsFrom (demo_api\<lparr>rq_claims := Some demo_service_claims\<rparr>) = Some c \<and> map_of (keys (a_ks (m_auth demo_mw))) kid = Some k \<and>
    HasPermission c ''users'' ''read''"
proof -
  have "jwt_laws (a_jwt (m_auth demo_mw)) sym_made" using sym.jwt_laws_axioms by (simp add: demo_mw_def)
  from protected_route_sound [OF this demo_route] show ?thesis by blast
qed

theorem dpop_proof_never_reused_witness:
  "\<not> (\<exists>w3 r3 c2 b2. Authenticate demo_mw demo_env2 demo_api (demo_auth_world\<lparr>w_rd := demo_used\<rparr>) = (w3, Next r3) \<and>
    rq_claims r3 = Some c2 \<and> Confirmation c2 = Some b2 \<and> b2 \<noteq> '''')"
proof (rule dpop_proof_never_reused [OF mem.redis_up_axioms _ _ _ demo_auth_pass])
  show "c_rdb (m_auth demo_mw) = Some mem_server" by (simp add: demo_mw_def)
  show "mem_up (w_rd demo_auth_world)" by simp
  show "mem_up (w_rd (demo_auth_world\<lparr>w_rd := demo_used\<rparr>))" by (simp add: demo_used_def mem_put_def)
  show "rq_claims (demo_api\<lparr>rq_claims := Some demo_service_claims\<rparr>) = Some demo_service_claims" by simp
  show "Confirmation demo_service_claims = Some demo_jkt" "demo_jkt \<noteq> ''''" unfolding demo_service_claims_def demo_jkt_def demo_jwk_def by code_simp+
qed simp_all

end
