(* ===== verification/Attempt_Guard.thy ===== *)
theory Attempt_Guard
  imports Http_Core MFA_Service
begin

text \<open>
  \<open>pkg/middleware/ratelimit.go\<close>, \<open>pkg/middleware/stepup_mfa.go\<close> and \<open>internal/mfa/handler.go\<close>: counters in
  Redis that stop repeated attempts, and the recent-second-factor requirement for sensitive routes. The three
  counters have one contract, the locale \<open>attempt_guard\<close>: the counter starts its window with the first attempt
  and blocks from the limit on. What follows from it is proved once.
\<close>

section \<open>Rate limiter\<close>

record ('r, 'd) rate_limiter =
  rl_rdb :: "('r, 'd) redis"
  rl_prefix :: string
  rl_max :: int
  rl_window :: duration

definition increment :: "('r, 'd) rate_limiter \<Rightarrow> instant \<Rightarrow> string \<Rightarrow> 'r \<Rightarrow> 'r \<times> (int \<times> duration) option" where
  "increment rl now key s =
    (case rIncr (rl_rdb rl) s now key of
       (s1, ROk count) \<Rightarrow>
         if count = 1 then
           (case rExpire (rl_rdb rl) s1 now key (rl_window rl) of
              (s2, ROk _) \<Rightarrow> (s2, Some (count, rl_window rl)) | (s2, _) \<Rightarrow> (s2, None))
         else (case rTTL (rl_rdb rl) s1 now key of
              ROk ttl \<Rightarrow> (s1, Some (count, if ttl \<le> 0 then rl_window rl else ttl)) | _ \<Rightarrow> (s1, None))
     | (s1, _) \<Rightarrow> (s1, None))"

text \<open>The answers of the limiter: pass without enforcement, pass with the \<open>X-RateLimit\<close> headers (limit and
  remaining), or 429 with \<open>Retry-After\<close>.\<close>

datatype rl_answer = RlFailOpen | RlPass int int | RlExceeded int int int

definition rl_key :: "('r, 'd) rate_limiter \<Rightarrow> http_request \<Rightarrow> string" where
  "rl_key rl r = ''rl:'' @ rl_prefix rl @ '':'' @
    (case rq_claims r of None \<Rightarrow> ClientIP r | Some c \<Rightarrow> if UserID c \<noteq> '''' then UserID c else ClientIP r)"

definition RateLimit :: "('r, 'd) rate_limiter \<Rightarrow> instant \<Rightarrow> http_request \<Rightarrow> 'r \<Rightarrow> 'r \<times> rl_answer" where
  "RateLimit rl now r s =
    (case increment rl now (rl_key rl r) s of
       (s', None) \<Rightarrow> (s', RlFailOpen)
     | (s', Some (count, retryAfter)) \<Rightarrow>
       (let remaining = (if rl_max rl - count < 0 then 0 else rl_max rl - count) in
        if count > rl_max rl then (s', RlExceeded (rl_max rl) remaining (retryAfter div go_second))
        else (s', RlPass (rl_max rl) remaining)))"

definition rl_passes :: "rl_answer \<Rightarrow> bool" where
  "rl_passes a = (case a of RlExceeded _ _ _ \<Rightarrow> False | _ \<Rightarrow> True)"

section \<open>Attempt counters of the second factor\<close>

text \<open>\<open>mfaAttemptsExceeded\<close>, \<open>recordMFAFailure\<close> and \<open>clearMFAFailures\<close> of the handler take the key; those of the
  middleware fix it to the step-up key. A nil client counts nothing.\<close>

abbreviation mfaMaxFailedAttempts :: int where "mfaMaxFailedAttempts \<equiv> 5"

definition mfaAttemptWindow :: duration where "mfaAttemptWindow = 10 * go_minute"

definition mfaStepUpAttemptsKey :: "string \<Rightarrow> string" where "mfaStepUpAttemptsKey u = ''mfa:stepup:fails:'' @ u"
definition mfaDisableAttemptsKey :: "string \<Rightarrow> string" where "mfaDisableAttemptsKey u = ''mfa:disable:fails:'' @ u"
definition mfaSetupAttemptsKey :: "string \<Rightarrow> string" where "mfaSetupAttemptsKey u = ''mfa:setup:fails:'' @ u"
definition mfaVerifyAttemptsKey :: "string \<Rightarrow> string" where "mfaVerifyAttemptsKey u = ''mfa:verify:fails:'' @ u"

definition mfaAttemptsExceeded :: "('r, 'd) redis option \<Rightarrow> instant \<Rightarrow> string \<Rightarrow> 'r \<Rightarrow> bool" where
  "mfaAttemptsExceeded rdb now key s = (case rdb of None \<Rightarrow> False
     | Some R \<Rightarrow> (case reply_int (rGet R s now key) of None \<Rightarrow> False | Some n \<Rightarrow> n \<ge> mfaMaxFailedAttempts))"

definition recordMFAFailure :: "('r, 'd) redis option \<Rightarrow> instant \<Rightarrow> string \<Rightarrow> 'r \<Rightarrow> 'r" where
  "recordMFAFailure rdb now key s = (case rdb of None \<Rightarrow> s
     | Some R \<Rightarrow> (case rIncr R s now key of
         (s1, ROk n) \<Rightarrow> if n = 1 then fst (rExpire R s1 now key mfaAttemptWindow) else s1
       | (s1, _) \<Rightarrow> s1))"

definition clearMFAFailures :: "('r, 'd) redis option \<Rightarrow> instant \<Rightarrow> string \<Rightarrow> 'r \<Rightarrow> 'r" where
  "clearMFAFailures rdb now key s = (case rdb of None \<Rightarrow> s | Some R \<Rightarrow> fst (rDel R s now [key]))"

definition stepUpAttemptsKey :: "string \<Rightarrow> string" where
  "stepUpAttemptsKey userID = ''mfa:stepup:fails:'' @ userID"

definition stepUpAttemptWindow :: duration where "stepUpAttemptWindow = 10 * go_minute"

abbreviation stepUpMaxFailedAttempts :: int where "stepUpMaxFailedAttempts \<equiv> 5"

definition stepUpAttemptsExceeded :: "('r, 'd) redis \<Rightarrow> instant \<Rightarrow> string \<Rightarrow> 'r \<Rightarrow> bool" where
  "stepUpAttemptsExceeded R now userID s = (case reply_int (rGet R s now (stepUpAttemptsKey userID)) of
     None \<Rightarrow> False | Some n \<Rightarrow> n \<ge> stepUpMaxFailedAttempts)"

definition recordStepUpFailure :: "('r, 'd) redis \<Rightarrow> instant \<Rightarrow> string \<Rightarrow> 'r \<Rightarrow> 'r" where
  "recordStepUpFailure R now userID s = (case rIncr R s now (stepUpAttemptsKey userID) of
     (s1, ROk n) \<Rightarrow> if n = 1 then fst (rExpire R s1 now (stepUpAttemptsKey userID) stepUpAttemptWindow) else s1
   | (s1, _) \<Rightarrow> s1)"

definition clearStepUpFailures :: "('r, 'd) redis \<Rightarrow> instant \<Rightarrow> string \<Rightarrow> 'r \<Rightarrow> 'r" where
  "clearStepUpFailures R now userID s = fst (rDel R s now [stepUpAttemptsKey userID])"

section \<open>Recent second factor\<close>

definition recentMFAKey :: "string \<Rightarrow> string \<Rightarrow> string" where
  "recentMFAKey userID sessionHash = ''mfa:recent:'' @ userID @ '':'' @ sessionHash"

definition hashOpaqueToken :: "(string \<Rightarrow> bytes) \<Rightarrow> string \<Rightarrow> string" where
  "hashOpaqueToken sha token = hex_encode (sha token)"

definition hasRecentMFA :: "('r, 'd) redis \<Rightarrow> instant \<Rightarrow> string \<Rightarrow> string \<Rightarrow> 'r \<Rightarrow> bool" where
  "hasRecentMFA R now userID sessionHash s =
    (case rExists R s now (recentMFAKey userID sessionHash) of ROk n \<Rightarrow> n > 0 | _ \<Rightarrow> False)"

definition markRecentMFA :: "('r, 'd) redis \<Rightarrow> instant \<Rightarrow> string \<Rightarrow> string \<Rightarrow> duration \<Rightarrow> 'r \<Rightarrow> 'r \<times> bool" where
  "markRecentMFA R now userID sessionHash window s =
    sent (rSet R s now (recentMFAKey userID sessionHash) (RStr ''1'') window)"

definition refreshTokenFromCookie :: "http_request \<Rightarrow> string option" where
  "refreshTokenFromCookie r = (case Cookie r ''refresh_token'' of None \<Rightarrow> None | Some c \<Rightarrow> if c = '''' then None else Some c)"

definition stepUpWindow :: "duration \<Rightarrow> duration" where
  "stepUpWindow window = (if window \<le> 0 then 10 * go_minute else window)"

definition HasRecentMFACookie :: "('r, 'd) redis option \<Rightarrow> (string \<Rightarrow> bytes) \<Rightarrow> instant \<Rightarrow> string \<Rightarrow> string \<Rightarrow> 'r \<Rightarrow> bool" where
  "HasRecentMFACookie rdb sha now userID refreshToken s = (case rdb of None \<Rightarrow> False
     | Some R \<Rightarrow> userID \<noteq> '''' \<and> refreshToken \<noteq> '''' \<and> hasRecentMFA R now userID (hashOpaqueToken sha refreshToken) s)"

definition MarkRecentMFACookie :: "('r, 'd) redis option \<Rightarrow> (string \<Rightarrow> bytes) \<Rightarrow> instant \<Rightarrow> string \<Rightarrow> string \<Rightarrow> duration \<Rightarrow> 'r \<Rightarrow> 'r \<times> bool" where
  "MarkRecentMFACookie rdb sha now userID refreshToken window s = (case rdb of None \<Rightarrow> (s, False)
     | Some R \<Rightarrow> if userID = '''' \<or> refreshToken = '''' then (s, False)
         else markRecentMFA R now userID (hashOpaqueToken sha refreshToken) (stepUpWindow window) s)"

text \<open>The environment of a guarded route: the MFA service (nil is \<open>None\<close>), its Redis client, SHA-256 and the window.\<close>

record ('r, 'd) stepup_cfg =
  su_mfa :: "('r, 'd) mfa_service option"
  su_rdb :: "('r, 'd) redis option"
  su_sha :: "string \<Rightarrow> bytes"
  su_window :: duration

definition RequireRecentMFA :: "('r, 'd) stepup_cfg \<Rightarrow> (mfa_call \<Rightarrow> bool) \<Rightarrow> instant \<Rightarrow> http_request \<Rightarrow> 'r mfa_world \<Rightarrow>
    'r mfa_world \<times> http_request verdict" where
  "RequireRecentMFA C db now r w =
    (case rq_claims r of
       None \<Rightarrow> (w, Deny 401 ''unauthorized'')
     | Some c \<Rightarrow>
       (case (su_mfa C, su_rdb C) of
          (Some S, Some R) \<Rightarrow>
            if \<not> IsEnabled (db CallIsEnabled) (UserID c) (mfa_tb w) then (w, Deny 403 ''mfa_required'')
            else (case refreshTokenFromCookie r of
                None \<Rightarrow> (w, Deny 403 ''mfa_required'')
              | Some rt \<Rightarrow>
                (let sessionHash = hashOpaqueToken (su_sha C) rt; code = TrimSpace (Header_Get r ''X-Mfa-Code'') in
                 if hasRecentMFA R now (UserID c) sessionHash (mfa_rd w) then (w, Next r)
                 else if code = '''' then (w, Deny 403 ''mfa_required'')
                 else if stepUpAttemptsExceeded R now (UserID c) (mfa_rd w) then (w, Deny 429 ''too_many_attempts'')
                 else case ValidateStepUp S db now (UserID c) code w of
                     (w1, False) \<Rightarrow> (w1\<lparr>mfa_rd := recordStepUpFailure R now (UserID c) (mfa_rd w1)\<rparr>, Deny 403 ''mfa_required'')
                   | (w1, True) \<Rightarrow>
                     (let s2 = clearStepUpFailures R now (UserID c) (mfa_rd w1) in
                      case markRecentMFA R now (UserID c) sessionHash (stepUpWindow (su_window C)) s2 of
                        (s3, True) \<Rightarrow> (w1\<lparr>mfa_rd := s3\<rparr>, Next r)
                      | (s3, False) \<Rightarrow> (w1\<lparr>mfa_rd := s3\<rparr>, Deny 500 ''internal_error''))))
        | _ \<Rightarrow> (w, Deny 503 ''mfa_unavailable'')))"

definition RequireRecentMFAIfEnabled :: "('r, 'd) stepup_cfg \<Rightarrow> (mfa_call \<Rightarrow> bool) \<Rightarrow> instant \<Rightarrow> http_request \<Rightarrow> 'r mfa_world \<Rightarrow>
    'r mfa_world \<times> http_request verdict" where
  "RequireRecentMFAIfEnabled C db now r w =
    (case rq_claims r of
       None \<Rightarrow> (w, Deny 401 ''unauthorized'')
     | Some c \<Rightarrow>
       if su_mfa C = None \<or> su_rdb C = None then (w, Deny 503 ''mfa_unavailable'')
       else if \<not> IsEnabled (db CallIsEnabled) (UserID c) (mfa_tb w) then (w, Next r)
       else RequireRecentMFA C db now r w)"

section \<open>The contract of an attempt counter\<close>

text \<open>The number of attempts a counter key records; \<open>None\<close> for a key of another type.\<close>

definition counter :: "'d rentry option \<Rightarrow> int option" where
  "counter e = (case e of None \<Rightarrow> Some 0 | Some (RInt n, _) \<Rightarrow> Some n | _ \<Rightarrow> None)"

lemma counter_simps [simp]: "counter None = Some 0" "counter (Some (RInt n, x)) = Some n"
  by (simp_all add: counter_def)

lemma counter_Some: "counter e = Some n \<longleftrightarrow> (e = None \<and> n = 0) \<or> (\<exists>x. e = Some (RInt n, x))"
  by (cases e; cases "fst (the e)") (auto simp: counter_def)

lemma counter_incr: "counter e = Some n \<Longrightarrow> incr_value e = Some (n + 1)"
  by (auto simp: counter_Some)

lemma counter_plain: "counter e = Some n \<Longrightarrow> plain_entry e"
  by (auto simp: counter_Some)

locale attempt_guard = redis_up R see up
  for R :: "('r, 'd) redis" and see and up +
  fixes key :: string and limit :: int and window :: duration
    and exceeded :: "instant \<Rightarrow> 'r \<Rightarrow> bool" and record_attempt :: "instant \<Rightarrow> 'r \<Rightarrow> 'r"
  assumes window_pos: "0 < window"
    and exceeded_iff: "up s \<Longrightarrow> counter (see s t key) = Some n \<Longrightarrow> 0 \<le> n \<Longrightarrow> exceeded t s \<longleftrightarrow> limit \<le> n"
    and record_ok: "up s \<Longrightarrow> counter (see s t key) = Some n \<Longrightarrow> 0 \<le> n \<Longrightarrow> up (record_attempt t s) \<and>
        see (record_attempt t s) t = (see s t)(key \<mapsto> (RInt (n + 1),
          if n = 0 then Some (t + window) else entry_expiry (see s t key)))"
begin

text \<open>
  \<open>attempts t0 n s t\<close>: \<open>n\<close> attempts were recorded since the window opened at \<open>t0\<close>, the last state is \<open>s\<close> at
  time \<open>t\<close>. Between two attempts everything else may happen that leaves the counter key alone.
\<close>

inductive attempts :: "instant \<Rightarrow> nat \<Rightarrow> 'r \<Rightarrow> instant \<Rightarrow> bool" where
  first: "up s \<Longrightarrow> see s t key = None \<Longrightarrow> attempts t 1 (record_attempt t s) t"
| more: "attempts t0 n s t \<Longrightarrow> up s' \<Longrightarrow> t \<le> t' \<Longrightarrow> t' < t0 + window \<Longrightarrow> see s' t' key = see s t' key \<Longrightarrow>
    attempts t0 (Suc n) (record_attempt t' s') t'"

lemma attempts_counter:
  "attempts t0 n s t \<Longrightarrow> up s \<and> 0 < n \<and> t0 \<le> t \<and> t < t0 + window \<and> see s t key = Some (RInt (int n), Some (t0 + window))"
proof (induction rule: attempts.induct)
  case (first s t)
  then show ?case using record_ok [OF first(1), of t 0] window_pos by simp
next
  case (more t0 n s t s' t')
  then have "see s t' key = Some (RInt (int n), Some (t0 + window))"
    using see_later [OF more.hyps(3), of s key] by (simp add: live_def)
  with more.hyps(5) have e: "see s' t' key = Some (RInt (int n), Some (t0 + window))" by (rule trans)
  have c: "counter (see s' t' key) = Some (int n)" unfolding e by simp
  from record_ok [OF more.hyps(2) c] more.IH
  have "up (record_attempt t' s')" "see (record_attempt t' s') t' key = Some (RInt (int n + 1), Some (t0 + window))"
    unfolding e by auto
  with more.IH more.hyps(3,4) show ?case by simp
qed

text \<open>Within the window the guard blocks exactly from the limit on; after it, the count starts again.\<close>

lemma blocks_exactly:
  assumes "attempts t0 n s t" "up s'" "t \<le> t'" "see s' t' key = see s t' key"
  shows "exceeded t' s' \<longleftrightarrow> t' < t0 + window \<and> limit \<le> int n \<or> t0 + window \<le> t' \<and> limit \<le> 0"
proof -
  from attempts_counter [OF assms(1)] have c: "see s t key = Some (RInt (int n), Some (t0 + window))" by simp
  show ?thesis
  proof (cases "t' < t0 + window")
    case True
    with see_later [OF assms(3), of s key] c assms(4) have "see s' t' key = Some (RInt (int n), Some (t0 + window))"
      by (simp add: live_def)
    with exceeded_iff [OF assms(2), of t' "int n"] True show ?thesis by simp
  next
    case False
    with see_later [OF assms(3), of s key] c assms(4) have "see s' t' key = None" by (simp add: live_def)
    with exceeded_iff [OF assms(2), of t' 0] False show ?thesis by auto
  qed
qed

end

section \<open>The three counters satisfy it\<close>

text \<open>\<open>INCR\<close>, and \<open>EXPIRE\<close> on the first increment.\<close>

context redis_up
begin

lemma incr_expire:
  assumes up: "up s" and c: "counter (see s t k) = Some n" and n: "0 \<le> n" and d: "0 < d"
  obtains s1 s2 b where "rIncr R s t k = (s1, ROk (n + 1))" "rExpire R s1 t k d = (s2, ROk b)" "up s1" "up s2"
    "see s1 t = (see s t)(k \<mapsto> (RInt (n + 1), entry_expiry (see s t k)))"
    "see s2 t = (see s t)(k \<mapsto> (RInt (n + 1), Some (t + d)))"
proof -
  from incr_effect [OF up counter_incr [OF c]] obtain s1 where 1: "rIncr R s t k = (s1, ROk (n + 1))" "up s1"
    "see s1 t = (see s t)(k \<mapsto> (RInt (n + 1), entry_expiry (see s t k)))" by blast
  from expire_effect [OF 1(2) d] obtain s2 b where 2: "rExpire R s1 t k d = (s2, ROk b)" "up s2"
    "see s2 t = (case see s1 t k of None \<Rightarrow> see s1 t | Some (v, _) \<Rightarrow> (see s1 t)(k \<mapsto> (v, Some (t + d))))" by blast
  have "see s2 t = (see s t)(k \<mapsto> (RInt (n + 1), Some (t + d)))" unfolding 2(3) 1(3) by simp
  with 1 2 that show ?thesis by blast
qed

lemma get_counter:
  assumes "up s" "counter (see s t k) = Some n"
  shows "reply_int (rGet R s t k) = (if see s t k = None then None else Some n)"
  using get_value [OF assms(1) counter_plain [OF assms(2)]] assms(2)
  by (auto simp: counter_Some reply_int_def)

lemma mfa_counter: "attempt_guard R see up k mfaMaxFailedAttempts mfaAttemptWindow
    (\<lambda>t. mfaAttemptsExceeded (Some R) t k) (\<lambda>t. recordMFAFailure (Some R) t k)"
proof (unfold_locales, goal_cases)
  case 1
  then show ?case by (simp add: mfaAttemptWindow_def)
next
  case (2 s t n)
  then show ?case using get_counter [OF 2(1,2)] by (auto simp: mfaAttemptsExceeded_def)
next
  case (3 s t n)
  have "0 < mfaAttemptWindow" by (simp add: mfaAttemptWindow_def)
  from incr_expire [OF 3 this] obtain s1 s2 b where "rIncr R s t k = (s1, ROk (n + 1))"
    "rExpire R s1 t k mfaAttemptWindow = (s2, ROk b)" "up s1" "up s2"
    "see s1 t = (see s t)(k \<mapsto> (RInt (n + 1), entry_expiry (see s t k)))"
    "see s2 t = (see s t)(k \<mapsto> (RInt (n + 1), Some (t + mfaAttemptWindow)))" by blast
  then show ?case by (cases "n = 0") (simp_all add: recordMFAFailure_def)
qed

lemma stepup_counter: "attempt_guard R see up (stepUpAttemptsKey u) stepUpMaxFailedAttempts stepUpAttemptWindow
    (\<lambda>t. stepUpAttemptsExceeded R t u) (\<lambda>t. recordStepUpFailure R t u)"
proof (unfold_locales, goal_cases)
  case 1
  then show ?case by (simp add: stepUpAttemptWindow_def)
next
  case (2 s t n)
  then show ?case using get_counter [OF 2(1,2)] by (auto simp: stepUpAttemptsExceeded_def)
next
  case (3 s t n)
  have "0 < stepUpAttemptWindow" by (simp add: stepUpAttemptWindow_def)
  from incr_expire [OF 3 this] obtain s1 s2 b where "rIncr R s t (stepUpAttemptsKey u) = (s1, ROk (n + 1))"
    "rExpire R s1 t (stepUpAttemptsKey u) stepUpAttemptWindow = (s2, ROk b)" "up s1" "up s2"
    "see s1 t = (see s t)((stepUpAttemptsKey u) \<mapsto> (RInt (n + 1), entry_expiry (see s t (stepUpAttemptsKey u))))"
    "see s2 t = (see s t)((stepUpAttemptsKey u) \<mapsto> (RInt (n + 1), Some (t + stepUpAttemptWindow)))" by blast
  then show ?case by (cases "n = 0") (simp_all add: recordStepUpFailure_def)
qed

lemma increment_counts:
  assumes "up s" "counter (see s t k) = Some n" "0 \<le> n" "0 < rl_window rl" "rl_rdb rl = R"
  shows "\<exists>s' d. increment rl t k s = (s', Some (n + 1, d)) \<and> up s' \<and>
    see s' t = (see s t)(k \<mapsto> (RInt (n + 1), if n = 0 then Some (t + rl_window rl) else entry_expiry (see s t k)))"
proof -
  from incr_expire [OF assms(1-4)] obtain s1 s2 b where
    1: "rIncr R s t k = (s1, ROk (n + 1))" "rExpire R s1 t k (rl_window rl) = (s2, ROk b)" "up s1" "up s2"
    "see s1 t = (see s t)(k \<mapsto> (RInt (n + 1), entry_expiry (see s t k)))"
    "see s2 t = (see s t)(k \<mapsto> (RInt (n + 1), Some (t + rl_window rl)))" by blast
  obtain d where "rTTL R s1 t k = ROk d" using ttl_some [OF 1(3)] by blast
  with 1 assms(5) show ?thesis by (cases "n = 0") (simp_all add: increment_def)
qed

lemma limiter_counter:
  assumes "rl_rdb rl = R" "0 < rl_window rl"
  shows "attempt_guard R see up (rl_key rl r) (rl_max rl) (rl_window rl)
    (\<lambda>t s. \<not> rl_passes (snd (RateLimit rl t r s))) (\<lambda>t s. fst (RateLimit rl t r s))"
proof (unfold_locales, goal_cases)
  case 1
  then show ?case by (rule assms(2))
next
  case (2 s t n)
  from increment_counts [OF 2 assms(2,1)] obtain s' d where "increment rl t (rl_key rl r) s = (s', Some (n + 1, d))" by blast
  then show ?case by (cases "rl_max rl \<le> n") (simp_all add: RateLimit_def rl_passes_def Let_def)
next
  case (3 s t n)
  from increment_counts [OF 3 assms(2,1)] obtain s' d where "increment rl t (rl_key rl r) s = (s', Some (n + 1, d))"
    and s': "up s'" "see s' t = (see s t)(rl_key rl r \<mapsto> (RInt (n + 1),
      if n = 0 then Some (t + rl_window rl) else entry_expiry (see s t (rl_key rl r))))" by blast
  then have "fst (RateLimit rl t r s) = s'" by (simp add: RateLimit_def Let_def)
  with s' show ?case by simp
qed

end

sublocale redis_up \<subseteq> stepup: attempt_guard R see up "stepUpAttemptsKey u" stepUpMaxFailedAttempts stepUpAttemptWindow
    "\<lambda>t. stepUpAttemptsExceeded R t u" "\<lambda>t. recordStepUpFailure R t u" for u
  by (rule stepup_counter)

interpretation handler_counter: attempt_guard mem_server mem_see mem_up k mfaMaxFailedAttempts mfaAttemptWindow
    "\<lambda>t. mfaAttemptsExceeded (Some mem_server) t k" "\<lambda>t. recordMFAFailure (Some mem_server) t k" for k
  by (rule mem.mfa_counter)

section \<open>Properties\<close>

abbreviation limited_requests :: "('r, 'd) rate_limiter \<Rightarrow> ('r \<Rightarrow> instant \<Rightarrow> string \<Rightarrow> 'd rentry option) \<Rightarrow> ('r \<Rightarrow> bool) \<Rightarrow>
    http_request \<Rightarrow> instant \<Rightarrow> nat \<Rightarrow> 'r \<Rightarrow> instant \<Rightarrow> bool" where
  "limited_requests rl see up r \<equiv> attempt_guard.attempts see up (rl_key rl r) (rl_window rl) (\<lambda>t s. fst (RateLimit rl t r s))"

text \<open>the rate limiter is an exact fixed window. After \<open>n\<close> requests of one client (the same key) since the
  window opened, with anything else in between that does not touch the client's counter, the next request passes
  exactly if fewer than \<open>max\<close> were counted or the window is over; so with a positive limit no more than \<open>max\<close>
  requests pass per window and the window always reopens.\<close>

lemma rate_limit_exact:
  assumes "redis_up (rl_rdb rl) see up" "0 < rl_window rl" "0 < rl_max rl"
    and "limited_requests rl see up r t0 n s t" "up s'" "t \<le> t'" "see s' t' (rl_key rl r) = see s t' (rl_key rl r)"
  shows "rl_passes (snd (RateLimit rl t' r s')) \<longleftrightarrow> int n < rl_max rl \<or> t0 + rl_window rl \<le> t'"
  using attempt_guard.blocks_exactly [OF redis_up.limiter_counter [OF assms(1) refl assms(2)] assms(4-7)] assms(3) by auto

definition demo_limiter :: "(unit mem_redis, unit) rate_limiter" where
  "demo_limiter = \<lparr>rl_rdb = mem_server, rl_prefix = ''login'', rl_max = 2, rl_window = go_minute\<rparr>"

definition demo_request :: http_request where
  "demo_request = \<lparr>rq_method = ''POST'', rq_path = ''/'', rq_remote = ''10.0.0.1'', rq_headers = [], rq_cookies = [], rq_claims = None\<rparr>"

definition no_redis :: "unit mem_redis" where
  "no_redis = \<lparr>mem_kv = (\<lambda>_. None), mem_up = True\<rparr>"

definition demo_limited :: "unit mem_redis" where
  "demo_limited = fst (RateLimit demo_limiter 0 demo_request no_redis)"

lemma RequireRecentMFA_Next:
  assumes "RequireRecentMFA C db now r w = (w', Next r')" "su_mfa C = Some S" "su_rdb C = Some R"
  obtains c rt where "r' = r" "rq_claims r = Some c" "IsEnabled (db CallIsEnabled) (UserID c) (mfa_tb w)"
    "Cookie r ''refresh_token'' = Some rt" "rt \<noteq> ''''"
    "hasRecentMFA R now (UserID c) (hashOpaqueToken (su_sha C) rt) (mfa_rd w) \<and> w' = w \<or>
     (\<exists>w1. ValidateStepUp S db now (UserID c) (TrimSpace (Header_Get r ''X-Mfa-Code'')) w = (w1, True) \<and>
       \<not> stepUpAttemptsExceeded R now (UserID c) (mfa_rd w) \<and>
       markRecentMFA R now (UserID c) (hashOpaqueToken (su_sha C) rt) (stepUpWindow (su_window C))
         (clearStepUpFailures R now (UserID c) (mfa_rd w1)) = (mfa_rd w', True))"
  using assms that
  by (auto simp: RequireRecentMFA_def refreshTokenFromCookie_def Let_def split: option.splits if_splits prod.splits bool.splits)

text \<open>C22: step-up authentication. A request passes \<open>RequireRecentMFA\<close> only for a user with TOTP enabled, inside a
  browser session (a refresh cookie), and only if that very session has a live step-up mark, or if the request
  carries a code that \<open>ValidateStepUp\<close> accepts while the attempt counter is below its limit; in that case the
  session, and no other one, is marked for exactly the configured window.\<close>

theorem stepup_required:
  assumes "redis_laws R see" "su_mfa C = Some S" "su_rdb C = Some R"
    and run: "RequireRecentMFA C db now r w = (w', Next r')"
  shows "\<exists>c rt. r' = r \<and> rq_claims r = Some c \<and> IsEnabled (db CallIsEnabled) (UserID c) (mfa_tb w) \<and>
    Cookie r ''refresh_token'' = Some rt \<and>
    (let key = recentMFAKey (UserID c) (hashOpaqueToken (su_sha C) rt) in
      (\<exists>x. see (mfa_rd w) now key = Some x) \<and> w' = w \<or>
      (\<exists>w1. ValidateStepUp S db now (UserID c) (TrimSpace (Header_Get r ''X-Mfa-Code'')) w = (w1, True) \<and>
        \<not> stepUpAttemptsExceeded R now (UserID c) (mfa_rd w) \<and>
        (\<forall>t \<ge> now. see (mfa_rd w') t key =
          (if t < now + stepUpWindow (su_window C) then Some (RStr ''1'', Some (now + stepUpWindow (su_window C))) else None)) \<and>
        (\<forall>k. k \<noteq> key \<longrightarrow> see (mfa_rd w') now k =
          see (clearStepUpFailures R now (UserID c) (mfa_rd w1)) now k)))"
proof -
  from RequireRecentMFA_Next [OF run assms(2,3)] obtain c rt where c: "r' = r" "rq_claims r = Some c"
    "IsEnabled (db CallIsEnabled) (UserID c) (mfa_tb w)" "Cookie r ''refresh_token'' = Some rt"
    and alt: "hasRecentMFA R now (UserID c) (hashOpaqueToken (su_sha C) rt) (mfa_rd w) \<and> w' = w \<or>
     (\<exists>w1. ValidateStepUp S db now (UserID c) (TrimSpace (Header_Get r ''X-Mfa-Code'')) w = (w1, True) \<and>
       \<not> stepUpAttemptsExceeded R now (UserID c) (mfa_rd w) \<and>
       markRecentMFA R now (UserID c) (hashOpaqueToken (su_sha C) rt) (stepUpWindow (su_window C))
         (clearStepUpFailures R now (UserID c) (mfa_rd w1)) = (mfa_rd w', True))" by blast
  let ?key = "recentMFAKey (UserID c) (hashOpaqueToken (su_sha C) rt)" and ?W = "stepUpWindow (su_window C)"
  have W: "0 < ?W" by (simp add: stepUpWindow_def)
  have recent: "\<exists>x. see s now ?key = Some x" if "hasRecentMFA R now (UserID c) (hashOpaqueToken (su_sha C) rt) s" for s
    using that redis_laws.exists_ok [OF assms(1), of s now ?key] by (auto simp: hasRecentMFA_def split: reply.splits)
  have mark: "(\<forall>t \<ge> now. see s' t ?key = (if t < now + ?W then Some (RStr ''1'', Some (now + ?W)) else None)) \<and>
      (\<forall>k. k \<noteq> ?key \<longrightarrow> see s' now k = see s now k)"
    if "markRecentMFA R now (UserID c) (hashOpaqueToken (su_sha C) rt) ?W s = (s', True)" for s s'
  proof -
    from that obtain x where set: "rSet R s now ?key (RStr ''1'') ?W = (s', ROk x)"
      by (cases "rSet R s now ?key (RStr ''1'') ?W"; cases "snd (rSet R s now ?key (RStr ''1'') ?W)") (auto simp: markRecentMFA_def)
    show ?thesis
      using redis_laws.see_set_later [OF assms(1) set W] redis_laws.see_set_other [OF assms(1) set W order_refl] by auto
  qed
  from c alt recent mark show ?thesis unfolding Let_def by blast
qed

definition demo_stepup :: "(unit mem_redis, unit) stepup_cfg" where
  "demo_stepup = \<lparr>su_mfa = Some demo_mfa, su_rdb = Some mem_server, su_sha = bytes_of, su_window = 0\<rparr>"

definition demo_sensitive :: http_request where
  "demo_sensitive = demo_request\<lparr>rq_headers := [(''X-Mfa-Code'', ''123456'')], rq_cookies := [(''refresh_token'', ''rt'')],
     rq_claims := Some (zero_claims\<lparr>UserID := ''u''\<rparr>)\<rparr>"

lemma demo_stepup_run: "\<exists>w'. RequireRecentMFA demo_stepup (\<lambda>_. True) 0 demo_sensitive demo_mfa_world = (w', Next demo_sensitive)"
proof -
  have v: "ValidateStepUp demo_mfa (\<lambda>_. True) 0 ''u'' ''123456'' demo_mfa_world = (demo_used_world, True)"
    by (simp add: ValidateStepUp_def demo_accept)
  have e: "IsEnabled True ''u'' [''u'' \<mapsto> demo_mfa_row]" by (simp add: IsEnabled_def demo_mfa_row_def)
  have k: "rExists mem_server (mfa_rd demo_mfa_world) 0 key = ROk 0" "rGet mem_server (mfa_rd demo_mfa_world) 0 key = RNil" for key
    by (simp_all add: mem_server_def mem_see_def demo_mfa_world_def)
  have m: "snd (markRecentMFA mem_server 0 u h d (clearStepUpFailures mem_server 0 u (mfa_rd demo_used_world)))" for u h d
    by (simp add: markRecentMFA_def clearStepUpFailures_def mem_defs mem_put_def demo_mfa_world_def)
  have pair: "\<exists>x. p = (x, True)" if "snd p" for p :: "'x \<times> bool" using that by (cases p) auto
  obtain s3 where
    s3: "markRecentMFA mem_server 0 ''u'' (hashOpaqueToken bytes_of ''rt'') (stepUpWindow 0)
      (clearStepUpFailures mem_server 0 ''u'' (mfa_rd demo_used_world)) = (s3, True)"
    using pair [OF m] by blast
  then show ?thesis
    by (simp add: RequireRecentMFA_def demo_stepup_def demo_sensitive_def zero_claims_def refreshTokenFromCookie_def Cookie_def
        Let_def hasRecentMFA_def Header_Get_def go_get_def stepUpAttemptsExceeded_def reply_int_def k e v demo_code)
qed

theorem stepup_required_witness:
  "\<exists>w' c rt. RequireRecentMFA demo_stepup (\<lambda>_. True) 0 demo_sensitive demo_mfa_world = (w', Next demo_sensitive) \<and>
    rq_claims demo_sensitive = Some c \<and> Cookie demo_sensitive ''refresh_token'' = Some rt \<and>
    (\<exists>x. mem_see (mfa_rd w') 0 (recentMFAKey (UserID c) (hashOpaqueToken bytes_of rt)) = Some x)"
proof -
  obtain w' where run: "RequireRecentMFA demo_stepup (\<lambda>_. True) 0 demo_sensitive demo_mfa_world = (w', Next demo_sensitive)"
    using demo_stepup_run by blast
  have "su_mfa demo_stepup = Some demo_mfa" "su_rdb demo_stepup = Some mem_server" "su_sha demo_stepup = bytes_of"
    "0 < stepUpWindow (su_window demo_stepup)" by (simp_all add: demo_stepup_def stepUpWindow_def)
  with stepup_required [OF mem.redis_laws_axioms _ _ run, of demo_mfa] run show ?thesis
    by (auto simp: Let_def)
qed

end
