(* ===== verification/MFA_Handler.thy ===== *)
theory MFA_Handler
  imports Attempt_Guard Login_Guard
begin

text \<open>
  \<open>internal/mfa/handler.go\<close>: the HTTP handlers of the second factor. A handler works on the MFA table and
  Redis, may queue an alert, and answers with an error status and code or with a value. The decoded
  request body is an argument: \<open>None\<close> when \<open>json.Decode\<close> fails.
\<close>

record ('r, 'd) mfa_handler =
  mh_svc :: "('r, 'd) mfa_service"
  mh_rdb :: "('r, 'd) redis option"
  mh_window :: duration
  mh_notif :: bool
  mh_sha :: "string \<Rightarrow> bytes"

definition mfa_alert :: "http_request \<Rightarrow> claims \<Rightarrow> string \<Rightarrow> string \<Rightarrow> alert" where
  "mfa_alert r c kind details = \<lparr>al_to = Email c, al_type = kind, al_ip = ClientIP r, al_location = ''Unknown'', al_details = details\<rparr>"

text \<open>An empty body (\<open>io.EOF\<close>) of \<open>Setup\<close> decodes as the empty code.\<close>

definition h_Setup :: "('r, 'd) mfa_handler \<Rightarrow> setup_random \<Rightarrow> (mfa_call \<Rightarrow> bool) \<Rightarrow> instant \<Rightarrow> http_request \<Rightarrow> string option \<Rightarrow>
    'r mfa_world \<Rightarrow> 'r mfa_world \<times> (string \<times> string \<times> string list) http_reply" where
  "h_Setup H rnd db now r body w =
    (case rq_claims r of
       None \<Rightarrow> (w, HErr 401 ''unauthorized'')
     | Some c \<Rightarrow>
       (case body of
          None \<Rightarrow> (w, HErr 400 ''invalid_request'')
        | Some currentCode \<Rightarrow>
          (let key = mfaSetupAttemptsKey (UserID c) in
           if mfaAttemptsExceeded (mh_rdb H) now key (mfa_rd w) then (w, HErr 429 ''too_many_attempts'')
           else case Setup (mh_svc H) rnd db now (UserID c) currentCode w of
               (w1, Inl e) \<Rightarrow>
                 if e = MfaReplayUnavailable then (w1, HErr 503 ''mfa_unavailable'')
                 else if e = MfaInvalidCode \<or> e = MfaCodeAlreadyUsed then
                   (w1\<lparr>mfa_rd := recordMFAFailure (mh_rdb H) now key (mfa_rd w1)\<rparr>, HErr 400 ''invalid_code'')
                 else if e = MfaCurrentCodeRequired then (w1, HErr 400 ''invalid_code'')
                 else (w1, HErr 500 ''internal_error'')
             | (w1, Inr v) \<Rightarrow> (w1\<lparr>mfa_rd := clearMFAFailures (mh_rdb H) now key (mfa_rd w1)\<rparr>, HOk v))))"

definition h_Verify :: "('r, 'd) mfa_handler \<Rightarrow> (mfa_call \<Rightarrow> bool) \<Rightarrow> instant \<Rightarrow> http_request \<Rightarrow> string option \<Rightarrow>
    'r mfa_world \<Rightarrow> 'r mfa_world \<times> alert list \<times> unit http_reply" where
  "h_Verify H db now r body w =
    (case rq_claims r of
       None \<Rightarrow> (w, [], HErr 401 ''unauthorized'')
     | Some c \<Rightarrow>
       (case body of
          None \<Rightarrow> (w, [], HErr 400 ''invalid_request'')
        | Some code \<Rightarrow>
          (let key = mfaVerifyAttemptsKey (UserID c) in
           if code = '''' then (w, [], HErr 400 ''invalid_request'')
           else if mfaAttemptsExceeded (mh_rdb H) now key (mfa_rd w) then (w, [], HErr 429 ''too_many_attempts'')
           else case VerifyAndEnable (mh_svc H) db now (UserID c) code w of
               (w1, Inl _) \<Rightarrow> (w1\<lparr>mfa_rd := recordMFAFailure (mh_rdb H) now key (mfa_rd w1)\<rparr>, [], HErr 400 ''invalid_code'')
             | (w1, Inr _) \<Rightarrow> (w1\<lparr>mfa_rd := clearMFAFailures (mh_rdb H) now key (mfa_rd w1)\<rparr>,
                 if mh_notif H then [mfa_alert r c ''mfa_enabled'' ''Two-factor authentication (TOTP) was enabled on your account.''] else [],
                 HOk ()))))"

definition h_Disable :: "('r, 'd) mfa_handler \<Rightarrow> (mfa_call \<Rightarrow> bool) \<Rightarrow> instant \<Rightarrow> http_request \<Rightarrow> string option \<Rightarrow>
    'r mfa_world \<Rightarrow> 'r mfa_world \<times> alert list \<times> unit http_reply" where
  "h_Disable H db now r body w =
    (case rq_claims r of
       None \<Rightarrow> (w, [], HErr 401 ''unauthorized'')
     | Some c \<Rightarrow>
       (case body of
          None \<Rightarrow> (w, [], HErr 400 ''invalid_request'')
        | Some code \<Rightarrow>
          (let key = mfaDisableAttemptsKey (UserID c) in
           if code = '''' then (w, [], HErr 400 ''invalid_request'')
           else if mfaAttemptsExceeded (mh_rdb H) now key (mfa_rd w) then (w, [], HErr 429 ''too_many_attempts'')
           else case Disable (mh_svc H) db now (UserID c) code w of
               (w1, Inl e) \<Rightarrow>
                 if e = MfaReplayUnavailable then (w1, [], HErr 503 ''mfa_unavailable'')
                 else (w1\<lparr>mfa_rd := recordMFAFailure (mh_rdb H) now key (mfa_rd w1)\<rparr>, [], HErr 400 ''invalid_code'')
             | (w1, Inr _) \<Rightarrow> (w1\<lparr>mfa_rd := clearMFAFailures (mh_rdb H) now key (mfa_rd w1)\<rparr>,
                 if mh_notif H then [mfa_alert r c ''mfa_disabled'' ''Two-factor authentication (TOTP) was disabled on your account.''] else [],
                 HOk ()))))"

definition h_Status :: "(mfa_call \<Rightarrow> bool) \<Rightarrow> http_request \<Rightarrow> 'r mfa_world \<Rightarrow> bool http_reply" where
  "h_Status db r w = (case rq_claims r of None \<Rightarrow> HErr 401 ''unauthorized''
     | Some c \<Rightarrow> HOk (IsEnabled (db CallIsEnabled) (UserID c) (mfa_tb w)))"

text \<open>\<open>StepUp\<close>. The audit extra \<open>step_up_for\<close> of the request's \<open>reason\<close> is the third component.\<close>

definition h_StepUp :: "('r, 'd) mfa_handler \<Rightarrow> (mfa_call \<Rightarrow> bool) \<Rightarrow> instant \<Rightarrow> http_request \<Rightarrow> (string \<times> string) option \<Rightarrow>
    'r mfa_world \<Rightarrow> 'r mfa_world \<times> string option \<times> unit http_reply" where
  "h_StepUp H db now r body w =
    (case rq_claims r of
       None \<Rightarrow> (w, None, HErr 401 ''unauthorized'')
     | Some c \<Rightarrow>
       (case (mh_rdb H, body) of
          (None, _) \<Rightarrow> (w, None, HErr 503 ''mfa_unavailable'')
        | (Some R, None) \<Rightarrow> (w, None, HErr 400 ''invalid_request'')
        | (Some R, Some (code, reason)) \<Rightarrow>
          (let key = mfaStepUpAttemptsKey (UserID c) in
           if code = '''' then (w, None, HErr 400 ''invalid_request'')
           else if mfaAttemptsExceeded (Some R) now key (mfa_rd w) then (w, None, HErr 429 ''too_many_attempts'')
           else case ValidateStepUp (mh_svc H) db now (UserID c) code w of
               (w1, False) \<Rightarrow> (w1\<lparr>mfa_rd := recordMFAFailure (Some R) now key (mfa_rd w1)\<rparr>, None, HErr 400 ''invalid_code'')
             | (w1, True) \<Rightarrow>
               (let s2 = clearMFAFailures (Some R) now key (mfa_rd w1); ex = (if reason \<noteq> '''' then Some reason else None) in
                case Cookie r ''refresh_token'' of
                  None \<Rightarrow> (w1\<lparr>mfa_rd := s2\<rparr>, ex, HErr 400 ''invalid_request'')
                | Some rt \<Rightarrow> if rt = '''' then (w1\<lparr>mfa_rd := s2\<rparr>, ex, HErr 400 ''invalid_request'')
                    else (case MarkRecentMFACookie (Some R) (mh_sha H) now (UserID c) rt (mh_window H) s2 of
                        (s3, True) \<Rightarrow> (w1\<lparr>mfa_rd := s3\<rparr>, ex, HOk ())
                      | (s3, False) \<Rightarrow> (w1\<lparr>mfa_rd := s3\<rparr>, ex, HErr 500 ''internal_error''))))))"

definition h_RegenerateRecoveryCodes :: "('r, 'd) mfa_handler \<Rightarrow> setup_random \<Rightarrow> (mfa_call \<Rightarrow> bool) \<Rightarrow> http_request \<Rightarrow>
    'r mfa_world \<Rightarrow> 'r mfa_world \<times> alert list \<times> string list http_reply" where
  "h_RegenerateRecoveryCodes H rnd db r w =
    (case rq_claims r of
       None \<Rightarrow> (w, [], HErr 401 ''unauthorized'')
     | Some c \<Rightarrow>
       (case RegenerateRecoveryCodes rnd db (UserID c) w of
          (w1, Inl e) \<Rightarrow> (w1, [], if e = MfaDisabled then HErr 400 ''mfa_disabled'' else HErr 500 ''internal_error'')
        | (w1, Inr codes) \<Rightarrow> (w1, if mh_notif H then [mfa_alert r c ''mfa_recovery_codes_regenerated''
              ''MFA recovery codes were regenerated on your account. Previous recovery codes are now invalid.''] else [], HOk codes)))"

section \<open>One counter for handler and middleware\<close>

text \<open>The comment of \<open>mfaStepUpAttemptsKey\<close>: the handler and the middleware share one counter.\<close>

lemma shared_counter:
  "mfaStepUpAttemptsKey u = stepUpAttemptsKey u"
  "recordMFAFailure (Some R) t (stepUpAttemptsKey u) = recordStepUpFailure R t u"
  "mfaAttemptsExceeded (Some R) t (stepUpAttemptsKey u) = stepUpAttemptsExceeded R t u"
proof -
  show "mfaStepUpAttemptsKey u = stepUpAttemptsKey u" by (simp add: mfaStepUpAttemptsKey_def stepUpAttemptsKey_def)
  have W: "mfaAttemptWindow = stepUpAttemptWindow" by (simp add: mfaAttemptWindow_def stepUpAttemptWindow_def)
  show "recordMFAFailure (Some R) t (stepUpAttemptsKey u) = recordStepUpFailure R t u"
    unfolding fun_eq_iff recordMFAFailure_def recordStepUpFailure_def W by simp
  show "mfaAttemptsExceeded (Some R) t (stepUpAttemptsKey u) = stepUpAttemptsExceeded R t u"
    by (intro ext) (simp add: mfaAttemptsExceeded_def stepUpAttemptsExceeded_def)
qed

abbreviation failed_stepups :: "('r, 'd) redis \<Rightarrow> ('r \<Rightarrow> instant \<Rightarrow> string \<Rightarrow> 'd rentry option) \<Rightarrow> ('r \<Rightarrow> bool) \<Rightarrow>
    string \<Rightarrow> instant \<Rightarrow> nat \<Rightarrow> 'r \<Rightarrow> instant \<Rightarrow> bool" where
  "failed_stepups R see up u \<equiv> attempt_guard.attempts see up (stepUpAttemptsKey u) stepUpAttemptWindow (\<lambda>t. recordStepUpFailure R t u)"


definition demo_mfa_handler :: "(unit mem_redis, unit) mfa_handler" where
  "demo_mfa_handler = \<lparr>mh_svc = demo_mfa, mh_rdb = Some mem_server, mh_window = 0, mh_notif = True, mh_sha = bytes_of\<rparr>"

primrec demo_guesses :: "nat \<Rightarrow> unit mem_redis" where
  "demo_guesses 0 = recordStepUpFailure mem_server 0 ''u'' (mfa_rd demo_mfa_world)"
| "demo_guesses (Suc n) = recordStepUpFailure mem_server 0 ''u'' (demo_guesses n)"

lemma demo_guesses_run: "failed_stepups mem_server mem_see mem_up ''u'' 0 (Suc n) (demo_guesses n) 0"
proof (induction n)
  case 0
  have "failed_stepups mem_server mem_see mem_up ''u'' 0 1 (recordStepUpFailure mem_server 0 ''u'' (mfa_rd demo_mfa_world)) 0"
    by (rule attempt_guard.attempts.first [OF mem.stepup_counter]) (simp_all add: demo_mfa_world_def mem_see_def)
  then show ?case by simp
next
  case (Suc n)
  have "mem_up (demo_guesses n)" using attempt_guard.attempts_counter [OF mem.stepup_counter Suc] by simp
  then show ?case
    unfolding demo_guesses.simps
    by (intro attempt_guard.attempts.more [OF mem.stepup_counter Suc]) (simp_all add: stepUpAttemptWindow_def)
qed


end
