(* ===== verification/Sql_Text.thy ===== *)
theory Sql_Text
  imports ZT_Prelude "HOL-Library.Char_ord" "HOL-Library.List_Lexorder"
begin

text \<open>
  Text operators of PostgreSQL and of Go's \<open>time\<close> package that several repositories use: \<open>LIKE\<close> with its
  wildcards and escape character, \<open>NULL\<close>-aware ordering, and the date layout \<open>2006-01-02\<close>.
\<close>

section \<open>LIKE\<close>

text \<open>\<open>%\<close> stands for any text, \<open>_\<close> for one character, a backslash makes the next character literal. A
  pattern that ends in a backslash never matches here; PostgreSQL rejects it.\<close>

fun like :: "string \<Rightarrow> string \<Rightarrow> bool" where
  "like [] s = (s = [])"
| "like (p # ps) [] = (p = CHR ''%'' \<and> like ps [])"
| "like (p # ps) (c # s) =
    (if p = CHR ''%'' then like ps (c # s) \<or> like (p # ps) s
     else if p = CHR ''_'' then like ps s
     else if p = CHR 0x5C then (case ps of [] \<Rightarrow> False | q # qs \<Rightarrow> q = c \<and> like qs s)
     else p = c \<and> like ps s)"

definition like_plain :: "char \<Rightarrow> bool" where
  "like_plain c \<longleftrightarrow> c \<noteq> CHR ''%'' \<and> c \<noteq> CHR ''_'' \<and> c \<noteq> CHR 0x5C"

lemma like_percent: "like (CHR ''%'' # ps) s \<longleftrightarrow> (\<exists>n \<le> length s. like ps (drop n s))"
proof (induction s)
  case (Cons c s)
  have "like (CHR ''%'' # ps) (c # s) \<longleftrightarrow> like ps (c # s) \<or> like (CHR ''%'' # ps) s" by simp
  also have "\<dots> \<longleftrightarrow> (\<exists>n \<le> length (c # s). like ps (drop n (c # s)))"
  proof
    assume "like ps (c # s) \<or> like (CHR ''%'' # ps) s"
    then show "\<exists>n \<le> length (c # s). like ps (drop n (c # s))"
    proof
      assume "like ps (c # s)"
      then show ?thesis by (intro exI [of _ 0]) simp
    next
      assume "like (CHR ''%'' # ps) s"
      with Cons obtain n where "n \<le> length s" "like ps (drop n s)" by auto
      then show ?thesis by (intro exI [of _ "Suc n"]) simp
    qed
  next
    assume "\<exists>n \<le> length (c # s). like ps (drop n (c # s))"
    then obtain n where "n \<le> length (c # s)" "like ps (drop n (c # s))" by blast
    then show "like ps (c # s) \<or> like (CHR ''%'' # ps) s" using Cons by (cases n) auto
  qed
  finally show ?case .
qed simp

lemma like_literal: "list_all like_plain q \<Longrightarrow> like (q @ ps) s \<longleftrightarrow> (\<exists>r. s = q @ r \<and> like ps r)"
proof (induction q arbitrary: s)
  case (Cons c q)
  then show ?case by (cases s) (auto simp: like_plain_def)
qed simp

text \<open>A text without wildcards is searched as a substring.\<close>

lemma like_substring:
  assumes "list_all like_plain q"
  shows "like (''%'' @ q @ ''%'') s \<longleftrightarrow> (\<exists>a b. s = a @ q @ b)"
proof -
  have any: "like ''%'' r" for r by (induction r) simp_all
  have "like (''%'' @ q @ ''%'') s \<longleftrightarrow> (\<exists>n \<le> length s. \<exists>r. drop n s = q @ r)"
    using any by (auto simp: like_percent like_literal [OF assms])
  also have "\<dots> \<longleftrightarrow> (\<exists>a b. s = a @ q @ b)"
  proof
    assume "\<exists>n \<le> length s. \<exists>r. drop n s = q @ r"
    then show "\<exists>a b. s = a @ q @ b" by (metis append_take_drop_id)
  next
    assume "\<exists>a b. s = a @ q @ b"
    then obtain a b where "s = a @ q @ b" by blast
    then show "\<exists>n \<le> length s. \<exists>r. drop n s = q @ r" by (intro exI [of _ "length a"]) auto
  qed
  finally show ?thesis .
qed

section \<open>Ordering with NULL\<close>

text \<open>Ascending order puts \<open>NULL\<close> last.\<close>

definition sort_nulls_last :: "('r \<Rightarrow> instant option) \<Rightarrow> 'r list \<Rightarrow> 'r list" where
  "sort_nulls_last f rs = sort_key (\<lambda>r. the (f r)) (filter (\<lambda>r. f r \<noteq> None) rs) @ filter (\<lambda>r. f r = None) rs"

lemma mset_sort_nulls_last [simp]: "set (sort_nulls_last f rs) = set rs" "length (sort_nulls_last f rs) = length rs"
  using sum_length_filter_compl [of "\<lambda>r. f r \<noteq> None" rs] by (auto simp: sort_nulls_last_def)

section \<open>Dates\<close>

text \<open>Days since 1970-01-01 of a date of the proleptic Gregorian calendar, as Go and PostgreSQL count them.\<close>

definition leap_year :: "int \<Rightarrow> bool" where
  "leap_year y \<longleftrightarrow> y mod 4 = 0 \<and> (y mod 100 \<noteq> 0 \<or> y mod 400 = 0)"

definition days_in :: "int \<Rightarrow> int \<Rightarrow> int" where
  "days_in m y = (if m = 2 then (if leap_year y then 29 else 28) else if m \<in> {4, 6, 9, 11} then 30 else 31)"

fun days_before_month :: "nat \<Rightarrow> int \<Rightarrow> int" where
  "days_before_month 0 y = 0"
| "days_before_month (Suc m) y = days_before_month m y + (if m = 0 then 0 else days_in (int m) y)"

definition days_before_year :: "int \<Rightarrow> int" where
  "days_before_year y = 365 * (y - 1970) + ((y - 1) div 4 - 492) - ((y - 1) div 100 - 19) + ((y - 1) div 400 - 4)"

definition date_instant :: "int \<Rightarrow> int \<Rightarrow> int \<Rightarrow> instant" where
  "date_instant y m d = (days_before_year y + days_before_month (nat m) y + (d - 1)) * (24 * go_hour)"

text \<open>\<open>time.Parse("2006-01-02", s)\<close>: four digits, two digits, two digits, and an existing day.\<close>

definition digits :: "string \<Rightarrow> int option" where
  "digits s = (if list_all is_digit s then Some (fold (\<lambda>c n. 10 * n + int (digit_val c)) s 0) else None)"

definition parse_date :: "string \<Rightarrow> (int \<times> int \<times> int) option" where
  "parse_date s =
    (if length s \<noteq> 10 \<or> s ! 4 \<noteq> CHR ''-'' \<or> s ! 7 \<noteq> CHR ''-'' then None
     else case (digits (take 4 s), digits (take 2 (drop 5 s)), digits (drop 8 s)) of
         (Some y, Some m, Some d) \<Rightarrow> if 1 \<le> m \<and> m \<le> 12 \<and> 1 \<le> d \<and> d \<le> days_in m y then Some (y, m, d) else None
       | _ \<Rightarrow> None)"

lemma date_examples:
  "date_instant 1970 1 1 = 0" "date_instant 2000 3 1 = 951868800 * go_second" "date_instant 2024 2 29 = 1709164800 * go_second"
  "date_instant 1969 12 31 = - 86400 * go_second"
  by code_simp+

lemma parse_date_valid: "parse_date s = Some (y, m, d) \<Longrightarrow> 1 \<le> m \<and> m \<le> 12 \<and> 1 \<le> d \<and> d \<le> days_in m y"
  by (auto simp: parse_date_def split: if_splits option.splits)

end
