(* ===== verification/Service_Account.thy ===== *)
theory Service_Account
  imports Auth_Service Http_Core Sql_Text
begin

text \<open>
  \<open>internal/serviceaccount\<close>: machine clients, their scopes and their secrets, with the repository on the tables
  \<open>service_accounts\<close>, \<open>service_account_scopes\<close> and \<open>permissions\<close>, the service that guards the scopes, the
  event hub, the handlers, and \<open>saStoreAdapter\<close> of \<open>main.go\<close>, which serves the accounts to the authentication
  service. \<open>ok\<close> says whether PostgreSQL executes an operation; a failed transaction is rolled back. Random
  bytes and the salted \<open>bcrypt.GenerateFromPassword\<close> are arguments.
\<close>

section \<open>State\<close>

text \<open>The columns of \<open>service_accounts\<close>; \<open>ServiceAccount\<close> adds the scopes of the second table.\<close>

record sa_row =
  acc_ID :: string
  acc_Name :: string
  acc_ClientID :: string
  acc_SecretHash :: string
  acc_IsActive :: bool
  acc_CreatedAt :: instant
  acc_ExpiresAt :: "instant option"
  acc_OldHash :: "string option"
  acc_OldExpiresAt :: "instant option"

record service_account = sa_row +
  acc_Scopes :: "string list"

record sa_db =
  sa_rows :: "sa_row list"
  sa_scopes :: "(string \<times> string) list"
  sa_perms :: "(string \<times> string) list"

datatype sa_error = SaNotFound | SaNameTaken | SaUnknownScope string | SaForbiddenScope string | SaDB | SaRandom | SaHash

definition with_scopes :: "sa_row \<Rightarrow> string list \<Rightarrow> service_account" where
  "with_scopes r scopes = sa_row.extend r (service_account.fields scopes)"

section \<open>Repository\<close>

definition generateClientID :: "bytes option \<Rightarrow> string option" where
  "generateClientID rnd = map_option (\<lambda>b. ''svc_'' @ hex_encode b) rnd"

definition generateSecret :: "bytes option \<Rightarrow> string option" where
  "generateSecret rnd = map_option hex_encode rnd"

text \<open>The loop over the scopes; a repeated scope violates the primary key.\<close>

fun insert_scopes :: "string \<Rightarrow> string list \<Rightarrow> (string \<times> string) list \<Rightarrow> (string \<times> string) list option" where
  "insert_scopes i [] ss = Some ss"
| "insert_scopes i (s # scopes) ss = (if (i, s) \<in> set ss then None else insert_scopes i scopes (ss @ [(i, s)]))"

text \<open>\<open>getScopes\<close> returns what it read together with the error: \<open>Some n\<close> is a connection that breaks after
  \<open>n\<close> rows.\<close>

definition getScopes :: "nat option \<Rightarrow> string \<Rightarrow> sa_db \<Rightarrow> string list \<times> bool" where
  "getScopes broken i db =
    (let scopes = sort (map snd (filter (\<lambda>p. fst p = i) (sa_scopes db))) in
     case broken of None \<Rightarrow> (scopes, True) | Some n \<Rightarrow> (take n scopes, False))"

record sa_random =
  rnd_client :: "bytes option"
  rnd_secret :: "bytes option"
  rnd_bcrypt :: "string \<Rightarrow> string option"
  rnd_id :: string

definition sa_Create :: "bool \<Rightarrow> sa_random \<Rightarrow> instant \<Rightarrow> string \<Rightarrow> string list \<Rightarrow> instant option \<Rightarrow> sa_db \<Rightarrow>
    sa_db \<times> (sa_error + service_account \<times> string)" where
  "sa_Create ok rnd now name scopes expiresAt db =
    (case generateClientID (rnd_client rnd) of
       None \<Rightarrow> (db, Inl SaRandom)
     | Some clientID \<Rightarrow>
       (case generateSecret (rnd_secret rnd) of
          None \<Rightarrow> (db, Inl SaRandom)
        | Some secret \<Rightarrow>
          (case rnd_bcrypt rnd secret of
             None \<Rightarrow> (db, Inl SaHash)
           | Some hash \<Rightarrow>
             if \<not> ok then (db, Inl SaDB)
             else
               (let sa = \<lparr>acc_ID = rnd_id rnd, acc_Name = name, acc_ClientID = clientID, acc_SecretHash = hash, acc_IsActive = True,
                      acc_CreatedAt = now, acc_ExpiresAt = expiresAt, acc_OldHash = None, acc_OldExpiresAt = None\<rparr> in
                if name \<in> acc_Name ` set (sa_rows db) \<or> clientID \<in> acc_ClientID ` set (sa_rows db) \<or>
                   rnd_id rnd \<in> acc_ID ` set (sa_rows db) then (db, Inl SaNameTaken)
                else case insert_scopes (acc_ID sa) scopes (sa_scopes db) of
                    None \<Rightarrow> (db, Inl SaDB)
                  | Some ss \<Rightarrow> (db\<lparr>sa_rows := sa_rows db @ [sa], sa_scopes := ss\<rparr>, Inr (with_scopes sa scopes, secret))))))"

definition FindByClientID :: "bool \<Rightarrow> nat option \<Rightarrow> string \<Rightarrow> sa_db \<Rightarrow> sa_error + service_account" where
  "FindByClientID ok broken clientID db =
    (if \<not> ok then Inl SaDB
     else case sql_first (\<lambda>r. acc_ClientID r = clientID) (sa_rows db) of
         None \<Rightarrow> Inl SaNotFound
       | Some r \<Rightarrow> Inr (with_scopes r (fst (getScopes broken (acc_ID r) db))))"

definition sa_Revoke :: "bool \<Rightarrow> string \<Rightarrow> sa_db \<Rightarrow> sa_db \<times> (sa_error + unit)" where
  "sa_Revoke ok i db =
    (if \<not> ok then (db, Inl SaDB)
     else if i \<notin> acc_ID ` set (sa_rows db) then (db, Inl SaNotFound)
     else (db\<lparr>sa_rows := filter (\<lambda>r. acc_ID r \<noteq> i) (sa_rows db), sa_scopes := filter (\<lambda>p. fst p \<noteq> i) (sa_scopes db)\<rparr>, Inr ()))"

definition sa_Update :: "bool \<Rightarrow> string \<Rightarrow> string \<Rightarrow> string list \<Rightarrow> instant option \<Rightarrow> bool \<Rightarrow> sa_db \<Rightarrow>
    sa_db \<times> (sa_error + service_account)" where
  "sa_Update ok i name scopes expiresAt active db =
    (if \<not> ok then (db, Inl SaDB)
     else case sql_first (\<lambda>r. acc_ID r = i) (sa_rows db) of
         None \<Rightarrow> (db, Inl SaNotFound)
       | Some r \<Rightarrow>
         if \<exists>q \<in> set (sa_rows db). acc_ID q \<noteq> i \<and> acc_Name q = name then (db, Inl SaNameTaken)
         else
           (let edit = (\<lambda>q. q\<lparr>acc_Name := name, acc_IsActive := active, acc_ExpiresAt := expiresAt\<rparr>) in
            case insert_scopes i scopes (filter (\<lambda>p. fst p \<noteq> i) (sa_scopes db)) of
              None \<Rightarrow> (db, Inl SaDB)
            | Some ss \<Rightarrow> (db\<lparr>sa_rows := sql_update (\<lambda>q. acc_ID q = i) edit (sa_rows db), sa_scopes := ss\<rparr>,
                Inr (with_scopes (edit r) scopes))))"

definition sa_SetActive :: "bool \<Rightarrow> string \<Rightarrow> bool \<Rightarrow> sa_db \<Rightarrow> sa_db \<times> (sa_error + unit)" where
  "sa_SetActive ok i active db =
    (if \<not> ok then (db, Inl SaDB)
     else if i \<notin> acc_ID ` set (sa_rows db) then (db, Inl SaNotFound)
     else (db\<lparr>sa_rows := sql_update (\<lambda>q. acc_ID q = i) (\<lambda>q. q\<lparr>acc_IsActive := active\<rparr>) (sa_rows db)\<rparr>, Inr ()))"

definition allPermissions :: "bool \<Rightarrow> sa_db \<Rightarrow> sa_error + string list" where
  "allPermissions ok db = (if ok then Inr (map (\<lambda>(r, a). r @ '':'' @ a) (sa_perms db)) else Inl SaDB)"

definition sa_RotateSecret :: "bool \<Rightarrow> nat option \<Rightarrow> sa_random \<Rightarrow> instant \<Rightarrow> string \<Rightarrow> sa_db \<Rightarrow>
    sa_db \<times> (sa_error + service_account \<times> string)" where
  "sa_RotateSecret ok broken rnd now i db =
    (case generateSecret (rnd_secret rnd) of
       None \<Rightarrow> (db, Inl SaRandom)
     | Some secret \<Rightarrow>
       (case rnd_bcrypt rnd secret of
          None \<Rightarrow> (db, Inl SaHash)
        | Some hash \<Rightarrow>
          if \<not> ok then (db, Inl SaDB)
          else case sql_first (\<lambda>r. acc_ID r = i) (sa_rows db) of
              None \<Rightarrow> (db, Inl SaNotFound)
            | Some r \<Rightarrow>
              (let rotate = (\<lambda>q. q\<lparr>acc_OldHash := Some (acc_SecretHash r), acc_OldExpiresAt := Some (now + go_hour),
                     acc_SecretHash := hash\<rparr>) in
               case getScopes broken i db of
                 (_, False) \<Rightarrow> (db, Inl SaDB)
               | (scopes, True) \<Rightarrow> (db\<lparr>sa_rows := sql_update (\<lambda>q. acc_ID q = i) rotate (sa_rows db)\<rparr>,
                   Inr (with_scopes (rotate r) scopes, secret)))))"

section \<open>Listing\<close>

record sa_list_params =
  slp_Limit :: int
  slp_Offset :: int
  slp_SortBy :: string
  slp_SortDir :: string
  slp_Name :: string
  slp_Status :: string

definition sa_where :: "instant \<Rightarrow> sa_list_params \<Rightarrow> sa_row \<Rightarrow> bool" where
  "sa_where now p r \<longleftrightarrow>
    (slp_Name p \<noteq> '''' \<longrightarrow> like (''%'' @ ToLower (slp_Name p) @ ''%'') (ToLower (acc_Name r))) \<and>
    (slp_Status p = ''active'' \<longrightarrow> acc_IsActive r \<and> (case acc_ExpiresAt r of None \<Rightarrow> True | Some x \<Rightarrow> now \<le> x)) \<and>
    (slp_Status p = ''inactive'' \<longrightarrow> \<not> acc_IsActive r) \<and>
    (slp_Status p = ''expired'' \<longrightarrow> (case acc_ExpiresAt r of None \<Rightarrow> False | Some x \<Rightarrow> x < now))"

definition sa_order :: "sa_list_params \<Rightarrow> sa_row list \<Rightarrow> sa_row list" where
  "sa_order p rs =
    (let asc = (if slp_SortBy p = ''name'' then sort_key acc_Name rs
           else if slp_SortBy p = ''is_active'' then sort_key acc_IsActive rs
           else if slp_SortBy p = ''expires_at'' then sort_nulls_last acc_ExpiresAt rs
           else sort_key acc_CreatedAt rs)
     in if EqualFold (slp_SortDir p) ''desc'' then rev asc else asc)"

text \<open>The scopes come aggregated into one text and are split again; the listing leaves the hashes out.\<close>

definition listed :: "sa_db \<Rightarrow> sa_row \<Rightarrow> service_account" where
  "listed db r =
    (let scopesStr = Join '','' (sort (map snd (filter (\<lambda>p. fst p = acc_ID r) (sa_scopes db)))) in
     with_scopes (r\<lparr>acc_SecretHash := '''', acc_OldHash := None, acc_OldExpiresAt := None\<rparr>)
       (if scopesStr \<noteq> '''' then Split CHR '','' scopesStr else []))"

definition sa_List :: "bool \<Rightarrow> instant \<Rightarrow> sa_list_params \<Rightarrow> sa_db \<Rightarrow> sa_error + service_account list \<times> nat" where
  "sa_List ok now p db =
    (let limit = (if slp_Limit p \<le> 0 \<or> slp_Limit p > 200 then 25 else slp_Limit p);
         hits = filter (sa_where now p) (sa_rows db)
     in if \<not> ok \<or> slp_Offset p < 0 then Inl SaDB
        else Inr (map (listed db) (take (nat limit) (drop (nat (slp_Offset p)) (sa_order p hits))), length hits))"

section \<open>Service\<close>

text \<open>\<open>strings.SplitN(scope, ":", 2)\<close>.\<close>

definition SplitN2 :: "string \<Rightarrow> (string \<times> string) option" where
  "SplitN2 scope = (if CHR '':'' \<in> set scope
     then Some (takeWhile (\<lambda>c. c \<noteq> CHR '':'') scope, tl (dropWhile (\<lambda>c. c \<noteq> CHR '':'') scope)) else None)"

fun check_scopes :: "string list \<Rightarrow> claims option \<Rightarrow> string list \<Rightarrow> sa_error option" where
  "check_scopes known caller [] = None"
| "check_scopes known caller (scope # scopes) =
    (if scope \<notin> set known then Some (SaUnknownScope scope)
     else case (caller, SplitN2 scope) of
         (Some c, Some (resource, action)) \<Rightarrow>
           if \<not> HasPermission c resource action then Some (SaForbiddenScope scope) else check_scopes known caller scopes
       | _ \<Rightarrow> Some (SaForbiddenScope scope))"

definition validateScopes :: "bool \<Rightarrow> claims option \<Rightarrow> string list \<Rightarrow> sa_db \<Rightarrow> sa_error option" where
  "validateScopes ok caller scopes db =
    (if scopes = [] then None
     else case allPermissions ok db of Inl e \<Rightarrow> Some e | Inr known \<Rightarrow> check_scopes known caller scopes)"

definition svc_Create :: "bool \<Rightarrow> bool \<Rightarrow> sa_random \<Rightarrow> instant \<Rightarrow> string \<Rightarrow> claims option \<Rightarrow> string list \<Rightarrow> instant option \<Rightarrow>
    sa_db \<Rightarrow> sa_db \<times> (sa_error + service_account \<times> string)" where
  "svc_Create okP ok rnd now name caller scopes expiresAt db =
    (case validateScopes okP caller scopes db of
       Some e \<Rightarrow> (db, Inl e) | None \<Rightarrow> sa_Create ok rnd now name scopes expiresAt db)"

definition svc_Update :: "bool \<Rightarrow> bool \<Rightarrow> string \<Rightarrow> string \<Rightarrow> claims option \<Rightarrow> string list \<Rightarrow> instant option \<Rightarrow> bool \<Rightarrow>
    sa_db \<Rightarrow> sa_db \<times> (sa_error + service_account)" where
  "svc_Update okP ok i name caller scopes expiresAt active db =
    (case validateScopes okP caller scopes db of
       Some e \<Rightarrow> (db, Inl e) | None \<Rightarrow> sa_Update ok i name scopes expiresAt active db)"

text \<open>\<open>saStoreAdapter\<close>: what the authentication service sees of the accounts. The identifier fields of the
  record stay zero.\<close>

definition saStoreAdapter :: "bool \<Rightarrow> nat option \<Rightarrow> (string \<Rightarrow> string \<Rightarrow> bool) \<Rightarrow> sa_db \<Rightarrow> sa_store" where
  "saStoreAdapter ok broken bcmp db =
    \<lparr>sa_FindByClientID = (\<lambda>clientID. case FindByClientID ok broken clientID db of
       Inl _ \<Rightarrow> None
     | Inr sa \<Rightarrow> Some \<lparr>sa_ID = '''', sa_ClientID = '''', sa_Name = acc_Name sa, sa_SecretHash = acc_SecretHash sa,
         sa_OldSecretHash = acc_OldHash sa, sa_OldExpiresAt = acc_OldExpiresAt sa, sa_IsActive = acc_IsActive sa,
         sa_Scopes = acc_Scopes sa, sa_ExpiresAt = acc_ExpiresAt sa\<rparr>),
     sa_CheckSecret = bcmp\<rparr>"

section \<open>Event hub\<close>

text \<open>\<open>hub.go\<close>: the subscribers and whether the one-element buffer of each holds a signal.\<close>

type_synonym sa_hub = "(nat \<times> bool) list"

definition sa_Subscribe :: "nat \<Rightarrow> sa_hub \<Rightarrow> sa_hub" where
  "sa_Subscribe ch h = h @ [(ch, False)]"

definition sa_Unsubscribe :: "nat \<Rightarrow> sa_hub \<Rightarrow> sa_hub" where
  "sa_Unsubscribe ch h = filter (\<lambda>c. fst c \<noteq> ch) h"

definition sa_Broadcast :: "sa_hub \<Rightarrow> sa_hub" where
  "sa_Broadcast h = map (\<lambda>c. (fst c, True)) h"

section \<open>Handlers\<close>

definition queryInt :: "string \<Rightarrow> int \<Rightarrow> int" where
  "queryInt s def = (case Atoi s of (n, None) \<Rightarrow> if n \<ge> 0 then n else def | _ \<Rightarrow> def)"

text \<open>The last second of the chosen day, in UTC.\<close>

definition parse_expiry :: "string option \<Rightarrow> instant option option" where
  "parse_expiry s = (case s of None \<Rightarrow> Some None
     | Some d \<Rightarrow> if d = '''' then Some None
         else map_option (\<lambda>(y, m, d). Some (date_instant y m d + 86399 * go_second)) (parse_date d))"

definition create_error :: "sa_error \<Rightarrow> 'a http_reply" where
  "create_error e = (case e of SaNameTaken \<Rightarrow> HErr 409 ''name_taken'' | SaUnknownScope _ \<Rightarrow> HErr 422 ''unknown_scope''
     | SaForbiddenScope _ \<Rightarrow> HErr 403 ''forbidden_scope'' | _ \<Rightarrow> HErr 500 ''internal_error'')"

definition update_error :: "sa_error \<Rightarrow> 'a http_reply" where
  "update_error e = (if e = SaNotFound then HErr 404 ''not_found'' else create_error e)"

definition found_error :: "sa_error \<Rightarrow> 'a http_reply" where
  "found_error e = (if e = SaNotFound then HErr 404 ''not_found'' else HErr 500 ''internal_error'')"

definition h_sa_List :: "bool \<Rightarrow> instant \<Rightarrow> (string \<Rightarrow> string) \<Rightarrow> sa_db \<Rightarrow> (service_account list \<times> nat) http_reply" where
  "h_sa_List ok now q db =
    (case sa_List ok now \<lparr>slp_Limit = queryInt (q ''limit'') 25, slp_Offset = queryInt (q ''offset'') 0, slp_SortBy = q ''sort_by'',
        slp_SortDir = q ''sort_dir'', slp_Name = q ''name'', slp_Status = q ''status''\<rparr> db of
       Inl _ \<Rightarrow> HErr 500 ''internal_error'' | Inr r \<Rightarrow> HOk r)"

definition h_sa_Create :: "bool \<Rightarrow> bool \<Rightarrow> sa_random \<Rightarrow> instant \<Rightarrow> http_request \<Rightarrow> (string \<times> string list \<times> string option) option \<Rightarrow>
    sa_db \<Rightarrow> sa_db \<times> (service_account \<times> string) http_reply" where
  "h_sa_Create okP ok rnd now r body db =
    (case body of
       None \<Rightarrow> (db, HErr 400 ''invalid_request'')
     | Some (name, scopes, expires) \<Rightarrow>
       if name = '''' then (db, HErr 400 ''invalid_request'')
       else case parse_expiry expires of
           None \<Rightarrow> (db, HErr 400 ''invalid_expires_at'')
         | Some x \<Rightarrow>
           (case svc_Create okP ok rnd now name (rq_claims r) scopes x db of
              (db', Inl e) \<Rightarrow> (db', create_error e) | (db', Inr v) \<Rightarrow> (db', HOk v)))"

definition h_sa_Update :: "bool \<Rightarrow> bool \<Rightarrow> http_request \<Rightarrow> string \<Rightarrow> (string \<times> string list \<times> string option \<times> bool) option \<Rightarrow>
    sa_db \<times> sa_hub \<Rightarrow> (sa_db \<times> sa_hub) \<times> service_account http_reply" where
  "h_sa_Update okP ok r i body w =
    (case w of (db, h) \<Rightarrow>
     case body of
       None \<Rightarrow> (w, HErr 400 ''invalid_request'')
     | Some (name, scopes, expires, active) \<Rightarrow>
       if name = '''' then (w, HErr 400 ''invalid_request'')
       else case parse_expiry expires of
           None \<Rightarrow> (w, HErr 400 ''invalid_expires_at'')
         | Some x \<Rightarrow>
           (case svc_Update okP ok i name (rq_claims r) scopes x active db of
              (db', Inl e) \<Rightarrow> ((db', h), update_error e) | (db', Inr v) \<Rightarrow> ((db', sa_Broadcast h), HOk v)))"

definition h_sa_Revoke :: "bool \<Rightarrow> string \<Rightarrow> sa_db \<Rightarrow> sa_db \<times> unit http_reply" where
  "h_sa_Revoke ok i db = (case sa_Revoke ok i db of (db', Inl e) \<Rightarrow> (db', found_error e) | (db', Inr v) \<Rightarrow> (db', HOk v))"

definition h_sa_SetStatus :: "bool \<Rightarrow> string \<Rightarrow> bool option \<Rightarrow> sa_db \<Rightarrow> sa_db \<times> unit http_reply" where
  "h_sa_SetStatus ok i body db = (case body of None \<Rightarrow> (db, HErr 400 ''invalid_request'')
     | Some active \<Rightarrow> (case sa_SetActive ok i active db of (db', Inl e) \<Rightarrow> (db', found_error e) | (db', Inr v) \<Rightarrow> (db', HOk v)))"

definition h_sa_RotateSecret :: "bool \<Rightarrow> nat option \<Rightarrow> sa_random \<Rightarrow> instant \<Rightarrow> string \<Rightarrow> sa_db \<times> sa_hub \<Rightarrow>
    (sa_db \<times> sa_hub) \<times> (service_account \<times> string) http_reply" where
  "h_sa_RotateSecret ok broken rnd now i w = (case w of (db, h) \<Rightarrow>
     case sa_RotateSecret ok broken rnd now i db of
       (db', Inl e) \<Rightarrow> ((db', h), found_error e) | (db', Inr v) \<Rightarrow> ((db', sa_Broadcast h), HOk v))"

text \<open>One turn of the loop of \<open>Events\<close>: what the stream writes and whether it goes on, for each channel the
  \<open>select\<close> may take. The stream ends at the token's expiry at the latest.\<close>

datatype sa_wakeup = StreamDone | StreamTick | StreamSignal

definition events_turn :: "('r, 'd, 'm) guard_cfg_scheme \<Rightarrow> instant \<Rightarrow> claims \<Rightarrow> sa_wakeup \<Rightarrow> 'r \<Rightarrow> string option \<times> bool" where
  "events_turn C now c k s = (case k of
     StreamDone \<Rightarrow> (None, False)
   | StreamTick \<Rightarrow> if IsRevoked C now (JTI c) s then (Some ''revoked'', False) else (None, True)
   | StreamSignal \<Rightarrow> (Some ''change'', True))"

section \<open>Well-formed tables\<close>

definition wf_sa :: "sa_db \<Rightarrow> bool" where
  "wf_sa db \<longleftrightarrow> distinct (map acc_ID (sa_rows db)) \<and> distinct (map acc_ClientID (sa_rows db)) \<and>
    distinct (map acc_Name (sa_rows db)) \<and> distinct (sa_scopes db) \<and> fst ` set (sa_scopes db) \<subseteq> acc_ID ` set (sa_rows db)"

definition granted :: "claims \<Rightarrow> string set" where
  "granted c = set (if SubType c = SubTypeService then Scopes c else Permissions c)"

lemma HasPermission_granted: "HasPermission c r a \<longleftrightarrow> r @ '':'' @ a \<in> granted c"
  by (simp add: HasPermission_def granted_def)

lemma SplitN2_join: "SplitN2 scope = Some (r, a) \<Longrightarrow> r @ '':'' @ a = scope"
proof -
  assume "SplitN2 scope = Some (r, a)"
  then have "CHR '':'' \<in> set scope" and r: "r = takeWhile (\<lambda>c. c \<noteq> CHR '':'') scope" "a = tl (dropWhile (\<lambda>c. c \<noteq> CHR '':'') scope)"
    by (auto simp: SplitN2_def split: if_splits)
  then have "dropWhile (\<lambda>c. c \<noteq> CHR '':'') scope \<noteq> []" by (simp add: dropWhile_eq_Nil_conv)
  moreover from this have "hd (dropWhile (\<lambda>c. c \<noteq> CHR '':'') scope) = CHR '':''" using hd_dropWhile by blast
  ultimately have "dropWhile (\<lambda>c. c \<noteq> CHR '':'') scope = CHR '':'' # a" unfolding r(2) by (metis list.collapse)
  then show ?thesis unfolding r(1) by (metis append_Cons append_Nil takeWhile_dropWhile_id)
qed

lemma check_scopes_None:
  assumes "check_scopes known caller scopes = None" "s \<in> set scopes"
  shows "s \<in> set known \<and> (\<exists>c. caller = Some c \<and> s \<in> granted c)"
  using assms
proof (induction scopes)
  case (Cons x scopes)
  from Cons.prems(1) obtain c r a where x: "x \<in> set known" "caller = Some c" "SplitN2 x = Some (r, a)" "HasPermission c r a"
    and rest: "check_scopes known caller scopes = None"
    by (auto split: if_splits option.splits)
  from SplitN2_join [OF x(3)] x(4) have "x \<in> granted c" by (simp add: HasPermission_granted)
  with Cons x rest show ?case by auto
qed simp

lemma validateScopes_None:
  assumes "validateScopes ok caller scopes db = None" "s \<in> set scopes"
  shows "s \<in> set (map (\<lambda>(r, a). r @ '':'' @ a) (sa_perms db)) \<and> (\<exists>c. caller = Some c \<and> s \<in> granted c)"
proof -
  from assms have "check_scopes (map (\<lambda>(r, a). r @ '':'' @ a) (sa_perms db)) caller scopes = None"
    by (cases ok) (auto simp: validateScopes_def allPermissions_def split: if_splits)
  from check_scopes_None [OF this assms(2)] show ?thesis .
qed

lemma insert_scopes_distinct: "insert_scopes i scopes ss = Some ss' \<Longrightarrow> distinct ss \<Longrightarrow> distinct ss'"
  by (induction i scopes ss rule: insert_scopes.induct) (simp_all split: if_splits)

lemma insert_scopes_Some:
  "insert_scopes i scopes ss = Some ss' \<Longrightarrow> ss' = ss @ map (Pair i) scopes \<and> (distinct ss \<longrightarrow> distinct ss')"
proof -
  assume a: "insert_scopes i scopes ss = Some ss'"
  then have "ss' = ss @ map (Pair i) scopes"
    by (induction i scopes ss rule: insert_scopes.induct) (simp_all split: if_splits)
  with a insert_scopes_distinct show ?thesis by blast
qed

lemma sa_Create_Inr:
  assumes "sa_Create ok rnd now name scopes x db = (db', Inr (sa, secret))"
  obtains b b' hash where "rnd_client rnd = Some b" "rnd_secret rnd = Some b'" "secret = hex_encode b'" "rnd_bcrypt rnd secret = Some hash"
    "sa = with_scopes \<lparr>acc_ID = rnd_id rnd, acc_Name = name, acc_ClientID = ''svc_'' @ hex_encode b, acc_SecretHash = hash, acc_IsActive = True,
       acc_CreatedAt = now, acc_ExpiresAt = x, acc_OldHash = None, acc_OldExpiresAt = None\<rparr> scopes"
    "db' = db\<lparr>sa_rows := sa_rows db @ [sa_row.truncate sa], sa_scopes := sa_scopes db @ map (Pair (rnd_id rnd)) scopes\<rparr>"
    "name \<notin> acc_Name ` set (sa_rows db)" "acc_ClientID sa \<notin> acc_ClientID ` set (sa_rows db)" "rnd_id rnd \<notin> acc_ID ` set (sa_rows db)"
    "distinct (sa_scopes db) \<longrightarrow> distinct (sa_scopes db')"
  using assms that
  by (auto simp: sa_Create_def generateClientID_def generateSecret_def Let_def with_scopes_def sa_row.defs service_account.defs
      dest: insert_scopes_Some split: option.splits if_splits)

lemma sa_Create_db: "sa_Create ok rnd now name scopes x db = (db', Inl e) \<Longrightarrow> db' = db"
  by (auto simp: sa_Create_def Let_def split: option.splits if_splits)

lemma sa_Create_wf:
  assumes "wf_sa db" "sa_Create ok rnd now name scopes x db = (db', r)"
  shows "wf_sa db' \<and> sa_perms db' = sa_perms db \<and>
    (\<forall>i s. (i, s) \<in> set (sa_scopes db') \<longrightarrow> (i, s) \<in> set (sa_scopes db) \<or> s \<in> set scopes)"
proof (cases r)
  case (Inl e)
  with assms sa_Create_db show ?thesis by blast
next
  case (Inr v)
  then obtain sa secret where "sa_Create ok rnd now name scopes x db = (db', Inr (sa, secret))" using assms(2) by (cases v) simp
  from sa_Create_Inr [OF this] obtain b b' hash where "rnd_client rnd = Some b" "rnd_secret rnd = Some b'" "secret = hex_encode b'"
    "rnd_bcrypt rnd secret = Some hash"
    "sa = with_scopes \<lparr>acc_ID = rnd_id rnd, acc_Name = name, acc_ClientID = ''svc_'' @ hex_encode b, acc_SecretHash = hash, acc_IsActive = True,
       acc_CreatedAt = now, acc_ExpiresAt = x, acc_OldHash = None, acc_OldExpiresAt = None\<rparr> scopes"
    "db' = db\<lparr>sa_rows := sa_rows db @ [sa_row.truncate sa], sa_scopes := sa_scopes db @ map (Pair (rnd_id rnd)) scopes\<rparr>"
    "name \<notin> acc_Name ` set (sa_rows db)" "acc_ClientID sa \<notin> acc_ClientID ` set (sa_rows db)" "rnd_id rnd \<notin> acc_ID ` set (sa_rows db)"
    "distinct (sa_scopes db) \<longrightarrow> distinct (sa_scopes db')" by blast
  then show ?thesis
    using assms(1) by (auto simp: wf_sa_def with_scopes_def sa_row.defs service_account.defs)
qed

lemma distinct_rename:
  assumes "distinct (map acc_ID rs)" "distinct (map acc_Name rs)" "\<forall>q \<in> set rs. acc_ID q \<noteq> i \<longrightarrow> acc_Name q \<noteq> name" "\<And>q. acc_Name (f q) = name"
  shows "distinct (map acc_Name (sql_update (\<lambda>q. acc_ID q = i) f rs))"
  using assms
proof (induction rs)
  case (Cons q rs)
  have keep: "sql_update (\<lambda>q. acc_ID q = i) f rs = rs" if "i \<notin> acc_ID ` set rs"
    unfolding sql_update_def by (rule map_idI) (use that in auto)
  show ?case
  proof (cases "acc_ID q = i")
    case True
    then have "i \<notin> acc_ID ` set rs" using Cons.prems(1) by auto
    moreover from this have "name \<notin> acc_Name ` set rs" using Cons.prems(3) by fastforce
    ultimately show ?thesis using Cons.prems(2,4) True keep by (simp add: sql_update_def)
  next
    case False
    have "acc_Name q \<notin> set (map acc_Name (sql_update (\<lambda>q. acc_ID q = i) f rs))"
      using Cons.prems False by (auto simp: sql_update_def split: if_splits)
    with Cons False show ?thesis by (simp add: sql_update_def)
  qed
qed (simp add: sql_update_def)

lemma sa_Update_Inr:
  assumes "sa_Update ok i name scopes x active db = (db', Inr sa)"
  obtains q where "sql_first (\<lambda>r. acc_ID r = i) (sa_rows db) = Some q"
    "\<forall>q \<in> set (sa_rows db). acc_ID q \<noteq> i \<longrightarrow> acc_Name q \<noteq> name"
    "insert_scopes i scopes (filter (\<lambda>p. fst p \<noteq> i) (sa_scopes db)) = Some (sa_scopes db')"
    "db' = db\<lparr>sa_rows := sql_update (\<lambda>q. acc_ID q = i) (\<lambda>q. q\<lparr>acc_Name := name, acc_IsActive := active, acc_ExpiresAt := x\<rparr>) (sa_rows db),
       sa_scopes := sa_scopes db'\<rparr>"
    "sa = with_scopes (q\<lparr>acc_Name := name, acc_IsActive := active, acc_ExpiresAt := x\<rparr>) scopes"
proof (cases "sql_first (\<lambda>r. acc_ID r = i) (sa_rows db)")
  case None
  with assms show ?thesis by (cases ok) (simp_all add: sa_Update_def)
next
  case (Some q)
  have free: "\<not> (\<exists>q \<in> set (sa_rows db). acc_ID q \<noteq> i \<and> acc_Name q = name)" and ok: ok
    using assms Some by (cases ok; simp add: sa_Update_def split: if_split_asm)+
  show ?thesis
  proof (cases "insert_scopes i scopes (filter (\<lambda>p. fst p \<noteq> i) (sa_scopes db))")
    case None
    with assms Some free ok show ?thesis by (simp add: sa_Update_def)
  next
    case (Some ss)
    have "db' = db\<lparr>sa_rows := sql_update (\<lambda>q. acc_ID q = i) (\<lambda>q. q\<lparr>acc_Name := name, acc_IsActive := active, acc_ExpiresAt := x\<rparr>) (sa_rows db),
       sa_scopes := ss\<rparr>" "sa = with_scopes (q\<lparr>acc_Name := name, acc_IsActive := active, acc_ExpiresAt := x\<rparr>) scopes"
      using assms \<open>sql_first _ _ = Some q\<close> free ok Some by (simp_all add: sa_Update_def)
    with that [of q] \<open>sql_first _ _ = Some q\<close> free Some show ?thesis by auto
  qed
qed

lemma sa_Update_Inl: "sa_Update ok i name scopes x active db = (db', Inl e) \<Longrightarrow> db' = db"
  by (simp add: sa_Update_def Let_def split: option.split_asm if_split_asm)

lemma sa_Update_wf:
  assumes "wf_sa db" "sa_Update ok i name scopes x active db = (db', r)"
  shows "wf_sa db' \<and> sa_perms db' = sa_perms db \<and>
    (\<forall>j s. (j, s) \<in> set (sa_scopes db') \<longrightarrow> (j, s) \<in> set (sa_scopes db) \<or> (j = i \<and> s \<in> set scopes))"
proof (cases r)
  case (Inl e)
  with assms sa_Update_Inl show ?thesis by blast
next
  case (Inr sa)
  let ?f = "\<lambda>q. q\<lparr>acc_Name := name, acc_IsActive := active, acc_ExpiresAt := x\<rparr>"
  from assms(2) Inr have run: "sa_Update ok i name scopes x active db = (db', Inr sa)" by simp
  define ss where "ss = sa_scopes db'"
  from sa_Update_Inr [OF run] obtain q where q: "sql_first (\<lambda>r. acc_ID r = i) (sa_rows db) = Some q"
    and free: "\<forall>q \<in> set (sa_rows db). acc_ID q \<noteq> i \<longrightarrow> acc_Name q \<noteq> name"
    and ss: "insert_scopes i scopes (filter (\<lambda>p. fst p \<noteq> i) (sa_scopes db)) = Some ss"
    and db': "db' = db\<lparr>sa_rows := sql_update (\<lambda>q. acc_ID q = i) ?f (sa_rows db), sa_scopes := ss\<rparr>"
    unfolding ss_def by blast
  have ss': "ss = filter (\<lambda>p. fst p \<noteq> i) (sa_scopes db) @ map (Pair i) scopes" "distinct ss"
    using insert_scopes_Some [OF ss] assms(1) by (auto simp: wf_sa_def)
  have i: "i \<in> acc_ID ` set (sa_rows db)" using sql_first_Some [OF q] by auto
  have ids: "map acc_ID (sa_rows db') = map acc_ID (sa_rows db)" "map acc_ClientID (sa_rows db') = map acc_ClientID (sa_rows db)"
    unfolding db' by (simp_all add: map_sql_update)
  have "distinct (map acc_Name (sa_rows db'))"
    unfolding db' using distinct_rename [OF _ _ free, of ?f] assms(1) by (simp add: wf_sa_def)
  moreover have "acc_ID ` set (sa_rows db') = acc_ID ` set (sa_rows db)" using ids(1) by (metis set_map)
  ultimately show ?thesis using assms(1) ids ss' i by (auto simp: wf_sa_def db')
qed

lemma sa_edit_wf:
  assumes "wf_sa db" "\<And>q. acc_ID (f q) = acc_ID q" "\<And>q. acc_ClientID (f q) = acc_ClientID q" "\<And>q. acc_Name (f q) = acc_Name q"
  shows "wf_sa (db\<lparr>sa_rows := sql_update P f (sa_rows db)\<rparr>)"
proof -
  have "map acc_ID (sql_update P f (sa_rows db)) = map acc_ID (sa_rows db)" using assms(2) by (simp add: map_sql_update)
  then have "acc_ID ` set (sql_update P f (sa_rows db)) = acc_ID ` set (sa_rows db)" by (metis set_map)
  with assms show ?thesis by (simp add: wf_sa_def map_sql_update)
qed

lemma sa_SetActive_wf: "wf_sa db \<Longrightarrow> sa_SetActive ok i active db = (db', r) \<Longrightarrow> wf_sa db' \<and> sa_scopes db' = sa_scopes db \<and> sa_perms db' = sa_perms db"
  by (auto simp: sa_SetActive_def intro: sa_edit_wf split: if_splits)

lemma sa_Rotate_wf:
  "wf_sa db \<Longrightarrow> sa_RotateSecret ok broken rnd now i db = (db', r) \<Longrightarrow> wf_sa db' \<and> sa_scopes db' = sa_scopes db \<and> sa_perms db' = sa_perms db"
proof -
  assume wf: "wf_sa db" and run: "sa_RotateSecret ok broken rnd now i db = (db', r)"
  have "db' = db \<or> (\<exists>h x s. db' = db\<lparr>sa_rows := sql_update (\<lambda>q. acc_ID q = i)
      (\<lambda>q. q\<lparr>acc_OldHash := h, acc_OldExpiresAt := x, acc_SecretHash := s\<rparr>) (sa_rows db)\<rparr>)"
    using run by (simp add: sa_RotateSecret_def Let_def split: option.split_asm if_split_asm prod.split_asm bool.split_asm) blast
  then show ?thesis
  proof
    assume "\<exists>h x s. db' = db\<lparr>sa_rows := sql_update (\<lambda>q. acc_ID q = i)
      (\<lambda>q. q\<lparr>acc_OldHash := h, acc_OldExpiresAt := x, acc_SecretHash := s\<rparr>) (sa_rows db)\<rparr>"
    then obtain h x s where db': "db' = db\<lparr>sa_rows := sql_update (\<lambda>q. acc_ID q = i)
      (\<lambda>q. q\<lparr>acc_OldHash := h, acc_OldExpiresAt := x, acc_SecretHash := s\<rparr>) (sa_rows db)\<rparr>" by blast
    have "wf_sa db'" unfolding db' by (rule sa_edit_wf [OF wf]) simp_all
    then show ?thesis by (simp add: db')
  qed (use wf in simp)
qed

lemma sa_Revoke_wf:
  "wf_sa db \<Longrightarrow> sa_Revoke ok i db = (db', r) \<Longrightarrow>
    wf_sa db' \<and> set (sa_scopes db') \<subseteq> set (sa_scopes db) \<and> sa_perms db' = sa_perms db"
proof -
  assume wf: "wf_sa db" and run: "sa_Revoke ok i db = (db', r)"
  have "fst ` set (filter (\<lambda>p. fst p \<noteq> i) (sa_scopes db)) \<subseteq> acc_ID ` set (filter (\<lambda>r. acc_ID r \<noteq> i) (sa_rows db))"
  proof
    fix j assume "j \<in> fst ` set (filter (\<lambda>p. fst p \<noteq> i) (sa_scopes db))"
    then have "j \<in> fst ` set (sa_scopes db)" "j \<noteq> i" by auto
    moreover have "fst ` set (sa_scopes db) \<subseteq> acc_ID ` set (sa_rows db)" using wf by (simp add: wf_sa_def)
    ultimately show "j \<in> acc_ID ` set (filter (\<lambda>r. acc_ID r \<noteq> i) (sa_rows db))" by auto
  qed
  with wf have "wf_sa (db\<lparr>sa_rows := filter (\<lambda>r. acc_ID r \<noteq> i) (sa_rows db), sa_scopes := filter (\<lambda>p. fst p \<noteq> i) (sa_scopes db)\<rparr>)"
    by (simp add: wf_sa_def distinct_map_filter)
  with wf run show ?thesis by (auto simp: sa_Revoke_def split: if_splits)
qed

section \<open>Histories\<close>

text \<open>Any sequence of requests of the callers \<open>cs\<close> to the service.\<close>

inductive sa_run :: "sa_db \<Rightarrow> claims option set \<Rightarrow> sa_db \<Rightarrow> bool" where
  start: "sa_run db cs db"
| create: "sa_run db0 cs db \<Longrightarrow> c \<in> cs \<Longrightarrow> sa_run db0 cs (fst (svc_Create okP ok rnd now name c scopes x db))"
| update: "sa_run db0 cs db \<Longrightarrow> c \<in> cs \<Longrightarrow> sa_run db0 cs (fst (svc_Update okP ok i name c scopes x active db))"
| revoke: "sa_run db0 cs db \<Longrightarrow> sa_run db0 cs (fst (sa_Revoke ok i db))"
| set_active: "sa_run db0 cs db \<Longrightarrow> sa_run db0 cs (fst (sa_SetActive ok i active db))"
| rotate: "sa_run db0 cs db \<Longrightarrow> sa_run db0 cs (fst (sa_RotateSecret ok broken rnd now i db))"

abbreviation scopes_held :: "sa_db \<Rightarrow> claims option set \<Rightarrow> sa_db \<Rightarrow> bool" where
  "scopes_held db0 cs db \<equiv> \<forall>i s. (i, s) \<in> set (sa_scopes db) \<longrightarrow> (i, s) \<in> set (sa_scopes db0) \<or>
    (s \<in> set (map (\<lambda>(r, a). r @ '':'' @ a) (sa_perms db0)) \<and> (\<exists>c. Some c \<in> cs \<and> s \<in> granted c))"

lemma sa_run_invariant:
  "sa_run db0 cs db \<Longrightarrow> wf_sa db0 \<Longrightarrow> wf_sa db \<and> sa_perms db = sa_perms db0 \<and> scopes_held db0 cs db"
proof (induction rule: sa_run.induct)
  case (create db0 cs db c okP ok rnd now name scopes x)
  then have I: "wf_sa db" "sa_perms db = sa_perms db0" "scopes_held db0 cs db" by auto
  show ?case
  proof (cases "validateScopes okP c scopes db")
    case None
    obtain db' r where run: "sa_Create ok rnd now name scopes x db = (db', r)" by fastforce
    from sa_Create_wf [OF I(1) run] have w: "wf_sa db'" "sa_perms db' = sa_perms db"
      "\<forall>i s. (i, s) \<in> set (sa_scopes db') \<longrightarrow> (i, s) \<in> set (sa_scopes db) \<or> s \<in> set scopes" by auto
    have "fst (svc_Create okP ok rnd now name c scopes x db) = db'" by (simp add: svc_Create_def None run)
    moreover have "scopes_held db0 cs db'"
      using w(3) I(2,3) validateScopes_None [OF None] create.hyps(2) by metis
    ultimately show ?thesis using w(1,2) I(2) by simp
  qed (use I in \<open>simp add: svc_Create_def\<close>)
next
  case (update db0 cs db c okP ok i name scopes x active)
  then have I: "wf_sa db" "sa_perms db = sa_perms db0" "scopes_held db0 cs db" by auto
  show ?case
  proof (cases "validateScopes okP c scopes db")
    case None
    obtain db' r where run: "sa_Update ok i name scopes x active db = (db', r)" by fastforce
    from sa_Update_wf [OF I(1) run] have w: "wf_sa db'" "sa_perms db' = sa_perms db"
      "\<forall>j s. (j, s) \<in> set (sa_scopes db') \<longrightarrow> (j, s) \<in> set (sa_scopes db) \<or> (j = i \<and> s \<in> set scopes)" by auto
    have "fst (svc_Update okP ok i name c scopes x active db) = db'" by (simp add: svc_Update_def None run)
    moreover have "scopes_held db0 cs db'"
      using w(3) I(2,3) validateScopes_None [OF None] update.hyps(2) by metis
    ultimately show ?thesis using w(1,2) I(2) by simp
  qed (use I in \<open>simp add: svc_Update_def\<close>)
next
  case (revoke db0 cs db ok i)
  obtain db' r where run: "sa_Revoke ok i db = (db', r)" by fastforce
  from revoke have I: "wf_sa db" "sa_perms db = sa_perms db0" "scopes_held db0 cs db" by auto
  from sa_Revoke_wf [OF I(1) run] I(2,3) run show ?case by (simp, blast)
next
  case (set_active db0 cs db ok i active)
  obtain db' r where run: "sa_SetActive ok i active db = (db', r)" by fastforce
  from set_active have "wf_sa db" by simp
  from sa_SetActive_wf [OF this run] set_active run show ?case by simp
next
  case (rotate db0 cs db ok broken rnd now i)
  obtain db' r where run: "sa_RotateSecret ok broken rnd now i db = (db', r)" by fastforce
  from rotate have "wf_sa db" by simp
  from sa_Rotate_wf [OF this run] rotate run show ?case by simp
qed auto

section \<open>Accounts as the authentication service sees them\<close>

lemma FindByClientID_iff:
  "FindByClientID True broken cid db = Inr sa \<longleftrightarrow>
    (\<exists>r. sql_first (\<lambda>r. acc_ClientID r = cid) (sa_rows db) = Some r \<and> sa = with_scopes r (fst (getScopes broken (acc_ID r) db)))"
  by (auto simp: FindByClientID_def split: option.splits)

lemma getScopes_set: "set (fst (getScopes broken i db)) \<subseteq> {s. (i, s) \<in> set (sa_scopes db)}"
proof -
  have "set (sort (map snd (filter (\<lambda>p. fst p = i) (sa_scopes db)))) \<subseteq> {s. (i, s) \<in> set (sa_scopes db)}" by auto
  moreover have "set (fst (getScopes broken i db)) \<subseteq> set (sort (map snd (filter (\<lambda>p. fst p = i) (sa_scopes db))))"
    unfolding getScopes_def Let_def by (cases broken) (simp_all only: option.case fst_conv set_take_subset subset_refl)
  ultimately show ?thesis by blast
qed

lemma find_client:
  assumes "wf_sa db" "r \<in> set (sa_rows db)"
  shows "sql_first (\<lambda>q. acc_ClientID q = acc_ClientID r) (sa_rows db) = Some r"
proof -
  have "q = r" if "q \<in> set (sa_rows db)" "acc_ClientID q = acc_ClientID r" for q
    using assms that by (metis (mono_tags, lifting) distinct_map inj_onD wf_sa_def)
  with assms(2) show ?thesis unfolding sql_first_def by (intro find_ex1) auto
qed

definition sa_view :: "sa_row \<Rightarrow> string list \<Rightarrow> sa_record" where
  "sa_view r scopes = \<lparr>sa_ID = '''', sa_ClientID = '''', sa_Name = acc_Name r, sa_SecretHash = acc_SecretHash r,
     sa_OldSecretHash = acc_OldHash r, sa_OldExpiresAt = acc_OldExpiresAt r, sa_IsActive = acc_IsActive r,
     sa_Scopes = scopes, sa_ExpiresAt = acc_ExpiresAt r\<rparr>"

lemma sa_view_simps [simp]:
  "sa_Name (sa_view r ss) = acc_Name r" "sa_SecretHash (sa_view r ss) = acc_SecretHash r" "sa_OldSecretHash (sa_view r ss) = acc_OldHash r"
  "sa_OldExpiresAt (sa_view r ss) = acc_OldExpiresAt r" "sa_IsActive (sa_view r ss) = acc_IsActive r" "sa_Scopes (sa_view r ss) = ss"
  "sa_ExpiresAt (sa_view r ss) = acc_ExpiresAt r"
  by (simp_all add: sa_view_def)

lemma adapter_find:
  "sa_FindByClientID (saStoreAdapter ok broken bcmp db) cid = (if ok
     then map_option (\<lambda>r. sa_view r (fst (getScopes broken (acc_ID r) db))) (sql_first (\<lambda>r. acc_ClientID r = cid) (sa_rows db)) else None)"
  by (auto simp: saStoreAdapter_def FindByClientID_def sa_view_def with_scopes_def sa_row.defs service_account.defs split: option.splits)

lemma adapter_check [simp]: "sa_CheckSecret (saStoreAdapter ok broken bcmp db) = bcmp"
  by (simp add: saStoreAdapter_def)

section \<open>Properties\<close>


definition demo_sa_db :: sa_db where
  "demo_sa_db = \<lparr>sa_rows = [], sa_scopes = [], sa_perms = [(''users'', ''read'')]\<rparr>"

definition demo_sa_random :: sa_random where
  "demo_sa_random = \<lparr>rnd_client = Some [1], rnd_secret = Some [2], rnd_bcrypt = (\<lambda>p. Some p), rnd_id = ''1''\<rparr>"

definition demo_caller :: claims where
  "demo_caller = zero_claims\<lparr>SubType := SubTypeUser, Permissions := [''users:read'']\<rparr>"

definition demo_account :: sa_row where
  "demo_account = \<lparr>acc_ID = ''1'', acc_Name = ''job'', acc_ClientID = ''svc_01'', acc_SecretHash = ''02'', acc_IsActive = True,
     acc_CreatedAt = 0, acc_ExpiresAt = None, acc_OldHash = None, acc_OldExpiresAt = None\<rparr>"

definition demo_sa_db1 :: sa_db where
  "demo_sa_db1 = \<lparr>sa_rows = [demo_account], sa_scopes = [(''1'', ''users:read'')], sa_perms = [(''users'', ''read'')]\<rparr>"

lemma demo_hex: "hex_encode [1] = ''01''" "hex_encode [2] = ''02''" "hex_encode [3] = ''03''"
  by code_simp+

lemma demo_sa_created:
  "fst (svc_Create True True demo_sa_random 0 ''job'' (Some demo_caller) [''users:read''] None demo_sa_db) = demo_sa_db1"
proof -
  have "SplitN2 ''users:read'' = Some (''users'', ''read'')" by code_simp
  moreover have "HasPermission demo_caller ''users'' ''read''"
    by (simp add: HasPermission_def demo_caller_def token_consts)
  ultimately have "validateScopes True (Some demo_caller) [''users:read''] demo_sa_db = None"
    by (simp add: validateScopes_def allPermissions_def demo_sa_db_def)
  then show ?thesis
    by (simp add: svc_Create_def sa_Create_def demo_sa_random_def generateClientID_def generateSecret_def demo_hex demo_sa_db_def
        demo_sa_db1_def demo_account_def Let_def)
qed

lemma demo_sa_wf: "wf_sa demo_sa_db" "wf_sa demo_sa_db1"
  by (simp_all add: wf_sa_def demo_sa_db_def demo_sa_db1_def demo_account_def)

lemma demo_sa_token:
  "\<exists>tok ttl. ClientCredentials demo_auth (saStoreAdapter True None (\<lambda>h p. h = p) demo_sa_db1) demo_env ''svc_01'' ''02'' '''' = Inr (tok, ttl)"
  by (simp add: ClientCredentials_def adapter_find demo_sa_db1_def demo_account_def sql_first_def GenerateServiceToken_def Sign_def
      demo_keys_def addKey_def NewKeyStore_def sym_jwt_def)


text \<open>rotation of a machine secret. With a hash function that accepts what it hashed, from a rotation at \<open>t\<close> on
  the new secret opens the (active, unexpired) account; a secret that opened it before does so for exactly one more
  hour; and no other secret does, so at most two secrets are ever accepted. Every other account is as before.\<close>

lemma secret_rotation_window:
  assumes "\<forall>p h. rnd_bcrypt rnd p = Some h \<longrightarrow> bcmp h p" "wf_sa db" "r \<in> set (sa_rows db)"
    and "sa_RotateSecret True broken rnd t (acc_ID r) db = (db', Inr (sa, secret))"
    and "acc_IsActive r" "\<forall>x. acc_ExpiresAt r = Some x \<longrightarrow> e_now e \<le> x"
  shows "\<exists>h. rnd_bcrypt rnd secret = Some h \<and> bcmp h secret \<and>
    (\<forall>s. ClientCredentials A (saStoreAdapter True None bcmp db') e (acc_ClientID r) s jkt \<noteq> Inl ErrInvalidCredentials \<longleftrightarrow>
      bcmp h s \<or> (e_now e < t + go_hour \<and> bcmp (acc_SecretHash r) s)) \<and>
    (\<forall>q \<in> set (sa_rows db). acc_ID q \<noteq> acc_ID r \<longrightarrow> q \<in> set (sa_rows db'))"
proof -
  have uniq: "q = r" if "q \<in> set (sa_rows db)" "acc_ID q = acc_ID r" for q
    using assms(2,3) that by (metis (mono_tags, lifting) distinct_map inj_onD wf_sa_def)
  have first: "sql_first (\<lambda>q. acc_ID q = acc_ID r) (sa_rows db) = Some r"
    unfolding sql_first_def using assms(3) uniq by (intro find_ex1) auto
  from assms(4) obtain h where h: "rnd_bcrypt rnd secret = Some h"
    and db': "db' = db\<lparr>sa_rows := sql_update (\<lambda>q. acc_ID q = acc_ID r)
      (\<lambda>q. q\<lparr>acc_OldHash := Some (acc_SecretHash r), acc_OldExpiresAt := Some (t + go_hour), acc_SecretHash := h\<rparr>) (sa_rows db)\<rparr>"
    by (auto simp: sa_RotateSecret_def generateSecret_def first Let_def split: option.split_asm prod.split_asm bool.split_asm)
  let ?r = "r\<lparr>acc_OldHash := Some (acc_SecretHash r), acc_OldExpiresAt := Some (t + go_hour), acc_SecretHash := h\<rparr>"
  have "wf_sa db'" using sa_Rotate_wf [OF assms(2,4)] by blast
  moreover have "?r \<in> set (sa_rows db')" using assms(3) by (force simp: db' sql_update_set)
  ultimately have "sql_first (\<lambda>q. acc_ClientID q = acc_ClientID r) (sa_rows db') = Some ?r" using find_client [of db' ?r] by simp
  then have find: "sa_FindByClientID (saStoreAdapter True None bcmp db') (acc_ClientID r) =
      Some (sa_view ?r (fst (getScopes None (acc_ID r) db')))" by (simp add: adapter_find)
  have "ClientCredentials A (saStoreAdapter True None bcmp db') e (acc_ClientID r) s jkt \<noteq> Inl ErrInvalidCredentials \<longleftrightarrow>
      bcmp h s \<or> (e_now e < t + go_hour \<and> bcmp (acc_SecretHash r) s)" for s
    using assms(5,6) by (auto simp: ClientCredentials_def find Let_def split: option.splits sum.splits)
  moreover have "\<forall>q \<in> set (sa_rows db). acc_ID q \<noteq> acc_ID r \<longrightarrow> q \<in> set (sa_rows db')" by (auto simp: db' sql_update_set)
  ultimately show ?thesis using h assms(1) by blast
qed

text \<open>changes to a machine client take effect on its running tokens at once. When an administrator deactivates or
  deletes the account, or gives it other scopes, \<open>EvaluateAccess\<close> refuses every token issued for it before, although
  the token is unexpired and correctly signed.\<close>

lemma service_account_change_is_immediate:
  assumes "wf_sa db" "r \<in> set (sa_rows db)" "SubType c = SubTypeService" "ClientID c = acc_ClientID r"
    and "a_sa A = Some (saStoreAdapter ok None bcmp db')"
    and change: "sa_SetActive True (acc_ID r) False db = (db', v) \<or> sa_Revoke True (acc_ID r) db = (db', v) \<or>
      (\<exists>name scopes x active sa. sa_Update True (acc_ID r) name scopes x active db = (db', Inr sa) \<and> mset scopes \<noteq> mset (Scopes c))"
  shows "EvaluateAccess A e c ip info w \<noteq> None"
proof -
  have uniq: "q = r" if "q \<in> set (sa_rows db)" "acc_ClientID q = acc_ClientID r" for q
    using assms(1,2) that by (metis (mono_tags, lifting) distinct_map inj_onD wf_sa_def)
  have "sa_FindByClientID (saStoreAdapter ok None bcmp db') (ClientID c) = None \<or>
      (\<exists>sa. sa_FindByClientID (saStoreAdapter ok None bcmp db') (ClientID c) = Some sa \<and>
        (\<not> sa_IsActive sa \<or> mset (sa_Scopes sa) \<noteq> mset (Scopes c)))"
    using change
  proof (elim disjE exE conjE)
    assume set: "sa_SetActive True (acc_ID r) False db = (db', v)"
    with assms(2) have rows: "sa_rows db' = sql_update (\<lambda>q. acc_ID q = acc_ID r) (\<lambda>q. q\<lparr>acc_IsActive := False\<rparr>) (sa_rows db)"
      by (auto simp: sa_SetActive_def split: if_splits)
    have "wf_sa db'" using sa_SetActive_wf [OF assms(1) set] by blast
    moreover have "r\<lparr>acc_IsActive := False\<rparr> \<in> set (sa_rows db')" using assms(2) by (force simp: rows sql_update_set)
    ultimately show ?thesis using find_client [of db' "r\<lparr>acc_IsActive := False\<rparr>"] assms(4) by (simp add: adapter_find)
  next
    assume "sa_Revoke True (acc_ID r) db = (db', v)"
    with assms(2) have "sa_rows db' = filter (\<lambda>q. acc_ID q \<noteq> acc_ID r) (sa_rows db)" by (auto simp: sa_Revoke_def split: if_splits)
    then have "sql_first (\<lambda>q. acc_ClientID q = ClientID c) (sa_rows db') = None"
      using uniq assms(4) by (auto simp: sql_first_None)
    then show ?thesis by (simp add: adapter_find)
  next
    fix name scopes x active sa
    assume up: "sa_Update True (acc_ID r) name scopes x active db = (db', Inr sa)" and m: "mset scopes \<noteq> mset (Scopes c)"
    let ?f = "\<lambda>q. q\<lparr>acc_Name := name, acc_IsActive := active, acc_ExpiresAt := x\<rparr>"
    from sa_Update_Inr [OF up] obtain q where ss: "insert_scopes (acc_ID r) scopes (filter (\<lambda>p. fst p \<noteq> acc_ID r) (sa_scopes db)) = Some (sa_scopes db')"
      and db': "db' = db\<lparr>sa_rows := sql_update (\<lambda>q. acc_ID q = acc_ID r) ?f (sa_rows db), sa_scopes := sa_scopes db'\<rparr>" by blast
    have "wf_sa db'" using sa_Update_wf [OF assms(1) up] by blast
    moreover have "?f r \<in> set (sa_rows db')" using assms(2) by (subst db') (force simp: sql_update_set)
    ultimately have find: "sql_first (\<lambda>q. acc_ClientID q = ClientID c) (sa_rows db') = Some (?f r)"
      using find_client [of db' "?f r"] assms(4) by simp
    have "mset (fst (getScopes None (acc_ID r) db')) = mset scopes"
      using insert_scopes_Some [OF ss] by (simp add: getScopes_def comp_def)
    with find m show ?thesis by (simp add: adapter_find)
  qed
  then show ?thesis using assms(3,5)
    by (auto simp: EvaluateAccess_def stringSlicesEqual_mset token_consts split: option.splits)
qed

end
