(* ===== verification/Settings.thy ===== *)
theory Settings
  imports Auth_Service Http_Core
begin

text \<open>
  \<open>internal/settings\<close>: the table \<open>system_settings\<close>, the cache in front of it that the security checks read, and
  the administration handler with its validators. The cache is shared by all requests: a read looks under the
  read lock, queries the table without any lock and stores what it got under the write lock, so other reads and
  updates may come in between. The section on concurrency treats exactly those interleavings.
\<close>

section \<open>Repository\<close>

type_synonym settings_table = "string \<Rightarrow> string option"

datatype settings_error = SettingNotFound | SettingsDB

definition settings_Get :: "bool \<Rightarrow> string \<Rightarrow> settings_table \<Rightarrow> settings_error + string" where
  "settings_Get ok key tbl = (if \<not> ok then Inl SettingsDB else case tbl key of None \<Rightarrow> Inl SettingNotFound | Some v \<Rightarrow> Inr v)"

definition settings_Set :: "bool \<Rightarrow> string \<Rightarrow> string \<Rightarrow> settings_table \<Rightarrow> settings_table \<times> bool" where
  "settings_Set ok key value tbl = (if ok then (tbl(key \<mapsto> value), True) else (tbl, False))"

definition settings_All :: "bool \<Rightarrow> settings_table \<Rightarrow> settings_error + settings_table" where
  "settings_All ok tbl = (if ok then Inr tbl else Inl SettingsDB)"

section \<open>Cache\<close>

definition cacheTTL :: duration where "cacheTTL = go_minute"

type_synonym settings_cache = "string \<Rightarrow> (string \<times> instant) option"

definition cache_hit :: "instant \<Rightarrow> string \<Rightarrow> settings_cache \<Rightarrow> string option" where
  "cache_hit now key vals = (case vals key of None \<Rightarrow> None | Some (v, x) \<Rightarrow> if now < x then Some v else None)"

definition cache_store :: "instant \<Rightarrow> string \<Rightarrow> string \<Rightarrow> settings_cache \<Rightarrow> settings_cache" where
  "cache_store now key v vals = vals(key \<mapsto> (v, now + cacheTTL))"

text \<open>The common part of the three getters, undisturbed: \<open>now\<close> and \<open>now'\<close> are the two readings of the clock.\<close>

definition cache_value :: "bool \<Rightarrow> instant \<Rightarrow> instant \<Rightarrow> string \<Rightarrow> settings_table \<Rightarrow> settings_cache \<Rightarrow> settings_cache \<times> string option" where
  "cache_value ok now now' key tbl vals =
    (case cache_hit now key vals of
       Some v \<Rightarrow> (vals, Some v)
     | None \<Rightarrow> (case settings_Get ok key tbl of Inl _ \<Rightarrow> (vals, None) | Inr v \<Rightarrow> (cache_store now' key v vals, Some v)))"

definition as_int :: "int \<Rightarrow> string option \<Rightarrow> int" where
  "as_int d v = (case v of None \<Rightarrow> d | Some s \<Rightarrow> (case Atoi s of (n, None) \<Rightarrow> n | _ \<Rightarrow> d))"

definition as_bool :: "bool \<Rightarrow> string option \<Rightarrow> bool" where
  "as_bool d v = (case v of None \<Rightarrow> d | Some s \<Rightarrow> (case ParseBool s of None \<Rightarrow> d | Some b \<Rightarrow> b))"

definition cache_GetInt :: "bool \<Rightarrow> instant \<Rightarrow> instant \<Rightarrow> string \<Rightarrow> int \<Rightarrow> settings_table \<Rightarrow> settings_cache \<Rightarrow> settings_cache \<times> int" where
  "cache_GetInt ok now now' key d tbl vals = map_prod id (as_int d) (cache_value ok now now' key tbl vals)"

definition cache_GetString :: "bool \<Rightarrow> instant \<Rightarrow> instant \<Rightarrow> string \<Rightarrow> string \<Rightarrow> settings_table \<Rightarrow> settings_cache \<Rightarrow> settings_cache \<times> string" where
  "cache_GetString ok now now' key d tbl vals = map_prod id (\<lambda>v. case v of None \<Rightarrow> d | Some s \<Rightarrow> s) (cache_value ok now now' key tbl vals)"

definition cache_GetBool :: "bool \<Rightarrow> instant \<Rightarrow> instant \<Rightarrow> string \<Rightarrow> bool \<Rightarrow> settings_table \<Rightarrow> settings_cache \<Rightarrow> settings_cache \<times> bool" where
  "cache_GetBool ok now now' key d tbl vals = map_prod id (as_bool d) (cache_value ok now now' key tbl vals)"

definition Invalidate :: "string \<Rightarrow> settings_cache \<Rightarrow> settings_cache" where
  "Invalidate key vals = vals(key := None)"

section \<open>Validators\<close>

definition int_between :: "int \<Rightarrow> int \<Rightarrow> string \<Rightarrow> bool" where
  "int_between lo hi v = (case Atoi v of (n, None) \<Rightarrow> lo \<le> n \<and> n \<le> hi | _ \<Rightarrow> False)"

definition true_or_false :: "string \<Rightarrow> bool" where
  "true_or_false v = (v = ''true'' \<or> v = ''false'')"

definition is_letter :: "char \<Rightarrow> bool" where
  "is_letter c = (let n = of_char c :: nat in (65 \<le> n \<and> n \<le> 90) \<or> (97 \<le> n \<and> n \<le> 122))"

text \<open>The validators of the two lists cut a value as the access policy will cut it.\<close>

definition valid_countries :: "string \<Rightarrow> bool" where
  "valid_countries v = (v = '''' \<or> list_all (\<lambda>e. length e = 2 \<and> list_all is_letter e) (splitEntries v))"

definition valid_ips :: "string \<Rightarrow> bool" where
  "valid_ips v = (v = '''' \<or> list_all (\<lambda>e. if CHR ''/'' \<in> set e then ParseCIDR e \<noteq> None else ParseIP e \<noteq> None) (splitEntries v))"

definition isVersionString :: "string \<Rightarrow> bool" where
  "isVersionString v = (v = '''' \<or> list_all (\<lambda>p. p \<noteq> '''' \<and> list_all is_digit p) (Split CHR ''.'' v))"

definition valid_url :: "string \<Rightarrow> bool" where
  "valid_url v = (v = '''' \<or> HasPrefix v ''http://'' \<or> HasPrefix v ''https://'')"

definition int_settings :: "(string \<times> int \<times> int) list" where
  "int_settings = [
    (''max_sessions_per_user'', 1, 20), (''session_idle_timeout_seconds'', 60, 3600), (''session_idle_timeout_seconds_admin'', 60, 1800),
    (''session_absolute_timeout_seconds'', 1800, 172800), (''max_login_attempts'', 1, 20), (''risk_threshold_mfa'', 1, 100),
    (''risk_threshold_block'', 1, 100), (''risk_score_impossible_travel'', 0, 100), (''risk_score_new_device'', 0, 100),
    (''risk_score_suspicious_hours'', 0, 100), (''risk_score_failed_attempt'', 0, 50), (''risk_failed_attempt_max_score'', 0, 100),
    (''risk_suspicious_hour_start'', 0, 23), (''risk_suspicious_hour_end'', 0, 23), (''risk_impossible_travel_velocity_kmh'', 100, 2000),
    (''risk_impossible_travel_window_hours'', 1, 168), (''risk_impossible_travel_min_distance_km'', 1, 500)]"

definition other_settings :: "(string \<times> (string \<Rightarrow> bool)) list" where
  "other_settings = [
    (''password_complexity'', \<lambda>v. v = ''low'' \<or> v = ''medium'' \<or> v = ''strong''), (''global_mfa_required'', true_or_false),
    (''require_hardware_attestation'', true_or_false), (''webhook_enabled'', true_or_false), (''webhook_url'', valid_url),
    (''webhook_allow_insecure'', true_or_false), (''country_allowlist'', valid_countries), (''ip_allowlist'', valid_ips),
    (''device_trust_enabled'', true_or_false), (''device_trust_allowed_os'', \<lambda>_. True),
    (''device_trust_min_os_version_mac'', isVersionString), (''device_trust_min_os_version_win'', isVersionString),
    (''device_trust_allowed_browsers'', \<lambda>_. True), (''device_trust_min_browser_version_chrome'', isVersionString),
    (''device_trust_min_browser_version_safari'', isVersionString), (''device_trust_min_browser_version_firefox'', isVersionString),
    (''device_trust_min_browser_version_edge'', isVersionString), (''device_trust_block_mobile'', true_or_false),
    (''risk_based_auth_enabled'', true_or_false)]"

definition allowedKeys :: "string \<Rightarrow> (string \<Rightarrow> bool) option" where
  "allowedKeys key = map_of (map (\<lambda>(k, lo, hi). (k, int_between lo hi)) int_settings @ other_settings) key"

section \<open>Handler\<close>

text \<open>The body of a request in the order the loops visit it: Go iterates over a map in any order. \<open>ok\<close> tells
  which writes succeed.\<close>

fun check_settings :: "(string \<times> string) list \<Rightarrow> (int \<times> string) option" where
  "check_settings [] = None"
| "check_settings ((k, v) # req) = (case allowedKeys k of
     None \<Rightarrow> Some (400, ''unknown_setting'')
   | Some valid \<Rightarrow> if valid v then check_settings req else Some (400, ''invalid_value''))"

fun write_settings :: "(string \<Rightarrow> bool) \<Rightarrow> (string \<times> string) list \<Rightarrow> settings_table \<times> settings_cache \<Rightarrow>
    (settings_table \<times> settings_cache) \<times> unit http_reply" where
  "write_settings ok [] s = (s, HOk ())"
| "write_settings ok ((k, v) # req) (tbl, vals) = (case settings_Set (ok k) k v tbl of
     (tbl', False) \<Rightarrow> ((tbl', vals), HErr 500 ''internal_error'')
   | (tbl', True) \<Rightarrow> write_settings ok req (tbl', Invalidate k vals))"

definition settings_Update :: "(string \<Rightarrow> bool) \<Rightarrow> (string \<times> string) list option \<Rightarrow> settings_table \<times> settings_cache \<Rightarrow>
    (settings_table \<times> settings_cache) \<times> unit http_reply" where
  "settings_Update ok body s = (case body of
     None \<Rightarrow> (s, HErr 400 ''invalid_request'')
   | Some req \<Rightarrow> (case check_settings req of Some (st, code) \<Rightarrow> (s, HErr st code) | None \<Rightarrow> write_settings ok req s))"

definition settings_List :: "bool \<Rightarrow> settings_table \<Rightarrow> settings_table http_reply" where
  "settings_List ok tbl = (case settings_All ok tbl of Inl _ \<Rightarrow> HErr 500 ''internal_error'' | Inr m \<Rightarrow> HOk m)"

section \<open>Concurrency\<close>

text \<open>
  The table, the cache and the reads that have queried the table but not yet stored their answer, with the
  moment of the query. \<open>W\<close> collects which value a key had in the table at which moment. A write is one of a
  validated request; \<open>L\<close> bounds the time between a query and its store. An update of another server changes the
  table and leaves this cache alone.
\<close>

record settings_sys =
  sy_tbl :: settings_table
  sy_vals :: settings_cache
  sy_flight :: "(string \<times> string \<times> instant) list"

definition valid_setting :: "string \<Rightarrow> string \<Rightarrow> bool" where
  "valid_setting k v = (case allowedKeys k of None \<Rightarrow> True | Some valid \<Rightarrow> valid v)"

inductive settings_run :: "duration \<Rightarrow> settings_table \<Rightarrow> instant \<Rightarrow> settings_sys \<Rightarrow> instant \<Rightarrow> (string \<times> string \<times> instant) set \<Rightarrow> bool"
  for L tbl0 t0 where
  start: "settings_run L tbl0 t0 \<lparr>sy_tbl = tbl0, sy_vals = Map.empty, sy_flight = []\<rparr> t0 {(k, v, t0) | k v. tbl0 k = Some v}"
| wait: "settings_run L tbl0 t0 s t W \<Longrightarrow> t \<le> t' \<Longrightarrow>
    settings_run L tbl0 t0 s t' (W \<union> {(k, v, u) | k v u. sy_tbl s k = Some v \<and> t \<le> u \<and> u \<le> t'})"
| change: "settings_run L tbl0 t0 s t W \<Longrightarrow> check_settings [(k, v)] = None \<Longrightarrow>
    settings_run L tbl0 t0 (s\<lparr>sy_tbl := fst (settings_Set True k v (sy_tbl s))\<rparr>) t (insert (k, v, t) W)"
| invalidate: "settings_run L tbl0 t0 s t W \<Longrightarrow> settings_run L tbl0 t0 (s\<lparr>sy_vals := Invalidate k (sy_vals s)\<rparr>) t W"
| fetch: "settings_run L tbl0 t0 s t W \<Longrightarrow> settings_Get True k (sy_tbl s) = Inr v \<Longrightarrow>
    settings_run L tbl0 t0 (s\<lparr>sy_flight := (k, v, t) # sy_flight s\<rparr>) t W"
| store: "settings_run L tbl0 t0 s t W \<Longrightarrow> (k, v, u) \<in> set (sy_flight s) \<Longrightarrow> t \<le> u + L \<Longrightarrow>
    settings_run L tbl0 t0 (s\<lparr>sy_vals := cache_store t k v (sy_vals s), sy_flight := remove1 (k, v, u) (sy_flight s)\<rparr>) t W"

text \<open>The writes of a successful request are steps of the system.\<close>

lemma check_settings_Cons: "check_settings (p # req) = None \<longleftrightarrow> check_settings [p] = None \<and> check_settings req = None"
  by (cases p) (auto split: option.splits)

lemma write_settings_run:
  assumes "settings_run L tbl0 t0 s t W" "check_settings req = None" "write_settings ok req (sy_tbl s, sy_vals s) = ((tbl', vals'), r)"
  shows "\<exists>W'. settings_run L tbl0 t0 (s\<lparr>sy_tbl := tbl', sy_vals := vals'\<rparr>) t W'"
  using assms
proof (induction req arbitrary: s W)
  case Nil
  then have "s\<lparr>sy_tbl := tbl', sy_vals := vals'\<rparr> = s" by simp
  with Nil show ?case by metis
next
  case (Cons p req)
  obtain k v where p: "p = (k, v)" by fastforce
  show ?case
  proof (cases "ok k")
    case False
    with Cons.prems(3) p have "s\<lparr>sy_tbl := tbl', sy_vals := vals'\<rparr> = s" by (simp add: settings_Set_def)
    with Cons.prems(1) show ?thesis by metis
  next
    case True
    let ?s1 = "s\<lparr>sy_tbl := fst (settings_Set True k v (sy_tbl s))\<rparr>"
    let ?s2 = "?s1\<lparr>sy_vals := Invalidate k (sy_vals ?s1)\<rparr>"
    have "settings_run L tbl0 t0 ?s2 t (insert (k, v, t) W)"
      using Cons.prems(1,2) p check_settings_Cons by (intro settings_run.invalidate settings_run.change) blast+
    moreover have "check_settings req = None" using Cons.prems(2) check_settings_Cons by blast
    moreover have "write_settings ok req (sy_tbl ?s2, sy_vals ?s2) = ((tbl', vals'), r)"
      using Cons.prems(3) True by (simp add: p settings_Set_def)
    ultimately have "\<exists>W'. settings_run L tbl0 t0 (?s2\<lparr>sy_tbl := tbl', sy_vals := vals'\<rparr>) t W'" by (rule Cons.IH)
    then show ?thesis by simp
  qed
qed

abbreviation settings_inv :: "duration \<Rightarrow> settings_sys \<Rightarrow> instant \<Rightarrow> (string \<times> string \<times> instant) set \<Rightarrow> bool" where
  "settings_inv L s t W \<equiv> (\<forall>k v. sy_tbl s k = Some v \<longrightarrow> (k, v, t) \<in> W) \<and> (\<forall>k v u. (k, v, u) \<in> set (sy_flight s) \<longrightarrow> (k, v, u) \<in> W \<and> u \<le> t) \<and>
    (\<forall>k v x. sy_vals s k = Some (v, x) \<longrightarrow> (\<exists>u. (k, v, u) \<in> W \<and> x - cacheTTL - L \<le> u \<and> u \<le> x - cacheTTL)) \<and>
    (\<forall>k v x. sy_vals s k = Some (v, x) \<longrightarrow> x - cacheTTL \<le> t)"

lemma settings_run_inv: "settings_run L tbl0 t0 s t W \<Longrightarrow> settings_inv L s t W"
proof (induction rule: settings_run.induct)
  case (wait s t W t')
  then have "\<forall>k v u. (k, v, u) \<in> set (sy_flight s) \<longrightarrow> u \<le> t'" "\<forall>k v x. sy_vals s k = Some (v, x) \<longrightarrow> x - cacheTTL \<le> t'"
    by (meson order_trans)+
  with wait show ?case by fastforce
next
  case (change s t W k v)
  have more: "\<exists>u. (k', v', u) \<in> insert (k, v, t) W \<and> x - cacheTTL - L \<le> u \<and> u \<le> x - cacheTTL"
    if "sy_vals s k' = Some (v', x)" for k' v' x using change.IH that by blast
  show ?case using change.IH more by (simp add: settings_Set_def)
next
  case (invalidate s t W k)
  then show ?case by (auto simp: Invalidate_def)
next
  case (fetch s t W k v)
  then show ?case by (auto simp: settings_Get_def split: option.splits)
next
  case (store s t W k v u)
  have "(k, v, u) \<in> W" "u \<le> t" using store by blast+
  moreover have "t + cacheTTL - cacheTTL - L \<le> u" using store.hyps(3) by simp
  ultimately have new: "\<exists>u. (k, v, u) \<in> W \<and> t + cacheTTL - cacheTTL - L \<le> u \<and> u \<le> t + cacheTTL - cacheTTL" by auto
  have old: "set (remove1 (k, v, u) (sy_flight s)) \<subseteq> set (sy_flight s)" by (rule set_remove1_subset)
  show ?case using store.IH new old by (auto simp: cache_store_def)
qed auto

lemma settings_run_valid:
  "settings_run L tbl0 t0 s t W \<Longrightarrow> \<forall>k v. tbl0 k = Some v \<longrightarrow> valid_setting k v \<Longrightarrow> (k, v, u) \<in> W \<Longrightarrow> valid_setting k v"
proof (induction arbitrary: k v u rule: settings_run.induct)
  case (wait s t W t')
  from wait.prems(2) show ?case
  proof
    assume "(k, v, u) \<in> {(k, v, u) | k v u. sy_tbl s k = Some v \<and> t \<le> u \<and> u \<le> t'}"
    then have "(k, v, t) \<in> W" using settings_run_inv [OF wait.hyps(1)] by blast
    with wait.IH [OF wait.prems(1)] show ?case by blast
  qed (use wait in blast)
next
  case (change s t W k' v')
  from change.hyps(2) have "valid_setting k' v'" by (auto simp: valid_setting_def split: option.splits if_splits)
  with change.IH [OF change.prems(1)] change.prems(2) show ?case by blast
qed auto

section \<open>What readers see\<close>

lemma cache_value_fresh:
  assumes "settings_run L tbl0 t0 s t W" "0 \<le> L" "snd (cache_value ok t t' key (sy_tbl s) (sy_vals s)) = Some v"
  shows "\<exists>u. (key, v, u) \<in> W \<and> t - cacheTTL - L < u \<and> u \<le> t"
proof (cases "cache_hit t key (sy_vals s)")
  case None
  with assms(3) have "sy_tbl s key = Some v" by (auto simp: cache_value_def settings_Get_def split: option.splits if_splits)
  then have "(key, v, t) \<in> W" using settings_run_inv [OF assms(1)] by blast
  with assms(2) show ?thesis by (intro exI [of _ t]) (simp add: cacheTTL_def)
next
  case (Some v')
  with assms(3) obtain x where x: "sy_vals s key = Some (v, x)" "t < x"
    by (auto simp: cache_value_def cache_hit_def split: option.splits if_splits)
  then obtain u where "(key, v, u) \<in> W" "x - cacheTTL - L \<le> u" "u \<le> x - cacheTTL" "x - cacheTTL \<le> t"
    using settings_run_inv [OF assms(1)] by blast
  with x(2) show ?thesis by (intro exI [of _ u]) simp
qed

text \<open>The reader that the authentication service gets, at one moment of the system.\<close>

definition sys_reader :: "bool \<Rightarrow> instant \<Rightarrow> instant \<Rightarrow> settings_sys \<Rightarrow> setting_reader" where
  "sys_reader ok now now' s = \<lparr>
     GetInt = (\<lambda>key d. snd (cache_GetInt ok now now' key d (sy_tbl s) (sy_vals s))),
     GetString = (\<lambda>key d. snd (cache_GetString ok now now' key d (sy_tbl s) (sy_vals s))),
     GetBool = (\<lambda>key d. snd (cache_GetBool ok now now' key d (sy_tbl s) (sy_vals s)))\<rparr>"

lemma allowedKeys_int: "(k, lo, hi) \<in> set int_settings \<Longrightarrow> allowedKeys k = Some (int_between lo hi)"
proof -
  assume "(k, lo, hi) \<in> set int_settings"
  then have "(k, int_between lo hi) \<in> set (map (\<lambda>(k, lo, hi). (k, int_between lo hi)) int_settings)" by force
  moreover have "distinct (map fst int_settings)" by code_simp
  then have "distinct (map fst (map (\<lambda>(k, lo, hi). (k, int_between lo hi)) int_settings))" by (simp add: comp_def case_prod_beta)
  ultimately have "map_of (map (\<lambda>(k, lo, hi). (k, int_between lo hi)) int_settings) k = Some (int_between lo hi)" by (simp only: map_of_eq_Some_iff)
  then show ?thesis by (simp add: allowedKeys_def map_of_append map_add_Some_iff)
qed

lemma reader_int:
  assumes "settings_run L tbl0 t0 s t W" "0 \<le> L" "\<forall>k v. tbl0 k = Some v \<longrightarrow> valid_setting k v"
    and "(k, lo, hi) \<in> set int_settings" "lo \<le> d" "d \<le> hi"
  shows "lo \<le> setting_int (Some (sys_reader ok t t' s)) k d \<and> setting_int (Some (sys_reader ok t t' s)) k d \<le> hi"
proof -
  let ?v = "snd (cache_value ok t t' k (sy_tbl s) (sy_vals s))"
  have eq: "setting_int (Some (sys_reader ok t t' s)) k d = as_int d ?v"
    by (simp add: setting_int_def sys_reader_def cache_GetInt_def)
  have "int_between lo hi v" if v: "?v = Some v" for v
  proof -
    from cache_value_fresh [OF assms(1,2) v] obtain u where "(k, v, u) \<in> W" by blast
    from settings_run_valid [OF assms(1,3) this] show ?thesis by (simp add: valid_setting_def allowedKeys_int [OF assms(4)])
  qed
  then show ?thesis unfolding eq using assms(5,6) by (auto simp: as_int_def int_between_def split: option.splits)
qed

lemma timeout_in_range:
  assumes "lo \<le> setting_int (Some st) k (d div go_second) \<and> setting_int (Some st) k (d div go_second) \<le> hi" "0 < lo" "hi \<le> 172800"
  shows "lo * go_second \<le> timeout_setting (Some st) k d \<and> timeout_setting (Some st) k d \<le> hi * go_second"
proof -
  let ?n = "GetInt st k (d div go_second)"
  have n: "lo \<le> ?n" "?n \<le> hi" using assms(1) by (simp_all add: setting_int_def)
  have "wrap64 (?n * go_second) = ?n * go_second" using n assms(2,3) by (intro wrap64_id) simp_all
  then show ?thesis using n assms(2) by (simp add: timeout_setting_def Let_def)
qed

section \<open>Properties\<close>

text \<open>how stale a setting can be. Whatever reads, updates and invalidations of this server and updates of other
  servers interleave, the value a getter returns is its default or a value the table held at most one minute plus
  the longest read before.\<close>

lemma cache_staleness_bound:
  assumes "settings_run L tbl0 t0 s t W" "0 \<le> L"
  shows "snd (cache_GetString ok t t' key d (sy_tbl s) (sy_vals s)) = d \<or>
    (\<exists>u. (key, snd (cache_GetString ok t t' key d (sy_tbl s) (sy_vals s)), u) \<in> W \<and> t - go_minute - L < u \<and> u \<le> t)"
proof (cases "snd (cache_value ok t t' key (sy_tbl s) (sy_vals s))")
  case (Some v)
  with cache_value_fresh [OF assms Some] show ?thesis by (simp add: cache_GetString_def cacheTTL_def)
qed (simp add: cache_GetString_def)

definition demo_settings :: settings_table where
  "demo_settings = [''max_sessions_per_user'' \<mapsto> ''5'']"

text \<open>A read that queried the table before an update stores its answer after the update's invalidation.\<close>

definition demo_stale :: settings_sys where
  "demo_stale = \<lparr>sy_tbl = demo_settings(''max_sessions_per_user'' \<mapsto> ''3''), sy_vals = [''max_sessions_per_user'' \<mapsto> (''5'', cacheTTL)], sy_flight = []\<rparr>"

lemma demo_int: "int_between 1 20 ''3''" "int_between 1 20 ''5''" "Atoi ''5'' = (5, None)"
  by code_simp+

lemma demo_allowed: "allowedKeys ''max_sessions_per_user'' = Some (int_between 1 20)"
  by (rule allowedKeys_int) (simp add: int_settings_def)

lemma demo_stale_run: "\<exists>W. settings_run 0 demo_settings 0 demo_stale 0 W"
proof -
  let ?k = "''max_sessions_per_user''"
  let ?s0 = "\<lparr>sy_tbl = demo_settings, sy_vals = Map.empty, sy_flight = []\<rparr>"
  let ?s1 = "?s0\<lparr>sy_flight := (?k, ''5'', 0) # sy_flight ?s0\<rparr>"
  let ?s2 = "?s1\<lparr>sy_tbl := fst (settings_Set True ?k ''3'' (sy_tbl ?s1))\<rparr>"
  let ?s3 = "?s2\<lparr>sy_vals := Invalidate ?k (sy_vals ?s2)\<rparr>"
  let ?s4 = "?s3\<lparr>sy_vals := cache_store 0 ?k ''5'' (sy_vals ?s3), sy_flight := remove1 (?k, ''5'', 0) (sy_flight ?s3)\<rparr>"
  have "\<exists>W. settings_run 0 demo_settings 0 ?s4 0 W"
    by (rule exI, rule settings_run.store, rule settings_run.invalidate, rule settings_run.change, rule settings_run.fetch, rule settings_run.start)
      (simp_all add: settings_Get_def demo_settings_def demo_allowed demo_int)
  moreover have "?s4 = demo_stale"
    by (simp add: demo_stale_def settings_Set_def Invalidate_def cache_store_def)
  ultimately show ?thesis by metis
qed



lemma write_settings_other:
  "write_settings ok req (tbl, vals) = ((tbl', vals'), r) \<Longrightarrow> k \<notin> fst ` set req \<Longrightarrow> tbl' k = tbl k \<and> vals' k = vals k"
proof (induction ok req "(tbl, vals)" arbitrary: tbl vals rule: write_settings.induct)
  case (2 ok j v req tbl vals)
  then show ?case by (cases "ok j") (auto simp: settings_Set_def Invalidate_def)
qed simp

text \<open>An administrator who reads after a successful update sees it: the writes reach the table and the cached
  values are gone.\<close>

lemma write_settings_read:
  assumes "write_settings ok req (tbl, vals) = ((tbl', vals'), HOk ())" "distinct (map fst req)" "(k, v) \<in> set req"
  shows "tbl' k = Some v \<and> vals' k = None"
  using assms
proof (induction ok req "(tbl, vals)" arbitrary: tbl vals rule: write_settings.induct)
  case (2 ok j x req tbl vals)
  from 2(2) have ok: "ok j" by (cases "ok j") (simp_all add: settings_Set_def)
  with 2(2) have run: "write_settings ok req (tbl(j \<mapsto> x), Invalidate j vals) = ((tbl', vals'), HOk ())" by (simp add: settings_Set_def)
  show ?case
  proof (cases "(k, v) \<in> set req")
    case True
    with 2(1) [of "tbl(j \<mapsto> x)" True] ok run 2(3) show ?thesis by (simp add: settings_Set_def)
  next
    case False
    with 2(4) have kv: "k = j" "v = x" by auto
    with 2(3) have "j \<notin> fst ` set req" by auto
    from write_settings_other [OF run this] kv show ?thesis by (simp add: Invalidate_def)
  qed
qed simp

text \<open>a settings update is read back. After a request that the handler answered with success, each getter on this
  server returns exactly the requested value, and settings outside the request keep their value.\<close>

lemma settings_update_read_back:
  assumes "settings_Update ok (Some req) (tbl, vals) = ((tbl', vals'), HOk ())" "distinct (map fst req)"
  shows "(\<forall>k v. (k, v) \<in> set req \<longrightarrow> (\<exists>valid. allowedKeys k = Some valid \<and> valid v) \<and>
      snd (cache_GetString True now now' k d tbl' vals') = v) \<and>
    (\<forall>k. k \<notin> fst ` set req \<longrightarrow> tbl' k = tbl k \<and> vals' k = vals k)"
proof -
  from assms(1) have check: "check_settings req = None" and run: "write_settings ok req (tbl, vals) = ((tbl', vals'), HOk ())"
    by (auto simp: settings_Update_def split: option.splits)
  have "\<exists>valid. allowedKeys k = Some valid \<and> valid v" if "(k, v) \<in> set req" for k v
    using check that by (induction req) (auto split: option.splits if_splits)
  moreover have "snd (cache_GetString True now now' k d tbl' vals') = v" if "(k, v) \<in> set req" for k v
    using write_settings_read [OF run assms(2) that] by (simp add: cache_GetString_def cache_value_def cache_hit_def settings_Get_def)
  ultimately show ?thesis using write_settings_other [OF run] by blast
qed

end
