(* ===== verification/Validation.thy ===== *)
theory Validation
  imports ZT_Prelude
begin

text \<open>
  \<open>pkg/validation\<close>: the address check, the password rules and the breached-password lookup. Ranging over a
  string decodes UTF-8 and asks the Unicode tables; that is the parameter \<open>classes\<close>, while \<open>len\<close> counts bytes.
  SHA-1 and the answer of the range service (\<open>None\<close> when the request fails or is not answered with 200) are
  parameters too.
\<close>

section \<open>Addresses\<close>

definition letter :: "char \<Rightarrow> bool" where
  "letter c = (let n = of_char c :: nat in (65 \<le> n \<and> n \<le> 90) \<or> (97 \<le> n \<and> n \<le> 122))"

definition local_char :: "char \<Rightarrow> bool" where
  "local_char c = (letter c \<or> is_digit c \<or> c \<in> set ''._%+-'')"

definition domain_char :: "char \<Rightarrow> bool" where
  "domain_char c = (letter c \<or> is_digit c \<or> c \<in> set ''.-'')"

text \<open>The expression \<open>^[a-zA-Z0-9._%+\-]+@[a-zA-Z0-9.\-]+\.[a-zA-Z]{2,}$\<close>: the part before the first \<open>@\<close>, and the
  rest cut at its last dot.\<close>

definition emailRe :: "string \<Rightarrow> bool" where
  "emailRe s =
    (let l = takeWhile (\<lambda>c. c \<noteq> CHR ''@'') s; rest = dropWhile (\<lambda>c. c \<noteq> CHR ''@'') s in
     case rest of
       [] \<Rightarrow> False
     | _ # d \<Rightarrow>
       (let tld = rev (takeWhile (\<lambda>c. c \<noteq> CHR ''.'') (rev d)); host = rev (tl (dropWhile (\<lambda>c. c \<noteq> CHR ''.'') (rev d))) in
        l \<noteq> [] \<and> list_all local_char l \<and> CHR ''.'' \<in> set d \<and> host \<noteq> [] \<and> list_all domain_char host \<and>
        2 \<le> length tld \<and> list_all letter tld))"

text \<open>The language of the expression.\<close>

definition email_lang :: "string \<Rightarrow> bool" where
  "email_lang s \<longleftrightarrow> (\<exists>l host tld. s = l @ ''@'' @ host @ ''.'' @ tld \<and> l \<noteq> [] \<and> list_all local_char l \<and>
    host \<noteq> [] \<and> list_all domain_char host \<and> 2 \<le> length tld \<and> list_all letter tld)"

lemma char_classes: "\<not> local_char CHR ''@''" "\<not> domain_char CHR ''@''" "\<not> letter CHR ''.''" "\<not> letter CHR ''@''"
  by code_simp+

lemma cut_first:
  assumes "list_all P l" "\<not> P x"
  shows "takeWhile (\<lambda>c. c \<noteq> x) (l @ x # r) = l" "dropWhile (\<lambda>c. c \<noteq> x) (l @ x # r) = x # r"
proof -
  have "\<forall>c \<in> set l. c \<noteq> x" using assms by (auto simp: list_all_iff)
  then show "takeWhile (\<lambda>c. c \<noteq> x) (l @ x # r) = l" "dropWhile (\<lambda>c. c \<noteq> x) (l @ x # r) = x # r"
    by (simp_all add: takeWhile_append2 dropWhile_append2)
qed

lemma emailRe_lang: "emailRe s \<longleftrightarrow> email_lang s"
proof
  assume re: "emailRe s"
  let ?l = "takeWhile (\<lambda>c. c \<noteq> CHR ''@'') s" and ?r = "dropWhile (\<lambda>c. c \<noteq> CHR ''@'') s"
  from re obtain a d where r: "?r = a # d" by (auto simp: emailRe_def Let_def split: list.splits)
  then have "a = CHR ''@''" using hd_dropWhile [of "\<lambda>c. c \<noteq> CHR ''@''" s] by simp
  define tld where "tld = rev (takeWhile (\<lambda>c. c \<noteq> CHR ''.'') (rev d))"
  define host where "host = rev (tl (dropWhile (\<lambda>c. c \<noteq> CHR ''.'') (rev d)))"
  from re r have ok: "?l \<noteq> []" "list_all local_char ?l" "CHR ''.'' \<in> set d" "host \<noteq> []" "list_all domain_char host"
    "2 \<le> length tld" "list_all letter tld" by (simp_all add: emailRe_def Let_def tld_def host_def)
  from ok(3) have ne: "dropWhile (\<lambda>c. c \<noteq> CHR ''.'') (rev d) \<noteq> []" by (simp add: dropWhile_eq_Nil_conv)
  then have "hd (dropWhile (\<lambda>c. c \<noteq> CHR ''.'') (rev d)) = CHR ''.''" using hd_dropWhile by blast
  with ne have "rev d = takeWhile (\<lambda>c. c \<noteq> CHR ''.'') (rev d) @ CHR ''.'' # tl (dropWhile (\<lambda>c. c \<noteq> CHR ''.'') (rev d))"
    by (metis list.collapse takeWhile_dropWhile_id)
  then have "d = host @ ''.'' @ tld" unfolding host_def tld_def by (metis append_Cons append_Nil rev.simps(2) rev_append rev_rev_ident append_assoc)
  moreover have "s = ?l @ a # d" using r by (metis takeWhile_dropWhile_id)
  ultimately have "s = ?l @ ''@'' @ host @ ''.'' @ tld" using \<open>a = CHR ''@''\<close> by simp
  with ok show "email_lang s" unfolding email_lang_def by blast
next
  assume "email_lang s"
  then obtain l host tld where s: "s = l @ CHR ''@'' # host @ ''.'' @ tld" and ok: "l \<noteq> []" "list_all local_char l"
    "host \<noteq> []" "list_all domain_char host" "2 \<le> length tld" "list_all letter tld" by (auto simp: email_lang_def)
  have "takeWhile (\<lambda>c. c \<noteq> CHR ''@'') s = l" "dropWhile (\<lambda>c. c \<noteq> CHR ''@'') s = CHR ''@'' # host @ ''.'' @ tld"
    unfolding s using cut_first [OF ok(2) char_classes(1)] by simp_all
  moreover have "list_all letter (rev tld)" using ok(6) by (simp add: list_all_iff)
  then have "takeWhile (\<lambda>c. c \<noteq> CHR ''.'') (rev (host @ ''.'' @ tld)) = rev tld"
    "dropWhile (\<lambda>c. c \<noteq> CHR ''.'') (rev (host @ ''.'' @ tld)) = CHR ''.'' # rev host"
    using cut_first [of letter "rev tld" "CHR ''.''"] char_classes(3) by simp_all
  ultimately show "emailRe s" using ok unfolding emailRe_def Let_def by simp
qed

section \<open>Breached passwords\<close>

definition IsPasswordPwned :: "(string \<Rightarrow> bytes) \<Rightarrow> (string \<Rightarrow> string list option) \<Rightarrow> string \<Rightarrow> bool" where
  "IsPasswordPwned sha1 range_api password =
    (if password = '''' then False
     else
       (let hash = ToUpper (hex_encode (sha1 password)); prefix = take 5 hash; suffix = drop 5 hash in
        case range_api prefix of
          None \<Rightarrow> False
        | Some ls \<Rightarrow> list_ex (\<lambda>line. EqualFold (hd (Split CHR '':'' line)) suffix) ls))"

section \<open>Passwords\<close>

datatype rune_class = UpperRune | LowerRune | LetterRune | DigitRune | PunctRune | SymbolRune | OtherRune

datatype password_error = EmailInvalid | PasswordTooShort | PasswordNoUpper | PasswordNoLower | PasswordNoDigit | PasswordNoSpecial
  | PasswordTooShort6 | PasswordNoLetter | PasswordCompromised

text \<open>The tables and services a check consults.\<close>

record password_env =
  pe_classes :: "string \<Rightarrow> rune_class list"
  pe_sha1 :: "string \<Rightarrow> bytes"
  pe_range :: "string \<Rightarrow> string list option"

definition Email_check :: "string \<Rightarrow> password_error option" where
  "Email_check email = (if emailRe email then None else Some EmailInvalid)"

definition breach_check :: "password_env \<Rightarrow> string \<Rightarrow> password_error option" where
  "breach_check E password = (if IsPasswordPwned (pe_sha1 E) (pe_range E) password then Some PasswordCompromised else None)"

definition Password_check :: "password_env \<Rightarrow> string \<Rightarrow> password_error option" where
  "Password_check E password =
    (let cs = set (pe_classes E password) in
     if length password < 8 then Some PasswordTooShort
     else if UpperRune \<notin> cs then Some PasswordNoUpper
     else if LowerRune \<notin> cs then Some PasswordNoLower
     else if DigitRune \<notin> cs then Some PasswordNoDigit
     else if PunctRune \<notin> cs \<and> SymbolRune \<notin> cs then Some PasswordNoSpecial
     else breach_check E password)"

definition PasswordWithComplexity :: "password_env \<Rightarrow> string \<Rightarrow> string \<Rightarrow> password_error option" where
  "PasswordWithComplexity E password complexity =
    (if complexity = ''low'' then
       (if length password < 6 then Some PasswordTooShort6 else breach_check E password)
     else if complexity = ''medium'' then
       (let cs = set (pe_classes E password) in
        if length password < 8 then Some PasswordTooShort
        else if cs \<inter> {UpperRune, LowerRune, LetterRune} = {} then Some PasswordNoLetter
        else if cs \<inter> {DigitRune, PunctRune, SymbolRune} = {} then Some PasswordNoDigit
        else breach_check E password)
     else Password_check E password)"

text \<open>Whatever the setting says, an accepted password has at least six bytes and is on no list the service returned;
  a value other than \<open>low\<close> and \<open>medium\<close> means the strong rules, and the strong rules imply the weaker ones.\<close>

lemma strong_implies_medium:
  "PasswordWithComplexity E p ''strong'' = None \<Longrightarrow> PasswordWithComplexity E p ''medium'' = None"
  "PasswordWithComplexity E p ''medium'' = None \<Longrightarrow> PasswordWithComplexity E p ''low'' = None"
  by (auto simp: PasswordWithComplexity_def Password_check_def Let_def split: if_splits)

lemma accepted_password:
  "PasswordWithComplexity E p complexity = None \<Longrightarrow> 6 \<le> length p \<and> \<not> IsPasswordPwned (pe_sha1 E) (pe_range E) p"
  by (auto simp: PasswordWithComplexity_def Password_check_def breach_check_def Let_def split: if_splits)


end
