(* ===== verification/Passwd_Reset.thy ===== *)
theory Passwd_Reset
  imports User_Repo Redis_Server
begin

text \<open>
  \<open>internal/passwdreset\<close>: reset links. \<open>Create\<close> and \<open>ConsumeAndReset\<close> are transactions on
  \<open>password_reset_tokens\<close>, \<open>users\<close> and \<open>sessions\<close>: they take effect as a whole or not at all (\<open>ok\<close> says whether
  PostgreSQL executes them), and the advisory lock and \<open>FOR UPDATE\<close> order them. \<open>bcmp\<close> and \<open>bgen\<close> are bcrypt;
  \<open>now\<close> is the clock of the server, \<open>sqlnow\<close> that of the database.
\<close>

section \<open>State\<close>

record reset_row =
  pr_id :: string
  pr_user :: string
  pr_hash :: string
  pr_expires :: instant
  pr_used :: "instant option"

record 'r reset_world =
  rw_tokens :: "reset_row list"
  rw_users :: user_db
  rw_sess :: session_repo
  rw_rd :: 'r
  rw_mail :: "(string \<times> string) list"

datatype reset_error = ResetNotFound | ResetExpired | ResetUsed | PasswordReuseForbidden | ResetRandom | ResetDB | ResetHash | ResetMail

definition tokenTTL :: duration where "tokenTTL = go_hour"

section \<open>Repository\<close>

definition reset_Create :: "(string \<Rightarrow> bytes) \<Rightarrow> bool \<Rightarrow> bytes option \<Rightarrow> string \<Rightarrow> instant \<Rightarrow> instant \<Rightarrow> string \<Rightarrow> 'r reset_world \<Rightarrow>
    'r reset_world \<times> (reset_error + string)" where
  "reset_Create sha ok rnd newid now sqlnow userID w =
    (case rnd of
       None \<Rightarrow> (w, Inl ResetRandom)
     | Some b \<Rightarrow>
       (let raw = hex_encode b; hash = hashToken sha raw in
        if \<not> ok then (w, Inl ResetDB)
        else
          (let cancelled = sql_update (\<lambda>r. pr_user r = userID \<and> pr_used r = None \<and> sqlnow < pr_expires r)
                 (\<lambda>r. r\<lparr>pr_used := Some sqlnow\<rparr>) (rw_tokens w) in
           if hash \<in> pr_hash ` set cancelled \<or> newid \<in> pr_id ` set cancelled then (w, Inl ResetDB)
           else (w\<lparr>rw_tokens := cancelled @ [\<lparr>pr_id = newid, pr_user = userID, pr_hash = hash, pr_expires = now + tokenTTL, pr_used = None\<rparr>]\<rparr>,
             Inr raw))))"

definition ConsumeAndReset :: "(string \<Rightarrow> bytes) \<Rightarrow> (string \<Rightarrow> string \<Rightarrow> bool) \<Rightarrow> (string \<Rightarrow> string option) \<Rightarrow> bool \<Rightarrow> instant \<Rightarrow> instant \<Rightarrow>
    string \<Rightarrow> string \<Rightarrow> 'r reset_world \<Rightarrow> 'r reset_world \<times> (reset_error + unit)" where
  "ConsumeAndReset sha bcmp bgen ok now sqlnow rawToken newPassword w =
    (if \<not> ok then (w, Inl ResetDB)
     else case sql_first (\<lambda>r. pr_hash r = hashToken sha rawToken) (rw_tokens w) of
         None \<Rightarrow> (w, Inl ResetNotFound)
       | Some row \<Rightarrow>
         if pr_used row \<noteq> None then (w, Inl ResetUsed)
         else if now > pr_expires row then (w, Inl ResetExpired)
         else case sql_first (\<lambda>u. us_id u = pr_user row) (users (rw_users w)) of
             None \<Rightarrow> (w, Inl ResetDB)
           | Some u \<Rightarrow>
             if bcmp (us_password u) newPassword then (w, Inl PasswordReuseForbidden)
             else case bgen newPassword of
                 None \<Rightarrow> (w, Inl ResetHash)
               | Some newHash \<Rightarrow>
                 (w\<lparr>rw_tokens := sql_update (\<lambda>r. pr_id r = pr_id row) (\<lambda>r. r\<lparr>pr_used := Some sqlnow\<rparr>) (rw_tokens w),
                    rw_users := update_user (pr_user row) (\<lambda>r. r\<lparr>us_password := newHash, us_updated := sqlnow\<rparr>) (rw_users w),
                    rw_sess := (rw_sess w)\<lparr>rows := sql_update (\<lambda>r. s_user r = pr_user row \<and> \<not> s_revoked r) (\<lambda>r. r\<lparr>s_revoked := True\<rparr>)
                      (rows (rw_sess w))\<rparr>\<rparr>, Inr ()))"

section \<open>Service\<close>

definition resetCooldown :: duration where "resetCooldown = 5 * go_minute"

definition hashEmail :: "(string \<Rightarrow> bytes) \<Rightarrow> string \<Rightarrow> string" where
  "hashEmail sha email = hex_encode (sha (ToLower (TrimSpace email)))"

definition cooldown_key :: "(string \<Rightarrow> bytes) \<Rightarrow> string \<Rightarrow> string" where
  "cooldown_key sha email = ''pwdreset:cooldown:'' @ hashEmail sha email"

text \<open>The parts of a service: the Redis client when one was set, the user lookup and whether the mailer takes a job.\<close>

record ('r, 'd) reset_service =
  rs_rdb :: "('r, 'd) redis option"
  rs_enc :: "encrypter option"
  rs_sha :: "string \<Rightarrow> bytes"
  rs_mail_ok :: bool

definition reset_link :: "string \<Rightarrow> user \<Rightarrow> string \<Rightarrow> string" where
  "reset_link baseURL u token = baseURL @ ''/'' @ (if u_Locale u = '''' then ''en'' else u_Locale u) @ ''/auth/reset-password?token='' @ token"

definition issue_link :: "('r, 'd) reset_service \<Rightarrow> bool \<Rightarrow> bytes option \<Rightarrow> string \<Rightarrow> instant \<Rightarrow> instant \<Rightarrow> user \<Rightarrow> string \<Rightarrow> string \<Rightarrow>
    'r reset_world \<Rightarrow> 'r reset_world \<times> (reset_error + unit)" where
  "issue_link S ok rnd newid now sqlnow u email baseURL w =
    (case reset_Create (rs_sha S) ok rnd newid now sqlnow (u_ID u) w of
       (w1, Inl e) \<Rightarrow> (w1, Inl e)
     | (w1, Inr token) \<Rightarrow>
       if rs_mail_ok S then (w1\<lparr>rw_mail := rw_mail w1 @ [(email, reset_link baseURL u token)]\<rparr>, Inr ()) else (w1, Inl ResetMail))"

definition SendReset :: "('r, 'd) reset_service \<Rightarrow> bool \<Rightarrow> bool \<Rightarrow> bytes option \<Rightarrow> string \<Rightarrow> instant \<Rightarrow> instant \<Rightarrow> string \<Rightarrow> string \<Rightarrow>
    'r reset_world \<Rightarrow> 'r reset_world \<times> (reset_error + unit)" where
  "SendReset S okU ok rnd newid now sqlnow email baseURL w =
    (case user_FindByEmail (rs_enc S) (rs_sha S) okU email (rw_users w) of
       Inl _ \<Rightarrow> (w, Inr ())
     | Inr u \<Rightarrow>
       (case rs_rdb S of
          None \<Rightarrow> issue_link S ok rnd newid now sqlnow u email baseURL w
        | Some R \<Rightarrow>
          (case rSetNX R (rw_rd w) now (cooldown_key (rs_sha S) email) (RStr ''1'') resetCooldown of
             (s, ROk False) \<Rightarrow> (w\<lparr>rw_rd := s\<rparr>, Inr ())
           | (s, _) \<Rightarrow> issue_link S ok rnd newid now sqlnow u email baseURL (w\<lparr>rw_rd := s\<rparr>))))"

text \<open>\<open>Reset\<close> hides which of the three token errors occurred: \<open>None\<close> is \<open>invalid_token\<close>.\<close>

definition reset_answer :: "reset_error + unit \<Rightarrow> reset_error option + unit" where
  "reset_answer r = (case r of Inr _ \<Rightarrow> Inr () | Inl e \<Rightarrow> Inl (if e \<in> {ResetNotFound, ResetExpired, ResetUsed} then None else Some e))"

definition Reset :: "(string \<Rightarrow> bytes) \<Rightarrow> (string \<Rightarrow> string \<Rightarrow> bool) \<Rightarrow> (string \<Rightarrow> string option) \<Rightarrow> bool \<Rightarrow> instant \<Rightarrow> instant \<Rightarrow> string \<Rightarrow> string \<Rightarrow>
    'r reset_world \<Rightarrow> 'r reset_world \<times> (reset_error option + unit)" where
  "Reset sha bcmp bgen ok now sqlnow rawToken newPassword w =
    map_prod id reset_answer (ConsumeAndReset sha bcmp bgen ok now sqlnow rawToken newPassword w)"

section \<open>Invariant\<close>

text \<open>Hashes and identifiers are unique, and of each user at most one link is still good at any moment from \<open>t\<close> on.\<close>

definition open_link :: "instant \<Rightarrow> reset_row \<Rightarrow> bool" where
  "open_link t r \<longleftrightarrow> pr_used r = None \<and> t < pr_expires r"

definition one_link :: "instant \<Rightarrow> 'r reset_world \<Rightarrow> bool" where
  "one_link t w \<longleftrightarrow> distinct (map pr_hash (rw_tokens w)) \<and> distinct (map pr_id (rw_tokens w)) \<and>
    (\<forall>r \<in> set (rw_tokens w). \<forall>q \<in> set (rw_tokens w). open_link t r \<and> open_link t q \<and> pr_user r = pr_user q \<longrightarrow> r = q)"

lemma one_link_later: "one_link t w \<Longrightarrow> t \<le> t' \<Longrightarrow> one_link t' w"
  unfolding one_link_def open_link_def by (meson order_le_less_trans)

text \<open>No row is lost, re-dated or made unused again.\<close>

definition keeps_rows :: "reset_row list \<Rightarrow> reset_row list \<Rightarrow> bool" where
  "keeps_rows ts ts' \<longleftrightarrow> (\<forall>q \<in> set ts. \<exists>p \<in> set ts'. pr_hash p = pr_hash q \<and> pr_expires p = pr_expires q \<and>
    (pr_used q \<noteq> None \<longrightarrow> pr_used p \<noteq> None))"

lemma keeps_rows_refl [simp]: "keeps_rows ts ts"
  by (auto simp: keeps_rows_def)

lemma keeps_rows_trans: "keeps_rows a b \<Longrightarrow> keeps_rows b c \<Longrightarrow> keeps_rows a c"
  unfolding keeps_rows_def by metis

lemma keeps_rows_mark: "keeps_rows ts (sql_update P (\<lambda>r. r\<lparr>pr_used := Some t\<rparr>) ts @ new)"
  unfolding keeps_rows_def
proof
  fix q assume "q \<in> set ts"
  then have "(if P q then q\<lparr>pr_used := Some t\<rparr> else q) \<in> set (sql_update P (\<lambda>r. r\<lparr>pr_used := Some t\<rparr>) ts)"
    unfolding sql_update_def set_map by (rule image_eqI [OF refl])
  then show "\<exists>p \<in> set (sql_update P (\<lambda>r. r\<lparr>pr_used := Some t\<rparr>) ts @ new). pr_hash p = pr_hash q \<and> pr_expires p = pr_expires q \<and>
      (pr_used q \<noteq> None \<longrightarrow> pr_used p \<noteq> None)"
    by (intro bexI [of _ "if P q then q\<lparr>pr_used := Some t\<rparr> else q"]) auto
qed

text \<open>A history of the service, on one clock: time passes, links are sent and redeemed, the rest of the world changes.\<close>

inductive reset_run :: "('r, 'd) reset_service \<Rightarrow> 'r reset_world \<Rightarrow> instant \<Rightarrow> 'r reset_world \<Rightarrow> instant \<Rightarrow> bool" for S w0 t0 where
  start: "reset_run S w0 t0 w0 t0"
| wait: "reset_run S w0 t0 w t \<Longrightarrow> t \<le> t' \<Longrightarrow> reset_run S w0 t0 w t'"
| other: "reset_run S w0 t0 w t \<Longrightarrow> rw_tokens w' = rw_tokens w \<Longrightarrow> reset_run S w0 t0 w' t"
| send: "reset_run S w0 t0 w t \<Longrightarrow>
    reset_run S w0 t0 (fst (SendReset S okU ok rnd newid t t email baseURL w)) t"
| redeem: "reset_run S w0 t0 w t \<Longrightarrow> reset_run S w0 t0 (fst (Reset (rs_sha S) bcmp bgen ok t t tok pw w)) t"

lemma reset_Create_tokens:
  assumes "one_link t w" "reset_Create sha ok rnd newid t t u w = (w', r)"
  shows "one_link t w' \<and> keeps_rows (rw_tokens w) (rw_tokens w') \<and>
    (\<forall>raw. r = Inr raw \<longrightarrow> (\<exists>b. rnd = Some b \<and> raw = hex_encode b) \<and>
      (\<forall>q \<in> set (rw_tokens w'). open_link t q \<and> pr_user q = u \<longrightarrow> pr_hash q = hashToken sha raw))"
proof (cases r)
  case (Inl e)
  with assms have "w' = w" by (auto simp: reset_Create_def Let_def split: option.splits if_splits)
  with assms Inl show ?thesis by simp
next
  case (Inr raw)
  define c where "c = sql_update (\<lambda>r. pr_user r = u \<and> pr_used r = None \<and> t < pr_expires r) (\<lambda>r. r\<lparr>pr_used := Some t\<rparr>) (rw_tokens w)"
  from assms(2) Inr obtain b where b: "rnd = Some b" "raw = hex_encode b" "hashToken sha raw \<notin> pr_hash ` set c" "newid \<notin> pr_id ` set c"
    and w': "w' = w\<lparr>rw_tokens := c @ [\<lparr>pr_id = newid, pr_user = u, pr_hash = hashToken sha raw, pr_expires = t + tokenTTL, pr_used = None\<rparr>]\<rparr>"
    by (auto simp: reset_Create_def Let_def c_def split: option.splits if_splits)
  have cut: "r \<in> set (rw_tokens w) \<and> pr_user r \<noteq> u" if "r \<in> set c" "open_link t r" for r
  proof -
    from that(1) obtain q where "q \<in> set (rw_tokens w)"
      "r = (if pr_user q = u \<and> pr_used q = None \<and> t < pr_expires q then q\<lparr>pr_used := Some t\<rparr> else q)" by (auto simp: c_def sql_update_def)
    with that(2) show ?thesis by (cases "pr_user q = u \<and> pr_used q = None \<and> t < pr_expires q") (auto simp: open_link_def)
  qed
  have keys: "map pr_hash c = map pr_hash (rw_tokens w)" "map pr_id c = map pr_id (rw_tokens w)" by (simp_all add: c_def map_sql_update)
  have inj: "\<forall>r \<in> set (rw_tokens w). \<forall>q \<in> set (rw_tokens w). open_link t r \<and> open_link t q \<and> pr_user r = pr_user q \<longrightarrow> r = q"
    using assms(1) by (simp add: one_link_def)
  have "one_link t w'" unfolding one_link_def
  proof (intro conjI ballI impI)
    have "distinct (map pr_hash c)" "distinct (map pr_id c)" unfolding keys using assms(1) by (simp_all add: one_link_def)
    then show "distinct (map pr_hash (rw_tokens w'))" "distinct (map pr_id (rw_tokens w'))" using b(3,4) by (simp_all add: w')
    fix r q assume "r \<in> set (rw_tokens w')" "q \<in> set (rw_tokens w')" "open_link t r \<and> open_link t q \<and> pr_user r = pr_user q"
    then show "r = q" using cut [of r] cut [of q] inj by (auto simp: w')
  qed
  moreover have "keeps_rows (rw_tokens w) (rw_tokens w')" unfolding w' c_def using keeps_rows_mark by simp
  moreover have "\<forall>q \<in> set (rw_tokens w'). open_link t q \<and> pr_user q = u \<longrightarrow> pr_hash q = hashToken sha raw" using cut by (auto simp: w')
  ultimately show ?thesis using Inr b(1,2) by simp
qed

lemma ConsumeAndReset_Inr:
  assumes "ConsumeAndReset sha bcmp bgen ok now sqlnow tok pw w = (w', Inr ())"
  obtains row u h where "sql_first (\<lambda>r. pr_hash r = hashToken sha tok) (rw_tokens w) = Some row" "pr_used row = None" "now \<le> pr_expires row"
    "sql_first (\<lambda>u. us_id u = pr_user row) (users (rw_users w)) = Some u" "\<not> bcmp (us_password u) pw" "bgen pw = Some h"
    "w' = w\<lparr>rw_tokens := sql_update (\<lambda>r. pr_id r = pr_id row) (\<lambda>r. r\<lparr>pr_used := Some sqlnow\<rparr>) (rw_tokens w),
       rw_users := update_user (pr_user row) (\<lambda>r. r\<lparr>us_password := h, us_updated := sqlnow\<rparr>) (rw_users w),
       rw_sess := (rw_sess w)\<lparr>rows := sql_update (\<lambda>r. s_user r = pr_user row \<and> \<not> s_revoked r) (\<lambda>r. r\<lparr>s_revoked := True\<rparr>) (rows (rw_sess w))\<rparr>\<rparr>"
  using assms that by (auto simp: ConsumeAndReset_def split: if_splits option.splits)

lemma ConsumeAndReset_Inl: "ConsumeAndReset sha bcmp bgen ok now sqlnow tok pw w = (w', Inl e) \<Longrightarrow> w' = w"
  by (auto simp: ConsumeAndReset_def split: if_splits option.splits)

lemma Consume_tokens:
  assumes "one_link t w" "ConsumeAndReset sha bcmp bgen ok t t tok pw w = (w', r)"
  shows "one_link t w' \<and> keeps_rows (rw_tokens w) (rw_tokens w')"
proof (cases r)
  case (Inl e)
  with assms ConsumeAndReset_Inl keeps_rows_refl show ?thesis by blast
next
  case (Inr x)
  then have "ConsumeAndReset sha bcmp bgen ok t t tok pw w = (w', Inr ())" using assms(2) by simp
  from ConsumeAndReset_Inr [OF this] obtain row u h where
    "sql_first (\<lambda>r. pr_hash r = hashToken sha tok) (rw_tokens w) = Some row" "pr_used row = None" "t \<le> pr_expires row"
    "sql_first (\<lambda>u. us_id u = pr_user row) (users (rw_users w)) = Some u" "\<not> bcmp (us_password u) pw" "bgen pw = Some h"
    "w' = w\<lparr>rw_tokens := sql_update (\<lambda>r. pr_id r = pr_id row) (\<lambda>r. r\<lparr>pr_used := Some t\<rparr>) (rw_tokens w),
       rw_users := update_user (pr_user row) (\<lambda>r. r\<lparr>us_password := h, us_updated := t\<rparr>) (rw_users w),
       rw_sess := (rw_sess w)\<lparr>rows := sql_update (\<lambda>r. s_user r = pr_user row \<and> \<not> s_revoked r) (\<lambda>r. r\<lparr>s_revoked := True\<rparr>) (rows (rw_sess w))\<rparr>\<rparr>"
    by blast
  then have rows': "rw_tokens w' = sql_update (\<lambda>r. pr_id r = pr_id row) (\<lambda>r. r\<lparr>pr_used := Some t\<rparr>) (rw_tokens w)" by simp
  have keep: "r \<in> set (rw_tokens w)" if "r \<in> set (rw_tokens w')" "open_link t r" for r
  proof -
    from that(1) obtain q where "q \<in> set (rw_tokens w)" "r = (if pr_id q = pr_id row then q\<lparr>pr_used := Some t\<rparr> else q)"
      by (auto simp: rows' sql_update_def)
    with that(2) show ?thesis by (cases "pr_id q = pr_id row") (auto simp: open_link_def)
  qed
  have "map pr_hash (rw_tokens w') = map pr_hash (rw_tokens w)" "map pr_id (rw_tokens w') = map pr_id (rw_tokens w)"
    by (simp_all add: rows' map_sql_update)
  with assms(1) keep have "one_link t w'" unfolding one_link_def by metis
  moreover have "keeps_rows (rw_tokens w) (rw_tokens w')" unfolding rows' using keeps_rows_mark [where new = "[]"] by simp
  ultimately show ?thesis by blast
qed

lemma SendReset_tokens:
  assumes "one_link t w" "SendReset S okU ok rnd newid t t email baseURL w = (w', r)"
  shows "one_link t w' \<and> keeps_rows (rw_tokens w) (rw_tokens w')"
proof -
  have same: "one_link t (w\<lparr>rw_rd := s\<rparr>)" for s using assms(1) by (simp add: one_link_def)
  have issue: "one_link t v' \<and> keeps_rows (rw_tokens v) (rw_tokens v')"
    if "one_link t v" "issue_link S ok rnd newid t t u email baseURL v = (v', x)" for u v v' x
  proof -
    obtain w1 y where c: "reset_Create (rs_sha S) ok rnd newid t t (u_ID u) v = (w1, y)" by fastforce
    from that(2) c have "rw_tokens v' = rw_tokens w1" by (auto simp: issue_link_def split: sum.splits if_splits)
    with reset_Create_tokens [OF that(1) c] show ?thesis by (auto simp: one_link_def)
  qed
  show ?thesis
  proof (cases "user_FindByEmail (rs_enc S) (rs_sha S) okU email (rw_users w)")
    case (Inl e)
    with assms show ?thesis by (simp add: SendReset_def)
  next
    case (Inr u)
    show ?thesis
    proof (cases "rs_rdb S")
      case None
      with Inr assms issue [of w u w' r] show ?thesis by (simp add: SendReset_def)
    next
      case (Some R)
      obtain s b where set: "rSetNX R (rw_rd w) t (cooldown_key (rs_sha S) email) (RStr ''1'') resetCooldown = (s, b)" by fastforce
      with Inr Some assms(2) have "w' = w\<lparr>rw_rd := s\<rparr> \<or> issue_link S ok rnd newid t t u email baseURL (w\<lparr>rw_rd := s\<rparr>) = (w', r)"
        by (auto simp: SendReset_def split: reply.splits bool.splits)
      then show ?thesis
      proof
        assume "issue_link S ok rnd newid t t u email baseURL (w\<lparr>rw_rd := s\<rparr>) = (w', r)"
        from issue [OF same this] show ?thesis by simp
      qed (use same in simp)
    qed
  qed
qed

lemma reset_run_links:
  "reset_run S w0 t0 w t \<Longrightarrow> one_link t0 w0 \<Longrightarrow> t0 \<le> t \<and> one_link t w \<and>
    keeps_rows (rw_tokens w0) (rw_tokens w)"
proof (induction rule: reset_run.induct)
  case (wait w t t')
  then show ?case using one_link_later by auto
next
  case (other w t w')
  then show ?case by (simp add: one_link_def)
next
  case (send w t okU ok rnd newid email baseURL)
  obtain w' r where run: "SendReset S okU ok rnd newid t t email baseURL w = (w', r)" by fastforce
  from SendReset_tokens [OF _ run] send keeps_rows_trans show ?case unfolding run fst_conv by blast
next
  case (redeem w t bcmp bgen ok tok pw)
  obtain w' r where run: "ConsumeAndReset (rs_sha S) bcmp bgen ok t t tok pw w = (w', r)" by fastforce
  have "fst (Reset (rs_sha S) bcmp bgen ok t t tok pw w) = w'" by (simp add: Reset_def run)
  with Consume_tokens [OF _ run] redeem keeps_rows_trans show ?case by metis
qed auto

section \<open>Properties\<close>

lemma dead_link:
  assumes "distinct (map pr_hash (rw_tokens w))" "p \<in> set (rw_tokens w)" "pr_hash p = hashToken sha tok" "pr_used p \<noteq> None \<or> pr_expires p < now"
  shows "Reset sha bcmp bgen True now sqlnow tok pw w = (w, Inl None)"
proof -
  have uniq: "q = p" if "q \<in> set (rw_tokens w)" "pr_hash q = hashToken sha tok" for q
    using assms(1-3) that by (metis distinct_map inj_onD)
  have "sql_first (\<lambda>r. pr_hash r = hashToken sha tok) (rw_tokens w) = Some p"
    unfolding sql_first_def by (rule find_ex1 [where P = "\<lambda>r. pr_hash r = hashToken sha tok", OF assms(2,3) uniq])
  then show ?thesis using assms(4) by (auto simp: Reset_def ConsumeAndReset_def reset_answer_def)
qed

text \<open>C24: redeeming a reset link. If \<open>Reset\<close> succeeds, the link was known, unused and unexpired; exactly its owner's
  password is replaced by the hash of the new one, which differs from the old password; all sessions of the owner
  end and nobody else's, while Redis (with the owner's OIDC refresh tokens) is untouched. After any later history
  the same link is refused as invalid and changes nothing.\<close>

theorem reset_link_single_use:
  assumes "one_link t w" "wf_repo (rw_sess w)" "Reset (rs_sha S) bcmp bgen ok t t tok pw w = (w1, Inr ())" "reset_run S w1 t w2 t2"
  shows "(\<exists>row u h. row \<in> set (rw_tokens w) \<and> pr_hash row = hashToken (rs_sha S) tok \<and> pr_used row = None \<and> t \<le> pr_expires row \<and>
      u \<in> set (users (rw_users w)) \<and> us_id u = pr_user row \<and> \<not> bcmp (us_password u) pw \<and> bgen pw = Some h \<and>
      rw_users w1 = update_user (pr_user row) (\<lambda>r. r\<lparr>us_password := h, us_updated := t\<rparr>) (rw_users w) \<and>
      (\<forall>t' k. token_view (rw_sess w1) t' k = (case token_view (rw_sess w) t' k of None \<Rightarrow> None
        | Some (v, x) \<Rightarrow> if v = pr_user row then None else Some (v, x)))) \<and> rw_rd w1 = rw_rd w \<and>
    Reset (rs_sha S) bcmp' bgen' True t2 t2 tok pw' w2 = (w2, Inl None)"
proof -
  from assms(3) have run: "ConsumeAndReset (rs_sha S) bcmp bgen ok t t tok pw w = (w1, Inr ())"
    by (cases "ConsumeAndReset (rs_sha S) bcmp bgen ok t t tok pw w") (auto simp: Reset_def reset_answer_def split: sum.splits)
  from ConsumeAndReset_Inr [OF run] obtain row u h where
    row: "sql_first (\<lambda>r. pr_hash r = hashToken (rs_sha S) tok) (rw_tokens w) = Some row" "pr_used row = None" "t \<le> pr_expires row"
    and u: "sql_first (\<lambda>u. us_id u = pr_user row) (users (rw_users w)) = Some u" "\<not> bcmp (us_password u) pw" "bgen pw = Some h"
    and w1: "w1 = w\<lparr>rw_tokens := sql_update (\<lambda>r. pr_id r = pr_id row) (\<lambda>r. r\<lparr>pr_used := Some t\<rparr>) (rw_tokens w),
       rw_users := update_user (pr_user row) (\<lambda>r. r\<lparr>us_password := h, us_updated := t\<rparr>) (rw_users w),
       rw_sess := (rw_sess w)\<lparr>rows := sql_update (\<lambda>r. s_user r = pr_user row \<and> \<not> s_revoked r) (\<lambda>r. r\<lparr>s_revoked := True\<rparr>) (rows (rw_sess w))\<rparr>\<rparr>"
    by blast
  have "row \<in> set (rw_tokens w)" "pr_hash row = hashToken (rs_sha S) tok" using sql_first_Some [OF row(1)] by auto
  moreover have "u \<in> set (users (rw_users w))" "us_id u = pr_user row" using sql_first_Some [OF u(1)] by auto
  moreover have "rows (rw_sess w1) = sql_update (\<lambda>r. s_user r = pr_user row \<and> \<not> s_revoked r) (\<lambda>r. r\<lparr>s_revoked := True\<rparr>) (rows (rw_sess w))"
    by (simp add: w1)
  then have "token_view (rw_sess w1) t' k = (case token_view (rw_sess w) t' k of None \<Rightarrow> None
      | Some (v, x) \<Rightarrow> if v = pr_user row then None else Some (v, x))" for t' k
    by (rule view_revoking [OF assms(2) revokingI(3)]) (simp add: usable_def)
  moreover have "Reset (rs_sha S) bcmp' bgen' True t2 t2 tok pw' w2 = (w2, Inl None)"
  proof -
    from Consume_tokens [OF assms(1) run] have "one_link t w1" by blast
    from reset_run_links [OF assms(4) this] have w2: "one_link t2 w2" "keeps_rows (rw_tokens w1) (rw_tokens w2)" by auto
    have "row\<lparr>pr_used := Some t\<rparr> \<in> set (rw_tokens w1)"
      using \<open>row \<in> set (rw_tokens w)\<close> by (force simp: w1 sql_update_set)
    with w2(2) obtain p where "p \<in> set (rw_tokens w2)" "pr_hash p = pr_hash row" "pr_used p \<noteq> None"
      by (fastforce simp: keeps_rows_def)
    with w2(1) \<open>pr_hash row = _\<close> show ?thesis by (intro dead_link [of _ p]) (simp_all add: one_link_def)
  qed
  ultimately show ?thesis using row(2,3) u(2,3) by (auto simp: w1)
qed

text \<open>C25: only the newest link works. Once a new link for a user was created, no earlier link of that user can be
  redeemed at any later moment, whatever happens in between; such an attempt changes nothing.\<close>

theorem only_newest_link:
  assumes "one_link t w" "reset_Create (rs_sha S) ok rnd newid t t uid w = (w1, Inr raw)" "reset_run S w1 t w2 t2" "t < t2"
    and "q \<in> set (rw_tokens w)" "pr_user q = uid" "pr_hash q = hashToken (rs_sha S) tok"
  shows "Reset (rs_sha S) bcmp bgen True t2 t2 tok pw w2 = (w2, Inl None)"
proof -
  note new = reset_Create_tokens [OF assms(1,2)]
  from reset_run_links [OF assms(3)] new have w2: "one_link t2 w2" "keeps_rows (rw_tokens w1) (rw_tokens w2)" by auto
  let ?f = "\<lambda>r. if pr_user r = uid \<and> pr_used r = None \<and> t < pr_expires r then r\<lparr>pr_used := Some t\<rparr> else r"
  from assms(2) have "set (map ?f (rw_tokens w)) \<subseteq> set (rw_tokens w1)"
    by (auto simp: reset_Create_def Let_def sql_update_def split: option.splits if_splits)
  with assms(5) have "?f q \<in> set (rw_tokens w1)" by auto
  with w2(2) obtain p where p: "p \<in> set (rw_tokens w2)" "pr_hash p = pr_hash (?f q)" "pr_expires p = pr_expires (?f q)"
    "pr_used (?f q) \<noteq> None \<longrightarrow> pr_used p \<noteq> None" by (auto simp: keeps_rows_def)
  have "pr_used p \<noteq> None \<or> pr_expires p < t2"
    using p(3,4) assms(4,6) by (cases "pr_used q = None \<and> t < pr_expires q") auto
  moreover have "pr_hash p = hashToken (rs_sha S) tok" using p(2) assms(7) by (auto split: if_splits)
  ultimately show ?thesis using p(1) w2(1) by (intro dead_link [of _ p]) (simp_all add: one_link_def)
qed

definition demo_reset_service :: "(unit mem_redis, unit) reset_service" where
  "demo_reset_service = \<lparr>rs_rdb = None, rs_enc = None, rs_sha = bytes_of, rs_mail_ok = True\<rparr>"

definition demo_link :: reset_row where
  "demo_link = \<lparr>pr_id = ''1'', pr_user = ''a'', pr_hash = hashToken bytes_of (hex_encode [1]), pr_expires = go_hour, pr_used = None\<rparr>"

definition demo_reset_world :: "unit mem_redis reset_world" where
  "demo_reset_world = \<lparr>rw_tokens = [demo_link], rw_users = demo_users, rw_sess = demo_repo,
     rw_rd = \<lparr>mem_kv = (\<lambda>_. None), mem_up = True\<rparr>, rw_mail = []\<rparr>"

lemma demo_one_link: "one_link 0 demo_reset_world"
  by (simp add: one_link_def demo_reset_world_def)

lemma demo_redeemed: "\<exists>w1. Reset bytes_of (\<lambda>h p. h = p) Some True 0 0 (hex_encode [1]) ''new'' demo_reset_world = (w1, Inr ())"
  by (simp add: Reset_def ConsumeAndReset_def demo_reset_world_def demo_link_def sql_first_def demo_users_def new_row_def reset_answer_def)

theorem reset_link_single_use_witness:
  "\<exists>w1. Reset bytes_of (\<lambda>h p. h = p) Some True 0 0 (hex_encode [1]) ''new'' demo_reset_world = (w1, Inr ()) \<and>
    Reset bytes_of (\<lambda>h p. h = p) Some True 1 1 (hex_encode [1]) ''other'' w1 = (w1, Inl None)"
proof -
  obtain w1 where run: "Reset bytes_of (\<lambda>h p. h = p) Some True 0 0 (hex_encode [1]) ''new'' demo_reset_world = (w1, Inr ())"
    using demo_redeemed by blast
  have sha: "rs_sha demo_reset_service = bytes_of" by (simp add: demo_reset_service_def)
  have later: "reset_run demo_reset_service w1 0 w1 1" by (rule reset_run.wait [OF reset_run.start]) simp
  have wf: "wf_repo (rw_sess demo_reset_world)" by (simp add: demo_reset_world_def)
  from reset_link_single_use [OF demo_one_link wf run [folded sha] later, of "\<lambda>h p. h = p" Some "''other''"] run sha show ?thesis by auto
qed

theorem only_newest_link_witness:
  "\<exists>w1. reset_Create bytes_of True (Some [2]) ''2'' 0 0 ''a'' demo_reset_world = (w1, Inr (hex_encode [2])) \<and>
    Reset bytes_of (\<lambda>h p. h = p) Some True 1 1 (hex_encode [1]) ''new'' w1 = (w1, Inl None)"
proof -
  have ne: "hashToken bytes_of (hex_encode [2]) \<noteq> hashToken bytes_of (hex_encode [1])" by code_simp
  have sha: "rs_sha demo_reset_service = bytes_of" by (simp add: demo_reset_service_def)
  obtain w1 where run: "reset_Create bytes_of True (Some [2]) ''2'' 0 0 ''a'' demo_reset_world = (w1, Inr (hex_encode [2]))"
    using ne by (simp add: reset_Create_def demo_reset_world_def demo_link_def sql_update_def Let_def)
  have later: "reset_run demo_reset_service w1 0 w1 1" by (rule reset_run.wait [OF reset_run.start]) simp
  have q: "demo_link \<in> set (rw_tokens demo_reset_world)" "pr_user demo_link = ''a''"
    "pr_hash demo_link = hashToken (rs_sha demo_reset_service) (hex_encode [1])"
    by (simp_all add: demo_reset_world_def demo_link_def sha)
  from only_newest_link [OF demo_one_link run [folded sha] later _ q, of "\<lambda>h p. h = p" Some "''new''"] run sha show ?thesis by auto
qed

end
