(* ===== verification/Resilient_Mailer.thy ===== *)
theory Resilient_Mailer
  imports ZT_Prelude "HOL-Library.Multiset"
begin

text \<open>
  \<open>pkg/mailer/resilient.go\<close>: the bounded queue in front of the SMTP mailer. Workers take jobs from a buffered
  channel; a failed job waits in a timer and comes back with one more attempt on its count, directly or through
  a goroutine that waits for room in the channel. The underlying mailer is the argument that says which calls
  succeed. A Go \<open>select\<close> takes any of its ready cases: it is modelled by the set of what may happen.
\<close>

section \<open>Jobs and outcomes\<close>

record alert_job =
  aj_To :: string
  aj_AlertType :: string
  aj_IPAddress :: string
  aj_Location :: string
  aj_Details :: string
  aj_ResetURL :: string
  aj_Attempt :: int
  aj_MaxRetries :: int
  aj_BaseDelay :: duration

definition job_kind :: "alert_job \<Rightarrow> string" where
  "job_kind j = (if aj_ResetURL j \<noteq> '''' then ''password_reset'' else aj_AlertType j)"

text \<open>The call a job makes on the underlying mailer, and the call of \<open>auditLogFn\<close> for a job that failed for good.\<close>

datatype mail_call = ResetMail string string | AlertMail string string string string string

definition job_call :: "alert_job \<Rightarrow> mail_call" where
  "job_call job = (if aj_ResetURL job \<noteq> '''' then ResetMail (aj_To job) (aj_ResetURL job)
     else AlertMail (aj_To job) (aj_AlertType job) (aj_IPAddress job) (aj_Location job) (aj_Details job))"

type_synonym audit_call = "string \<times> string \<times> string \<times> string"

datatype job_outcome = Delivered | GaveUp audit_call alert_job | RetryAfter duration alert_job

definition processJob :: "(mail_call \<Rightarrow> bool) \<Rightarrow> alert_job \<Rightarrow> job_outcome" where
  "processJob sends job =
    (if sends (job_call job) then Delivered
     else
       (let job = job\<lparr>aj_Attempt := aj_Attempt job + 1\<rparr> in
        if aj_Attempt job \<ge> aj_MaxRetries job then GaveUp (aj_To job, job_kind job, aj_IPAddress job, aj_Details job) job
        else RetryAfter (wrap64 (aj_BaseDelay job * 2 ^ nat (aj_Attempt job - 1))) job))"

section \<open>The channel\<close>

text \<open>The mailer: the channel, its capacity and whether it is closed; whether the context is cancelled; the running
  workers, the armed timers and the goroutines that wait for room. The lists below them are a log: what was
  delivered, what was given up (with the audit call), and what a cancelled context made the code drop. A panic
  ends the process.\<close>

record mailer =
  ml_cap :: nat
  ml_BaseDelay :: duration
  ml_jobs :: "alert_job list"
  ml_closed :: bool
  ml_cancelled :: bool
  ml_workers :: nat
  ml_timers :: "(duration \<times> alert_job) list"
  ml_waiting :: "alert_job list"
  ml_delivered :: "alert_job list"
  ml_failed :: "(audit_call \<times> alert_job) list"
  ml_abandoned :: "alert_job list"
  ml_panicked :: bool

definition NewResilientMailer :: "nat \<Rightarrow> mailer" where
  "NewResilientMailer queueSize = \<lparr>ml_cap = queueSize, ml_BaseDelay = go_second, ml_jobs = [], ml_closed = False, ml_cancelled = False,
     ml_workers = 0, ml_timers = [], ml_waiting = [], ml_delivered = [], ml_failed = [], ml_abandoned = [], ml_panicked = False\<rparr>"

definition mailer_Start :: "nat \<Rightarrow> mailer \<Rightarrow> mailer" where
  "mailer_Start workers m = m\<lparr>ml_workers := ml_workers m + workers\<rparr>"

text \<open>What a send on the channel may do, and the two \<open>select\<close> statements around it: that of a submission, which
  drops the job when no case is ready, and that of a retry. A send on a closed channel is a ready case, and taking
  it panics.\<close>

datatype send_result = Enqueued | Dropped | Returned | Waiting | PanicClosed

definition channel_ready :: "mailer \<Rightarrow> send_result set" where
  "channel_ready m = (if ml_closed m then {PanicClosed} else if length (ml_jobs m) < ml_cap m then {Enqueued} else {})"

definition submit_select :: "mailer \<Rightarrow> send_result set" where
  "submit_select m = (if channel_ready m = {} then {Dropped} else channel_ready m)"

definition retry_select :: "mailer \<Rightarrow> send_result set" where
  "retry_select m =
    (let ready = (if ml_cancelled m then {Returned} else {}) \<union> channel_ready m
     in if ready = {} then {Waiting} else ready)"

definition send_effect :: "send_result \<Rightarrow> alert_job \<Rightarrow> mailer \<Rightarrow> mailer" where
  "send_effect r job m = (case r of
     Enqueued \<Rightarrow> m\<lparr>ml_jobs := ml_jobs m @ [job]\<rparr>
   | Dropped \<Rightarrow> m
   | Returned \<Rightarrow> m\<lparr>ml_abandoned := ml_abandoned m @ [job]\<rparr>
   | Waiting \<Rightarrow> m\<lparr>ml_waiting := ml_waiting m @ [job]\<rparr>
   | PanicClosed \<Rightarrow> m\<lparr>ml_panicked := True, ml_abandoned := ml_abandoned m @ [job]\<rparr>)"

definition default_delay :: "mailer \<Rightarrow> duration" where
  "default_delay m = (if ml_BaseDelay m = 0 then go_second else ml_BaseDelay m)"

definition alert_mail :: "mailer \<Rightarrow> string \<Rightarrow> string \<Rightarrow> string \<Rightarrow> string \<Rightarrow> string \<Rightarrow> alert_job" where
  "alert_mail m to alertType ip location details =
     \<lparr>aj_To = to, aj_AlertType = alertType, aj_IPAddress = ip, aj_Location = location, aj_Details = details,
      aj_ResetURL = '''', aj_Attempt = 0, aj_MaxRetries = 5, aj_BaseDelay = default_delay m\<rparr>"

definition reset_mail :: "mailer \<Rightarrow> string \<Rightarrow> string \<Rightarrow> alert_job" where
  "reset_mail m to resetURL =
     \<lparr>aj_To = to, aj_AlertType = '''', aj_IPAddress = '''', aj_Location = '''', aj_Details = '''',
      aj_ResetURL = resetURL, aj_Attempt = 0, aj_MaxRetries = 5, aj_BaseDelay = default_delay m\<rparr>"

text \<open>A submission has one possible outcome in every state. The answer is whether the call returned no error.\<close>

definition submit :: "alert_job \<Rightarrow> mailer \<Rightarrow> mailer \<times> bool" where
  "submit job m =
    (if PanicClosed \<in> submit_select m then (send_effect PanicClosed job m, False)
     else if Enqueued \<in> submit_select m then (send_effect Enqueued job m, True)
     else (send_effect Dropped job m, False))"

definition SendSecurityAlert :: "string \<Rightarrow> string \<Rightarrow> string \<Rightarrow> string \<Rightarrow> string \<Rightarrow> mailer \<Rightarrow> mailer \<times> bool" where
  "SendSecurityAlert to alertType ip location details m = submit (alert_mail m to alertType ip location details) m"

definition SendPasswordReset :: "string \<Rightarrow> string \<Rightarrow> mailer \<Rightarrow> mailer \<times> bool" where
  "SendPasswordReset to resetURL m = submit (reset_mail m to resetURL) m"

section \<open>Steps of a mailer\<close>

text \<open>A worker takes the first job and processes it.\<close>

definition worker_step :: "(mail_call \<Rightarrow> bool) \<Rightarrow> mailer \<Rightarrow> mailer" where
  "worker_step sends m = (case ml_jobs m of
     [] \<Rightarrow> m
   | job # jobs \<Rightarrow>
     (case processJob sends job of
        Delivered \<Rightarrow> m\<lparr>ml_jobs := jobs, ml_delivered := ml_delivered m @ [job]\<rparr>
      | GaveUp audit job' \<Rightarrow> m\<lparr>ml_jobs := jobs, ml_failed := ml_failed m @ [(audit, job')]\<rparr>
      | RetryAfter d job' \<Rightarrow> m\<lparr>ml_jobs := jobs, ml_timers := ml_timers m @ [(d, job')]\<rparr>))"

text \<open>The timer with index \<open>i\<close> fires; the select of the waiting goroutine with index \<open>i\<close> completes.\<close>

definition timer_step :: "nat \<Rightarrow> send_result \<Rightarrow> mailer \<Rightarrow> mailer" where
  "timer_step i r m = send_effect r (snd (ml_timers m ! i)) (m\<lparr>ml_timers := take i (ml_timers m) @ drop (Suc i) (ml_timers m)\<rparr>)"

definition waiting_step :: "nat \<Rightarrow> send_result \<Rightarrow> mailer \<Rightarrow> mailer" where
  "waiting_step i r m = send_effect r (ml_waiting m ! i) (m\<lparr>ml_waiting := take i (ml_waiting m) @ drop (Suc i) (ml_waiting m)\<rparr>)"

text \<open>The steps of the running mailer, and with \<open>stopping\<close> those of \<open>Stop\<close>: it cancels the context, then closes the
  channel, and the workers return.\<close>

inductive mail_step :: "bool \<Rightarrow> mailer \<Rightarrow> mailer \<Rightarrow> bool" for stopping where
  work: "\<not> ml_panicked m \<Longrightarrow> 0 < ml_workers m \<Longrightarrow> ml_jobs m \<noteq> [] \<Longrightarrow> mail_step stopping m (worker_step sends m)"
| fire: "\<not> ml_panicked m \<Longrightarrow> i < length (ml_timers m) \<Longrightarrow> r \<in> retry_select m \<Longrightarrow> mail_step stopping m (timer_step i r m)"
| room: "\<not> ml_panicked m \<Longrightarrow> i < length (ml_waiting m) \<Longrightarrow> r \<in> retry_select m \<Longrightarrow> r \<noteq> Waiting \<Longrightarrow>
    mail_step stopping m (waiting_step i r m)"
| cancel: "stopping \<Longrightarrow> \<not> ml_panicked m \<Longrightarrow> \<not> ml_cancelled m \<Longrightarrow> mail_step stopping m (m\<lparr>ml_cancelled := True\<rparr>)"
| close: "stopping \<Longrightarrow> \<not> ml_panicked m \<Longrightarrow> ml_cancelled m \<Longrightarrow> \<not> ml_closed m \<Longrightarrow> mail_step stopping m (m\<lparr>ml_closed := True\<rparr>)"
| exit: "\<not> ml_panicked m \<Longrightarrow> 0 < ml_workers m \<Longrightarrow> ml_cancelled m \<or> ml_closed m \<and> ml_jobs m = [] \<Longrightarrow>
    mail_step stopping m (m\<lparr>ml_workers := ml_workers m - 1\<rparr>)"

inductive_cases mail_stepE: "mail_step stopping m m'"

inductive mail_run :: "bool \<Rightarrow> mailer \<Rightarrow> nat \<Rightarrow> mailer \<Rightarrow> bool" for stopping m0 where
  start: "mail_run stopping m0 0 m0"
| step: "mail_run stopping m0 n m \<Longrightarrow> mail_step stopping m m' \<Longrightarrow> mail_run stopping m0 (Suc n) m'"

section \<open>What a job becomes\<close>

text \<open>The mail a job stands for, without its bookkeeping, and all mails a mailer has taken.\<close>

definition mail_of :: "alert_job \<Rightarrow> alert_job" where
  "mail_of j = j\<lparr>aj_Attempt := 0\<rparr>"

definition pending_jobs :: "mailer \<Rightarrow> alert_job list" where
  "pending_jobs m = ml_jobs m @ map snd (ml_timers m) @ ml_waiting m"

definition taken_mails :: "mailer \<Rightarrow> alert_job multiset" where
  "taken_mails m = mset (map mail_of (pending_jobs m @ ml_delivered m @ map snd (ml_failed m) @ ml_abandoned m))"

definition live_job :: "alert_job \<Rightarrow> bool" where
  "live_job j \<longleftrightarrow> 0 \<le> aj_Attempt j \<and> aj_Attempt j < aj_MaxRetries j"

definition spent_job :: "audit_call \<times> alert_job \<Rightarrow> bool" where
  "spent_job = (\<lambda>(a, j). aj_Attempt j = aj_MaxRetries j \<and> a = (aj_To j, job_kind j, aj_IPAddress j, aj_Details j))"

definition wf_mailer :: "mailer \<Rightarrow> bool" where
  "wf_mailer m \<longleftrightarrow> 0 < ml_cap m \<and> length (ml_jobs m) \<le> ml_cap m \<and>
    (\<forall>j \<in> set (pending_jobs m). live_job j) \<and> (\<forall>p \<in> set (ml_failed m). spent_job p) \<and>
    (ml_abandoned m \<noteq> [] \<longrightarrow> ml_cancelled m) \<and> (ml_panicked m \<longrightarrow> ml_closed m) \<and> (ml_closed m \<longrightarrow> ml_cancelled m)"

definition job_weight :: "alert_job \<Rightarrow> nat" where
  "job_weight j = 3 * nat (aj_MaxRetries j - aj_Attempt j)"

definition mail_weight :: "mailer \<Rightarrow> nat" where
  "mail_weight m = sum_list (map job_weight (ml_jobs m)) + sum_list (map (\<lambda>p. job_weight (snd p) + 2) (ml_timers m)) +
    sum_list (map (\<lambda>j. job_weight j + 1) (ml_waiting m)) + ml_workers m +
    (if ml_cancelled m then 0 else 1) + (if ml_closed m then 0 else 1)"

lemma mail_of_attempt [simp]: "mail_of (j\<lparr>aj_Attempt := n\<rparr>) = mail_of j"
  by (simp add: mail_of_def)

lemma remove_nth_sum:
  fixes f :: "'a \<Rightarrow> nat"
  assumes "i < length xs"
  shows "sum_list (map f xs) = sum_list (map f (take i xs)) + f (xs ! i) + sum_list (map f (drop (Suc i) xs))"
proof -
  have "sum_list (map f xs) = sum_list (map f (take i xs @ xs ! i # drop (Suc i) xs))"
    by (simp only: id_take_nth_drop [OF assms, symmetric])
  then show ?thesis by simp
qed

lemma remove_nth_mset:
  assumes "i < length xs"
  shows "mset xs = add_mset (xs ! i) (mset (take i xs) + mset (drop (Suc i) xs))"
proof -
  have "mset xs = mset (take i xs @ xs ! i # drop (Suc i) xs)"
    by (simp only: id_take_nth_drop [OF assms, symmetric])
  then show ?thesis by simp
qed

lemma remove_nth_sub: "x \<in> set (take i xs) \<union> set (drop (Suc i) xs) \<Longrightarrow> x \<in> set xs"
  by (auto dest: in_set_takeD in_set_dropD)

lemmas mailer_defs = wf_mailer_def pending_jobs_def retry_select_def channel_ready_def send_effect_def

lemma retry_select_cases:
  assumes "r \<in> retry_select m"
  obtains "r = Returned" "ml_cancelled m" | "r = PanicClosed" "ml_closed m"
    | "r = Enqueued" "length (ml_jobs m) < ml_cap m" "\<not> ml_closed m" | "r = Waiting" "\<not> ml_cancelled m"
  using assms by (auto simp: retry_select_def channel_ready_def split: if_splits)

lemma retry_select_update [simp]:
  "retry_select (m\<lparr>ml_timers := ts\<rparr>) = retry_select m" "retry_select (m\<lparr>ml_waiting := ws\<rparr>) = retry_select m"
  by (simp_all add: retry_select_def channel_ready_def)

lemma processJob_cases:
  assumes "live_job job"
  shows "case processJob sends job of Delivered \<Rightarrow> True
    | GaveUp audit j \<Rightarrow> spent_job (audit, j) \<and> mail_of j = mail_of job
    | RetryAfter d j \<Rightarrow> live_job j \<and> mail_of j = mail_of job \<and> job_weight j + 3 = job_weight job"
  using assms by (auto simp: processJob_def live_job_def spent_job_def job_weight_def Let_def job_kind_def)

lemma job_weight_pos: "live_job j \<Longrightarrow> 0 < job_weight j"
  by (simp add: live_job_def job_weight_def)

lemma worker_step_ok:
  assumes wf: "wf_mailer m" and jobs: "ml_jobs m \<noteq> []"
  shows "wf_mailer (worker_step sends m) \<and> taken_mails (worker_step sends m) = taken_mails m \<and>
    mail_weight (worker_step sends m) < mail_weight m"
proof -
  obtain job rest where J: "ml_jobs m = job # rest" using jobs by (cases "ml_jobs m") auto
  have live: "live_job job" using wf J by (simp add: wf_mailer_def pending_jobs_def)
  show ?thesis
  proof (cases "processJob sends job")
    case Delivered
    then show ?thesis using wf J live job_weight_pos [OF live]
      by (simp add: worker_step_def mailer_defs taken_mails_def mail_weight_def)
  next
    case (GaveUp audit j)
    then show ?thesis using wf J job_weight_pos [OF live] processJob_cases [OF live, of sends]
      by (simp add: worker_step_def mailer_defs taken_mails_def mail_weight_def)
  next
    case (RetryAfter d j)
    then show ?thesis using wf J processJob_cases [OF live, of sends]
      by (auto simp: worker_step_def mailer_defs taken_mails_def mail_weight_def)
  qed
qed

text \<open>A retry that is taken out of its list, with the outcome \<open>r\<close> of its \<open>select\<close>.\<close>

lemma send_effect_ok:
  assumes wf: "wf_mailer m" and live: "live_job j" and r: "r \<in> retry_select m"
  shows "wf_mailer (send_effect r j m) \<and> taken_mails (send_effect r j m) = add_mset (mail_of j) (taken_mails m) \<and>
    mail_weight (send_effect r j m) \<le> mail_weight m + job_weight j + (if r = Waiting then 1 else 0)"
  using r
proof (cases rule: retry_select_cases)
  case 3
  then show ?thesis using wf live by (auto simp: mailer_defs taken_mails_def mail_weight_def)
next
  case 4
  then show ?thesis using wf live by (auto simp: mailer_defs taken_mails_def mail_weight_def)
qed (use wf live in \<open>auto simp: mailer_defs taken_mails_def mail_weight_def\<close>)

lemma timer_step_ok:
  assumes wf: "wf_mailer m" and i: "i < length (ml_timers m)" and r: "r \<in> retry_select m"
  shows "wf_mailer (timer_step i r m) \<and> taken_mails (timer_step i r m) = taken_mails m \<and> mail_weight (timer_step i r m) < mail_weight m"
proof -
  define m1 where "m1 = m\<lparr>ml_timers := take i (ml_timers m) @ drop (Suc i) (ml_timers m)\<rparr>"
  have live: "live_job (snd (ml_timers m ! i))"
    using wf nth_mem [OF i] by (auto simp: wf_mailer_def pending_jobs_def)
  have 1: "wf_mailer m1" using wf unfolding m1_def
    by (auto simp: wf_mailer_def pending_jobs_def dest: in_set_takeD in_set_dropD)
  have 2: "taken_mails m = add_mset (mail_of (snd (ml_timers m ! i))) (taken_mails m1)"
    using remove_nth_mset [OF i] by (simp add: m1_def taken_mails_def pending_jobs_def mset_map [symmetric] del: mset_map)
      (simp add: mset_map)
  have 3: "mail_weight m = mail_weight m1 + job_weight (snd (ml_timers m ! i)) + 2"
    by (simp add: m1_def mail_weight_def remove_nth_sum [OF i, of "\<lambda>p. job_weight (snd p) + 2", simplified])
  have r1: "r \<in> retry_select m1" using r by (simp add: m1_def)
  show ?thesis using send_effect_ok [OF 1 live r1] 2 3
    unfolding timer_step_def m1_def [symmetric] by (auto split: if_splits)
qed

lemma waiting_step_ok:
  assumes wf: "wf_mailer m" and i: "i < length (ml_waiting m)" and r: "r \<in> retry_select m" "r \<noteq> Waiting"
  shows "wf_mailer (waiting_step i r m) \<and> taken_mails (waiting_step i r m) = taken_mails m \<and> mail_weight (waiting_step i r m) < mail_weight m"
proof -
  define m1 where "m1 = m\<lparr>ml_waiting := take i (ml_waiting m) @ drop (Suc i) (ml_waiting m)\<rparr>"
  have live: "live_job (ml_waiting m ! i)"
    using wf nth_mem [OF i] by (auto simp: wf_mailer_def pending_jobs_def)
  have 1: "wf_mailer m1" using wf unfolding m1_def
    by (auto simp: wf_mailer_def pending_jobs_def dest: in_set_takeD in_set_dropD)
  have 2: "taken_mails m = add_mset (mail_of (ml_waiting m ! i)) (taken_mails m1)"
    using remove_nth_mset [OF i] by (simp add: m1_def taken_mails_def pending_jobs_def)
  have 3: "mail_weight m = mail_weight m1 + job_weight (ml_waiting m ! i) + 1"
    by (simp add: m1_def mail_weight_def remove_nth_sum [OF i, of "\<lambda>j. job_weight j + 1", simplified])
  have r1: "r \<in> retry_select m1" using r by (simp add: m1_def)
  show ?thesis using send_effect_ok [OF 1 live r1] 2 3 r
    unfolding waiting_step_def m1_def [symmetric] by auto
qed

lemma mail_step_ok:
  assumes "mail_step stopping m m'" "wf_mailer m"
  shows "wf_mailer m' \<and> taken_mails m' = taken_mails m \<and> mail_weight m' < mail_weight m"
  using assms
proof (cases rule: mail_step.cases)
  case cancel
  then show ?thesis using assms(2) by (auto simp: wf_mailer_def pending_jobs_def taken_mails_def mail_weight_def)
next
  case close
  then show ?thesis using assms(2) by (auto simp: wf_mailer_def pending_jobs_def taken_mails_def mail_weight_def)
next
  case exit
  then show ?thesis using assms(2) by (auto simp: wf_mailer_def pending_jobs_def taken_mails_def mail_weight_def)
qed (auto simp: worker_step_ok timer_step_ok waiting_step_ok)

lemma mail_run_ok:
  assumes "mail_run stopping m0 n m" "wf_mailer m0"
  shows "wf_mailer m \<and> taken_mails m = taken_mails m0 \<and> n + mail_weight m \<le> mail_weight m0"
  using assms
proof (induction rule: mail_run.induct)
  case (step n m m')
  then show ?case using mail_step_ok [of stopping m m'] by fastforce
qed simp

section \<open>A mailer that is not being stopped\<close>

lemma running_step:
  assumes "mail_step False m m'" "\<not> ml_cancelled m" "wf_mailer m"
  shows "\<not> ml_cancelled m' \<and> ml_workers m' = ml_workers m"
  using assms
  by (cases rule: mail_step.cases)
    (auto simp: worker_step_def timer_step_def waiting_step_def send_effect_def wf_mailer_def
      split: list.splits job_outcome.splits send_result.splits)

lemma running_run:
  assumes "mail_run False m0 n m" "\<not> ml_cancelled m0" "wf_mailer m0"
  shows "\<not> ml_cancelled m \<and> ml_workers m = ml_workers m0"
  using assms
proof (induction rule: mail_run.induct)
  case (step n m m')
  then show ?case using running_step [of m m'] mail_run_ok [OF step.hyps(1)] by simp
qed simp

lemma retry_select_nonempty: "\<exists>r. r \<in> retry_select m"
  by (simp add: retry_select_def Let_def) blast

text \<open>A running mailer with a job left has a step.\<close>

lemma running_progress:
  assumes wf: "wf_mailer m" and run: "\<not> ml_cancelled m" "0 < ml_workers m" and job: "pending_jobs m \<noteq> []"
  shows "\<exists>m'. mail_step False m m'"
proof -
  have np: "\<not> ml_panicked m" and nc: "\<not> ml_closed m" using wf run by (auto simp: wf_mailer_def)
  consider "ml_jobs m \<noteq> []" | "ml_timers m \<noteq> []" | "ml_jobs m = []" "ml_waiting m \<noteq> []"
    using job by (auto simp: pending_jobs_def)
  then show ?thesis
  proof cases
    case 1
    then show ?thesis using work [OF np run(2)] by blast
  next
    case 2
    then show ?thesis using fire [OF np, of 0] retry_select_nonempty [of m] by blast
  next
    case 3
    then have "Enqueued \<in> retry_select m" using wf nc by (simp add: retry_select_def channel_ready_def wf_mailer_def)
    then show ?thesis using 3 room [OF np, of 0 Enqueued] by blast
  qed
qed

lemma new_mailer_wf: "0 < q \<Longrightarrow> wf_mailer (NewResilientMailer q)"
  by (simp add: NewResilientMailer_def wf_mailer_def pending_jobs_def)

lemma submit_wf: "wf_mailer m \<Longrightarrow> live_job j \<Longrightarrow> \<not> ml_closed m \<Longrightarrow> wf_mailer (fst (submit j m))"
  by (auto simp: submit_def submit_select_def channel_ready_def send_effect_def wf_mailer_def pending_jobs_def)

lemma fresh_mails_live: "live_job (reset_mail m to url)" "live_job (alert_mail m to t ip loc d)"
  by (simp_all add: live_job_def reset_mail_def alert_mail_def)

text \<open>C26: Every mail that a running mailer has taken is settled. The steps of its workers, timers and waiting goroutines
  keep the multiset of mails; a run has at most \<open>mail_weight\<close> steps, whichever sends fail and in whatever order
  the timers fire, so no mail is retried forever; and when no step is left, every mail has been delivered or was
  given up after exactly its \<open>MaxRetries\<close> attempts with the failure handed to the audit function.\<close>

theorem mails_settle:
  assumes wf: "wf_mailer m0" and running: "\<not> ml_cancelled m0" "0 < ml_workers m0" and run: "mail_run False m0 n m"
  shows "n \<le> mail_weight m0 \<and> taken_mails m = taken_mails m0 \<and>
    ((\<nexists>m'. mail_step False m m') \<longrightarrow>
      taken_mails m0 = mset (map mail_of (ml_delivered m)) + mset (map (mail_of \<circ> snd) (ml_failed m)) \<and>
      (\<forall>(audit, j) \<in> set (ml_failed m). aj_Attempt j = aj_MaxRetries j \<and> audit = (aj_To j, job_kind j, aj_IPAddress j, aj_Details j)))"
proof (intro conjI impI)
  note ok = mail_run_ok [OF run wf] and live = running_run [OF run running(1) wf]
  show "n \<le> mail_weight m0" and taken: "taken_mails m = taken_mails m0" using ok by simp_all
  assume "\<nexists>m'. mail_step False m m'"
  then have "pending_jobs m = []" using running_progress [of m] ok live running(2) by auto
  moreover have "ml_abandoned m = []" using ok live by (simp add: wf_mailer_def)
  ultimately show "taken_mails m0 = mset (map mail_of (ml_delivered m)) + mset (map (mail_of \<circ> snd) (ml_failed m))"
      "\<forall>(audit, j) \<in> set (ml_failed m). aj_Attempt j = aj_MaxRetries j \<and> audit = (aj_To j, job_kind j, aj_IPAddress j, aj_Details j)"
    using ok unfolding taken [symmetric] by (auto simp: taken_mails_def wf_mailer_def spent_job_def)
qed

definition demo_mailer :: mailer where
  "demo_mailer = fst (SendPasswordReset ''a@b.co'' ''u'' (mailer_Start 2 (NewResilientMailer 1000)))"

lemma demo_mailer_ok: "wf_mailer demo_mailer" "\<not> ml_cancelled demo_mailer" "0 < ml_workers demo_mailer"
  by (simp_all add: demo_mailer_def SendPasswordReset_def submit_def submit_select_def channel_ready_def mailer_Start_def
      NewResilientMailer_def send_effect_def wf_mailer_def pending_jobs_def fresh_mails_live)

theorem mails_settle_witness:
  "mail_run False demo_mailer 1 (worker_step (\<lambda>c. True) demo_mailer) \<and>
   taken_mails (worker_step (\<lambda>c. True) demo_mailer) = taken_mails demo_mailer \<and> 1 \<le> mail_weight demo_mailer \<and>
   taken_mails demo_mailer = mset (map mail_of (ml_delivered (worker_step (\<lambda>c. True) demo_mailer)))"
proof -
  have J: "ml_jobs demo_mailer \<noteq> []" "\<not> ml_panicked demo_mailer"
    by (simp_all add: demo_mailer_def SendPasswordReset_def submit_def submit_select_def channel_ready_def mailer_Start_def
      NewResilientMailer_def send_effect_def)
  have run: "mail_run False demo_mailer (Suc 0) (worker_step (\<lambda>c. True) demo_mailer)"
    by (rule mail_run.step [OF mail_run.start mail_step.work]) (use J demo_mailer_ok in simp_all)
  have rest: "pending_jobs (worker_step (\<lambda>c. True) demo_mailer) = []" "ml_failed (worker_step (\<lambda>c. True) demo_mailer) = []"
    "\<not> ml_cancelled (worker_step (\<lambda>c. True) demo_mailer)"  "\<not> ml_closed (worker_step (\<lambda>c. True) demo_mailer)"
    by (simp_all add: demo_mailer_def SendPasswordReset_def submit_def submit_select_def channel_ready_def mailer_Start_def
      NewResilientMailer_def send_effect_def worker_step_def processJob_def pending_jobs_def)
  have "\<nexists>m'. mail_step False (worker_step (\<lambda>c. True) demo_mailer) m'"
    using rest by (auto simp: pending_jobs_def elim: mail_step.cases)
  with mails_settle [OF demo_mailer_ok run] run rest(2)
  show ?thesis by simp
qed

section \<open>Stopping\<close>

text \<open>C27: Stopping the mailer can crash the process, and nothing else in it can. \<open>Stop\<close> closes the job channel while
  timers of failed jobs are still armed: from every state with an armed timer there is a run of \<open>Stop\<close> in which
  the \<open>select\<close> of the timer takes its send case on the closed channel and panics, although the context is
  cancelled; a mail submitted after \<open>Stop\<close> always panics. Conversely a process that has panicked has had its
  channel closed by \<open>Stop\<close>, so a mailer that is not stopped never panics. Every run of the shutdown is finite.\<close>

theorem stop_may_panic:
  assumes wf: "wf_mailer m0" and up: "\<not> ml_panicked m0"
  shows "(ml_timers m0 \<noteq> [] \<longrightarrow> (\<exists>n m. mail_run True m0 n m \<and> ml_panicked m)) \<and>
    (mail_run True m0 n m \<longrightarrow> n \<le> mail_weight m0 \<and> (ml_panicked m \<longrightarrow> ml_closed m) \<and>
      (ml_closed m \<longrightarrow> ml_panicked (fst (SendPasswordReset to url m)) \<and> ml_panicked (fst (SendSecurityAlert to t ip loc d m)))) \<and>
    (mail_run False m0 n m \<longrightarrow> \<not> ml_cancelled m0 \<longrightarrow> \<not> ml_panicked m)"
proof (intro conjI impI)
  assume T: "ml_timers m0 \<noteq> []"
  define m1 where "m1 = (if ml_cancelled m0 then m0 else m0\<lparr>ml_cancelled := True\<rparr>)"
  define m2 where "m2 = (if ml_closed m1 then m1 else m1\<lparr>ml_closed := True\<rparr>)"
  have r1: "\<exists>n. mail_run True m0 n m1" and u1: "\<not> ml_panicked m1" "ml_cancelled m1"
    using up mail_run.step [OF mail_run.start mail_step.cancel, of True m0] mail_run.start [of True m0] by (auto simp: m1_def)
  have r2: "\<exists>n. mail_run True m0 n m2"
  proof (cases "ml_closed m1")
    case False
    then show ?thesis using r1 mail_run.step [of True m0 _ m1, OF _ mail_step.close] u1 unfolding m2_def by fastforce
  qed (use r1 in \<open>simp add: m2_def\<close>)
  have u2: "\<not> ml_panicked m2" "ml_closed m2" "0 < length (ml_timers m2)"
    using T u1 by (auto simp: m2_def m1_def)
  moreover note r2
  moreover have "PanicClosed \<in> retry_select m2" using u2 by (simp add: retry_select_def channel_ready_def)
  ultimately have "\<exists>n. mail_run True m0 n (timer_step 0 PanicClosed m2)"
    using mail_run.step [of True m0 _ m2, OF _ mail_step.fire] by blast
  moreover have "ml_panicked (timer_step 0 PanicClosed m2)" by (simp add: timer_step_def send_effect_def)
  ultimately show "\<exists>n m. mail_run True m0 n m \<and> ml_panicked m" by blast
next
  assume run: "mail_run True m0 n m"
  show "n \<le> mail_weight m0" "ml_panicked m \<Longrightarrow> ml_closed m" using mail_run_ok [OF run wf] by (simp_all add: wf_mailer_def)
next
  assume "ml_closed m"
  then show "ml_panicked (fst (SendPasswordReset to url m))" "ml_panicked (fst (SendSecurityAlert to t ip loc d m))"
    by (simp_all add: SendPasswordReset_def SendSecurityAlert_def submit_def submit_select_def channel_ready_def send_effect_def)
next
  assume run: "mail_run False m0 n m" and "\<not> ml_cancelled m0"
  then show "\<not> ml_panicked m" using mail_run_ok [OF run wf] running_run [OF run _ wf] by (auto simp only: wf_mailer_def)
qed

theorem stop_may_panic_witness:
  "ml_timers (worker_step (\<lambda>c. False) demo_mailer) \<noteq> [] \<and>
   (\<exists>n m. mail_run True (worker_step (\<lambda>c. False) demo_mailer) n m \<and> ml_panicked m)"
proof -
  have T: "ml_timers (worker_step (\<lambda>c. False) demo_mailer) \<noteq> []" "\<not> ml_panicked (worker_step (\<lambda>c. False) demo_mailer)"
    "ml_jobs demo_mailer \<noteq> []"
    by (simp_all add: demo_mailer_def SendPasswordReset_def submit_def submit_select_def channel_ready_def mailer_Start_def
      NewResilientMailer_def send_effect_def worker_step_def processJob_def reset_mail_def)
  have "wf_mailer (worker_step (\<lambda>c. False) demo_mailer)" using worker_step_ok demo_mailer_ok T by blast
  from stop_may_panic [OF this T(2)] T(1) show ?thesis by blast
qed


end
