(* ===== verification/WebAuthn.thy ===== *)
theory WebAuthn
  imports Auth_Service Http_Core Go_Base64 Go_Utf8
begin

text \<open>
  \<open>internal/webauthn\<close>: passkeys. The credential table, the registration and login ceremonies with their
  single-use sessions in Redis, and the handlers. The libraries go-webauthn and google/uuid are parameters;
  the \<open>data\<close> column holds the JSON of a credential (\<open>None\<close>: text that does not decode to one).
\<close>

section \<open>The library\<close>

record wa_credential =
  cr_ID :: bytes
  cr_PublicKey :: bytes
  cr_Transport :: "string list"
  cr_AttestationType :: string
  cr_AAGUID :: bytes
  cr_SignCount :: "32 word"
  cr_CloneWarning :: bool

record wa_user =
  wu_id :: bytes
  wu_name :: string
  wu_displayName :: string
  wu_creds :: "wa_credential list"

text \<open>The options of a registration: the excluded credentials, resident key and user verification required, and
  whether direct attestation is asked for.\<close>

record reg_options =
  ro_Exclusions :: "(bytes \<times> string list) list"
  ro_ResidentKey :: bool
  ro_UserVerification :: bool
  ro_DirectAttestation :: bool

text \<open>\<open>'o\<close> are the options sent to the browser, \<open>'s\<close> session data, \<open>'c\<close> response bodies, \<open>'p\<close> and \<open>'q\<close> parsed
  attestation and assertion responses. The functions that begin a ceremony draw a random challenge, their first
  argument. \<open>ValidateDiscoverableLogin\<close> also reports the calls of its user handler, with
  the raw credential id and the user handle of each.\<close>

record ('o, 's, 'c, 'p, 'q) go_webauthn =
  gw_BeginRegistration :: "bytes \<Rightarrow> wa_user \<Rightarrow> reg_options \<Rightarrow> ('o \<times> 's) option"
  gw_ParseCreation :: "'c \<Rightarrow> 'p option"
  gw_CreateCredential :: "wa_user \<Rightarrow> 's \<Rightarrow> 'p \<Rightarrow> wa_credential option"
  gw_BeginLogin :: "bytes \<Rightarrow> wa_user \<Rightarrow> ('o \<times> 's) option"
  gw_BeginDiscoverable :: "bytes \<Rightarrow> bool \<Rightarrow> ('o \<times> 's) option"
  gw_ParseRequest :: "'c \<Rightarrow> 'q option"
  gw_ValidateLogin :: "wa_user \<Rightarrow> 's \<Rightarrow> 'q \<Rightarrow> wa_credential option"
  gw_ValidateDiscoverable :: "(bytes \<Rightarrow> bytes \<Rightarrow> wa_user option) \<Rightarrow> 's \<Rightarrow> 'q \<Rightarrow> (bytes \<times> bytes) list \<times> wa_credential option"

record go_uuid =
  uuid_Parse :: "string \<Rightarrow> bytes option"
  uuid_FromBytes :: "bytes \<Rightarrow> bytes option"
  uuid_String :: "bytes \<Rightarrow> string"
  uuid_cast :: "string \<Rightarrow> string option"

section \<open>Repository\<close>

text \<open>Rows of \<open>user_webauthn_credentials\<close>; \<open>credential_id\<close> is unique and \<open>name\<close> a \<open>VARCHAR(100)\<close>. \<open>uuid_cast\<close> above is
  the cast \<open>$1::uuid\<close> of a parameter, to the canonical text.\<close>

record cred_row =
  cw_id :: string
  cw_user :: string
  cw_credential_id :: string
  cw_data :: "wa_credential option"
  cw_sign_count :: int
  cw_name :: string
  cw_created :: instant
  cw_last_used :: "instant option"

datatype wa_error = WaNoCredentials | WaSessionNotFound | WaCredentialInUse | WaHardwareRequired | WaCloneDetected
  | WaNotFound | WaNameEmpty | WaFail

datatype wa_call = WaListData | WaListMeta | WaCount | WaExists | WaInsert | WaUpdate | WaDelete | WaRename

definition cred_Insert :: "bool \<Rightarrow> string \<Rightarrow> instant \<Rightarrow> string \<Rightarrow> string \<Rightarrow> wa_credential \<Rightarrow> int \<Rightarrow> string \<Rightarrow> cred_row list \<Rightarrow>
    cred_row list \<times> (wa_error + unit)" where
  "cred_Insert ok newid now userID credentialID data signCount name tb =
    (if \<not> ok \<or> credentialID \<in> cw_credential_id ` set tb \<or> newid \<in> cw_id ` set tb \<or> 100 < length (runes name) then (tb, Inl WaFail)
     else (tb @ [\<lparr>cw_id = newid, cw_user = userID, cw_credential_id = credentialID, cw_data = Some data, cw_sign_count = signCount,
       cw_name = name, cw_created = now, cw_last_used = None\<rparr>], Inr ()))"

definition cred_ListData :: "bool \<Rightarrow> string \<Rightarrow> cred_row list \<Rightarrow> wa_error + wa_credential option list" where
  "cred_ListData ok userID tb =
    (if ok then Inr (map cw_data (sort_key cw_created (filter (\<lambda>r. cw_user r = userID) tb))) else Inl WaFail)"

definition aaguidToString :: "go_uuid \<Rightarrow> bytes \<Rightarrow> string" where
  "aaguidToString U aaguid =
    (if length aaguid \<noteq> 16 then ''''
     else case uuid_FromBytes U aaguid of None \<Rightarrow> '''' | Some u \<Rightarrow> if u = replicate 16 0 then '''' else uuid_String U u)"

record credential_meta =
  cm_ID :: string
  cm_Name :: string
  cm_SignCount :: int
  cm_CreatedAt :: instant
  cm_LastUsedAt :: "instant option"
  cm_AAGUID :: string

definition cred_meta :: "go_uuid \<Rightarrow> cred_row \<Rightarrow> credential_meta" where
  "cred_meta U r = \<lparr>cm_ID = cw_id r, cm_Name = cw_name r, cm_SignCount = cw_sign_count r, cm_CreatedAt = cw_created r,
     cm_LastUsedAt = cw_last_used r,
     cm_AAGUID = (case cw_data r of None \<Rightarrow> '''' | Some c \<Rightarrow> if length (cr_AAGUID c) = 16 then aaguidToString U (cr_AAGUID c) else '''')\<rparr>"

definition cred_ListMeta :: "go_uuid \<Rightarrow> bool \<Rightarrow> string \<Rightarrow> cred_row list \<Rightarrow> wa_error + credential_meta list" where
  "cred_ListMeta U ok userID tb =
    (if ok then Inr (map (cred_meta U) (sort_key cw_created (filter (\<lambda>r. cw_user r = userID) tb))) else Inl WaFail)"

definition cred_Count :: "bool \<Rightarrow> string \<Rightarrow> cred_row list \<Rightarrow> wa_error + nat" where
  "cred_Count ok userID tb = (if ok then Inr (length (filter (\<lambda>r. cw_user r = userID) tb)) else Inl WaFail)"

definition CountByUsers :: "bool \<Rightarrow> string list \<Rightarrow> cred_row list \<Rightarrow> wa_error + (string \<rightharpoonup> nat)" where
  "CountByUsers ok userIDs tb =
    (if userIDs = [] then Inr Map.empty
     else if \<not> ok then Inl WaFail
     else Inr (\<lambda>u. let n = length (filter (\<lambda>r. cw_user r = u) tb) in if u \<in> set userIDs \<and> 0 < n then Some n else None))"

definition UpdateOnLogin :: "bool \<Rightarrow> instant \<Rightarrow> string \<Rightarrow> wa_credential \<Rightarrow> int \<Rightarrow> cred_row list \<Rightarrow> cred_row list \<times> (wa_error + unit)" where
  "UpdateOnLogin ok now credentialID data signCount tb =
    (if \<not> ok then (tb, Inl WaFail)
     else (sql_update (\<lambda>r. cw_credential_id r = credentialID)
       (\<lambda>r. r\<lparr>cw_data := Some data, cw_sign_count := signCount, cw_last_used := Some now\<rparr>) tb, Inr ()))"

text \<open>The predicate of \<open>Delete\<close> and \<open>Rename\<close>; a parameter that is no UUID is an error of the statement.\<close>

definition own_row :: "go_uuid \<Rightarrow> string \<Rightarrow> string \<Rightarrow> (cred_row \<Rightarrow> bool) option" where
  "own_row U i userID = (case (uuid_cast U i, uuid_cast U userID) of
     (Some a, Some b) \<Rightarrow> Some (\<lambda>r. cw_id r = a \<and> cw_user r = b) | _ \<Rightarrow> None)"

definition cred_Delete :: "go_uuid \<Rightarrow> bool \<Rightarrow> string \<Rightarrow> string \<Rightarrow> cred_row list \<Rightarrow> cred_row list \<times> (wa_error + unit)" where
  "cred_Delete U ok i userID tb =
    (case own_row U i userID of
       None \<Rightarrow> (tb, Inl WaFail)
     | Some P \<Rightarrow> if \<not> ok then (tb, Inl WaFail) else if \<not> list_ex P tb then (tb, Inl WaNotFound) else (filter (\<lambda>r. \<not> P r) tb, Inr ()))"

definition cred_Rename :: "go_uuid \<Rightarrow> bool \<Rightarrow> string \<Rightarrow> string \<Rightarrow> string \<Rightarrow> cred_row list \<Rightarrow> cred_row list \<times> (wa_error + unit)" where
  "cred_Rename U ok i userID name tb =
    (case own_row U i userID of
       None \<Rightarrow> (tb, Inl WaFail)
     | Some P \<Rightarrow> if \<not> ok \<or> 100 < length (runes name) then (tb, Inl WaFail) else if \<not> list_ex P tb then (tb, Inl WaNotFound)
         else (sql_update P (\<lambda>r. r\<lparr>cw_name := name\<rparr>) tb, Inr ()))"

definition CredentialExists :: "bool \<Rightarrow> string \<Rightarrow> cred_row list \<Rightarrow> wa_error + bool" where
  "CredentialExists ok credentialID tb = (if ok then Inr (credentialID \<in> cw_credential_id ` set tb) else Inl WaFail)"

section \<open>Service\<close>

record ('r, 'o, 's, 'c, 'p, 'q) wa_service =
  ws_rdb :: "('r, 's) redis"
  ws_wa :: "('o, 's, 'c, 'p, 'q) go_webauthn"
  ws_uuid :: go_uuid
  ws_settings :: "setting_reader option"

text \<open>Redis and the credential table; the calls of the database that succeed, the time, and what a request may draw:
  the row's id, the ceremony's id and the challenge.\<close>

record 'r wa_world =
  wa_rd :: 'r
  wa_tb :: "cred_row list"

record wa_env =
  we_ok :: "wa_call \<Rightarrow> bool"
  we_now :: instant
  we_newid :: string
  we_ceremony :: string
  we_challenge :: bytes

definition ceremonySessionTTL :: duration where "ceremonySessionTTL = 5 * go_minute"

definition regSessionKey :: "string \<Rightarrow> string" where "regSessionKey userID = ''webauthn:reg:'' @ userID"
definition loginSessionKey :: "string \<Rightarrow> string" where "loginSessionKey userID = ''webauthn:login:'' @ userID"
definition discoSessionKey :: "string \<Rightarrow> string" where "discoSessionKey ceremonyID = ''webauthn:disco:'' @ ceremonyID"

definition saveSession :: "('r, 's) redis \<Rightarrow> instant \<Rightarrow> string \<Rightarrow> 's \<Rightarrow> 'r \<Rightarrow> 'r \<times> (wa_error + unit)" where
  "saveSession R now key sd s = (case rSet R s now key (RDoc sd) ceremonySessionTTL of
     (s', ROk _) \<Rightarrow> (s', Inr ()) | (s', _) \<Rightarrow> (s', Inl WaFail))"

definition loadSession :: "('r, 's) redis \<Rightarrow> instant \<Rightarrow> string \<Rightarrow> 'r \<Rightarrow> 'r \<times> (wa_error + 's)" where
  "loadSession R now key s = (case rGetDel R s now key of
     (s', ROk (RDoc sd)) \<Rightarrow> (s', Inr sd) | (s', ROk _) \<Rightarrow> (s', Inl WaFail) | (s', _) \<Rightarrow> (s', Inl WaSessionNotFound))"

definition buildUser :: "('r, 'o, 's, 'c, 'p, 'q) wa_service \<Rightarrow> wa_env \<Rightarrow> string \<Rightarrow> string \<Rightarrow> string \<Rightarrow> cred_row list \<Rightarrow> wa_user option" where
  "buildUser S e userID name displayName tb =
    (case uuid_Parse (ws_uuid S) userID of
       None \<Rightarrow> None
     | Some uid \<Rightarrow>
       (case cred_ListData (we_ok e WaListData) userID tb of
          Inl _ \<Rightarrow> None
        | Inr blobs \<Rightarrow>
          if None \<in> set blobs then None
          else Some \<lparr>wu_id = uid, wu_name = name, wu_displayName = (if displayName = '''' then name else displayName),
            wu_creds = map the blobs\<rparr>))"

definition HasCredentials :: "bool \<Rightarrow> string \<Rightarrow> cred_row list \<Rightarrow> bool" where
  "HasCredentials ok userID tb = (case cred_Count ok userID tb of Inl _ \<Rightarrow> False | Inr n \<Rightarrow> 0 < n)"

definition RenameCredential :: "go_uuid \<Rightarrow> bool \<Rightarrow> string \<Rightarrow> string \<Rightarrow> string \<Rightarrow> cred_row list \<Rightarrow> cred_row list \<times> (wa_error + unit)" where
  "RenameCredential U ok i userID name tb =
    (let name = TrimSpace name in
     if name = '''' then (tb, Inl WaNameEmpty)
     else cred_Rename U ok i userID (if length (runes name) > 100 then first_runes 100 name else name) tb)"

definition requireHardware :: "('r, 'o, 's, 'c, 'p, 'q) wa_service \<Rightarrow> bool" where
  "requireHardware S = (case ws_settings S of None \<Rightarrow> False | Some st \<Rightarrow> GetBool st ''require_hardware_attestation'' False)"

definition BeginRegistration :: "('r, 'o, 's, 'c, 'p, 'q) wa_service \<Rightarrow> wa_env \<Rightarrow> string \<Rightarrow> string \<Rightarrow> string \<Rightarrow> 'r wa_world \<Rightarrow>
    'r wa_world \<times> (wa_error + 'o)" where
  "BeginRegistration S e userID name displayName w =
    (case buildUser S e userID name displayName (wa_tb w) of
       None \<Rightarrow> (w, Inl WaFail)
     | Some user \<Rightarrow>
       (let opts = \<lparr>ro_Exclusions = map (\<lambda>c. (cr_ID c, cr_Transport c)) (wu_creds user), ro_ResidentKey = True,
              ro_UserVerification = True, ro_DirectAttestation = requireHardware S\<rparr> in
        case gw_BeginRegistration (ws_wa S) (we_challenge e) user opts of
          None \<Rightarrow> (w, Inl WaFail)
        | Some (creation, session) \<Rightarrow>
          (case saveSession (ws_rdb S) (we_now e) (regSessionKey userID) session (wa_rd w) of
             (s', Inl er) \<Rightarrow> (w\<lparr>wa_rd := s'\<rparr>, Inl er) | (s', Inr _) \<Rightarrow> (w\<lparr>wa_rd := s'\<rparr>, Inr creation))))"

text \<open>The check of a new credential when hardware attestation is required: attestation with a certificate chain and
  an AAGUID that is not all zeroes.\<close>

definition hardware_ok :: "wa_credential \<Rightarrow> bool" where
  "hardware_ok cred \<longleftrightarrow> cr_AttestationType cred \<in> {''basic_full'', ''attca''} \<and> list_ex (\<lambda>b. b \<noteq> 0) (cr_AAGUID cred)"

definition FinishRegistration :: "('r, 'o, 's, 'c, 'p, 'q) wa_service \<Rightarrow> wa_env \<Rightarrow> string \<Rightarrow> string \<Rightarrow> string \<Rightarrow> string \<Rightarrow> 'c \<Rightarrow>
    'r wa_world \<Rightarrow> 'r wa_world \<times> (wa_error + unit)" where
  "FinishRegistration S e userID name displayName credName responseBody w =
    (case loadSession (ws_rdb S) (we_now e) (regSessionKey userID) (wa_rd w) of
       (s', Inl er) \<Rightarrow> (w\<lparr>wa_rd := s'\<rparr>, Inl er)
     | (s', Inr session) \<Rightarrow>
       (let w1 = w\<lparr>wa_rd := s'\<rparr> in
        case buildUser S e userID name displayName (wa_tb w) of
          None \<Rightarrow> (w1, Inl WaFail)
        | Some user \<Rightarrow>
          (case gw_ParseCreation (ws_wa S) responseBody of
             None \<Rightarrow> (w1, Inl WaFail)
           | Some parsed \<Rightarrow>
             (case gw_CreateCredential (ws_wa S) user session parsed of
                None \<Rightarrow> (w1, Inl WaFail)
              | Some cred \<Rightarrow>
                if requireHardware S \<and> \<not> hardware_ok cred then (w1, Inl WaHardwareRequired)
                else
                  (let credID = RawURLEncoding (cr_ID cred) in
                   case CredentialExists (we_ok e WaExists) credID (wa_tb w) of
                     Inl er \<Rightarrow> (w1, Inl er)
                   | Inr exists \<Rightarrow>
                     if exists then (w1, Inl WaCredentialInUse)
                     else (case cred_Insert (we_ok e WaInsert) (we_newid e) (we_now e) userID credID cred (uint (cr_SignCount cred)) credName (wa_tb w) of
                       (tb', r) \<Rightarrow> (w1\<lparr>wa_tb := tb'\<rparr>, r)))))))"

definition wa_svc_BeginLogin :: "('r, 'o, 's, 'c, 'p, 'q) wa_service \<Rightarrow> wa_env \<Rightarrow> string \<Rightarrow> string \<Rightarrow> string \<Rightarrow> 'r wa_world \<Rightarrow>
    'r wa_world \<times> (wa_error + 'o)" where
  "wa_svc_BeginLogin S e userID name displayName w =
    (case buildUser S e userID name displayName (wa_tb w) of
       None \<Rightarrow> (w, Inl WaFail)
     | Some user \<Rightarrow>
       if wu_creds user = [] then (w, Inl WaNoCredentials)
       else case gw_BeginLogin (ws_wa S) (we_challenge e) user of
           None \<Rightarrow> (w, Inl WaFail)
         | Some (assertion, session) \<Rightarrow>
           (case saveSession (ws_rdb S) (we_now e) (loginSessionKey userID) session (wa_rd w) of
              (s', Inl er) \<Rightarrow> (w\<lparr>wa_rd := s'\<rparr>, Inl er) | (s', Inr _) \<Rightarrow> (w\<lparr>wa_rd := s'\<rparr>, Inr assertion)))"

text \<open>The end of both login ceremonies: a validated credential with a regressed counter is refused, any other is
  stored with its new counter.\<close>

definition accept_assertion :: "wa_env \<Rightarrow> wa_credential \<Rightarrow> 'r wa_world \<Rightarrow> 'r wa_world \<times> (wa_error + unit)" where
  "accept_assertion e cred w =
    (if cr_CloneWarning cred then (w, Inl WaCloneDetected)
     else case UpdateOnLogin (we_ok e WaUpdate) (we_now e) (RawURLEncoding (cr_ID cred)) cred (uint (cr_SignCount cred)) (wa_tb w) of
         (tb', r) \<Rightarrow> (w\<lparr>wa_tb := tb'\<rparr>, r))"

definition wa_svc_FinishLogin :: "('r, 'o, 's, 'c, 'p, 'q) wa_service \<Rightarrow> wa_env \<Rightarrow> string \<Rightarrow> string \<Rightarrow> string \<Rightarrow> 'c \<Rightarrow>
    'r wa_world \<Rightarrow> 'r wa_world \<times> (wa_error + unit)" where
  "wa_svc_FinishLogin S e userID name displayName responseBody w =
    (case loadSession (ws_rdb S) (we_now e) (loginSessionKey userID) (wa_rd w) of
       (s', Inl er) \<Rightarrow> (w\<lparr>wa_rd := s'\<rparr>, Inl er)
     | (s', Inr session) \<Rightarrow>
       (let w1 = w\<lparr>wa_rd := s'\<rparr> in
        case buildUser S e userID name displayName (wa_tb w) of
          None \<Rightarrow> (w1, Inl WaFail)
        | Some user \<Rightarrow>
          (case gw_ParseRequest (ws_wa S) responseBody of
             None \<Rightarrow> (w1, Inl WaFail)
           | Some parsed \<Rightarrow>
             (case gw_ValidateLogin (ws_wa S) user session parsed of
                None \<Rightarrow> (w1, Inl WaFail) | Some cred \<Rightarrow> accept_assertion e cred w1))))"

text \<open>The answer carries the ceremony id beside the options.\<close>

definition BeginDiscoverableLogin :: "('r, 'o, 's, 'c, 'p, 'q) wa_service \<Rightarrow> wa_env \<Rightarrow> 'r wa_world \<Rightarrow>
    'r wa_world \<times> (wa_error + 'o \<times> string)" where
  "BeginDiscoverableLogin S e w =
    (case gw_BeginDiscoverable (ws_wa S) (we_challenge e) True of
       None \<Rightarrow> (w, Inl WaFail)
     | Some (assertion, session) \<Rightarrow>
       (case saveSession (ws_rdb S) (we_now e) (discoSessionKey (we_ceremony e)) session (wa_rd w) of
          (s', Inl er) \<Rightarrow> (w\<lparr>wa_rd := s'\<rparr>, Inl er) | (s', Inr _) \<Rightarrow> (w\<lparr>wa_rd := s'\<rparr>, Inr (assertion, we_ceremony e))))"

text \<open>The user handler of the passwordless login, and the variable \<open>resolvedUserID\<close> after its calls.\<close>

definition disco_handler :: "('r, 'o, 's, 'c, 'p, 'q) wa_service \<Rightarrow> wa_env \<Rightarrow> cred_row list \<Rightarrow> bytes \<Rightarrow> bytes \<Rightarrow> wa_user option" where
  "disco_handler S e tb rawID userHandle = (case uuid_FromBytes (ws_uuid S) userHandle of
     None \<Rightarrow> None | Some uid \<Rightarrow> buildUser S e (uuid_String (ws_uuid S) uid) '''' '''' tb)"

definition resolved_user :: "go_uuid \<Rightarrow> (bytes \<times> bytes) list \<Rightarrow> string" where
  "resolved_user U calls = foldl (\<lambda>res (_, userHandle). case uuid_FromBytes U userHandle of
     None \<Rightarrow> res | Some uid \<Rightarrow> uuid_String U uid) '''' calls"

definition FinishDiscoverableLogin :: "('r, 'o, 's, 'c, 'p, 'q) wa_service \<Rightarrow> wa_env \<Rightarrow> string \<Rightarrow> 'c \<Rightarrow>
    'r wa_world \<Rightarrow> 'r wa_world \<times> (wa_error + string)" where
  "FinishDiscoverableLogin S e ceremonyID responseBody w =
    (case loadSession (ws_rdb S) (we_now e) (discoSessionKey ceremonyID) (wa_rd w) of
       (s', Inl er) \<Rightarrow> (w\<lparr>wa_rd := s'\<rparr>, Inl er)
     | (s', Inr session) \<Rightarrow>
       (let w1 = w\<lparr>wa_rd := s'\<rparr> in
        case gw_ParseRequest (ws_wa S) responseBody of
          None \<Rightarrow> (w1, Inl WaFail)
        | Some parsed \<Rightarrow>
          (case gw_ValidateDiscoverable (ws_wa S) (disco_handler S e (wa_tb w)) session parsed of
             (calls, None) \<Rightarrow> (w1, Inl WaFail)
           | (calls, Some cred) \<Rightarrow>
             (case accept_assertion e cred w1 of
                (w2, Inl er) \<Rightarrow> (w2, Inl er) | (w2, Inr _) \<Rightarrow> (w2, Inr (resolved_user (ws_uuid S) calls))))))"

text \<open>What the authentication service sees of the passkey service (\<open>WebAuthnVerifier\<close>).\<close>

definition passkey_verifier :: "('r, 'o, 's, 'c, 'p, 'q) wa_service \<Rightarrow> wa_env \<Rightarrow> cred_row list \<Rightarrow>
    ('r wa_world, 'o \<times> string option, 'c) webauthn_verifier" where
  "passkey_verifier S e tb =
    \<lparr>wa_HasCredentials = (\<lambda>uid. HasCredentials (we_ok e WaCount) uid tb),
     wa_BeginLogin = (\<lambda>uid w. case wa_svc_BeginLogin S e uid '''' '''' w of (w', Inl _) \<Rightarrow> (w', None) | (w', Inr x) \<Rightarrow> (w', Some (x, None))),
     wa_FinishLogin = (\<lambda>uid c w. case wa_svc_FinishLogin S e uid '''' '''' c w of (w', r) \<Rightarrow> (w', is_ok r)),
     wa_BeginDiscoverable = (\<lambda>w. case BeginDiscoverableLogin S e w of (w', Inl _) \<Rightarrow> (w', None) | (w', Inr (x, cid)) \<Rightarrow> (w', Some (x, Some cid))),
     wa_FinishDiscoverable = (\<lambda>cid c w. case FinishDiscoverableLogin S e cid c w of (w', Inl _) \<Rightarrow> (w', None) | (w', Inr u) \<Rightarrow> (w', Some u))\<rparr>"

section \<open>Handlers\<close>

text \<open>The claims come from \<open>Authenticate\<close>; alerts are queued through the notifier, when one is configured. The decoded
  body is an argument, \<open>None\<close> when it does not decode or lacks the credential.\<close>

definition wa_alert :: "bool \<Rightarrow> http_request \<Rightarrow> claims \<Rightarrow> string \<Rightarrow> string \<Rightarrow> alert list" where
  "wa_alert notif r c kind details =
    (if notif then [\<lparr>al_to = Email c, al_type = kind, al_ip = ClientIP r, al_location = ''Unknown'', al_details = details\<rparr>] else [])"

definition RegisterBegin :: "('r, 'o, 's, 'c, 'p, 'q) wa_service \<Rightarrow> wa_env \<Rightarrow> http_request \<Rightarrow> 'r wa_world \<Rightarrow> 'r wa_world \<times> 'o http_reply" where
  "RegisterBegin S e r w =
    (case rq_claims r of
       None \<Rightarrow> (w, HErr 401 ''unauthorized'')
     | Some c \<Rightarrow> (case BeginRegistration S e (UserID c) (Email c) (Email c) w of
         (w', Inl _) \<Rightarrow> (w', HErr 500 ''internal_error'') | (w', Inr opts) \<Rightarrow> (w', HOk opts)))"

definition passkey_name :: "string \<Rightarrow> string" where
  "passkey_name raw =
    (let name = TrimSpace raw; name = (if name = '''' then ''Passkey'' else name)
     in if length (runes name) > 100 then first_runes 100 name else name)"

definition RegisterFinish :: "('r, 'o, 's, 'c, 'p, 'q) wa_service \<Rightarrow> bool \<Rightarrow> wa_env \<Rightarrow> http_request \<Rightarrow> (string \<times> 'c) option \<Rightarrow>
    'r wa_world \<Rightarrow> 'r wa_world \<times> alert list \<times> unit http_reply" where
  "RegisterFinish S notif e r body w =
    (case rq_claims r of
       None \<Rightarrow> (w, [], HErr 401 ''unauthorized'')
     | Some c \<Rightarrow>
       (case body of
          None \<Rightarrow> (w, [], HErr 400 ''invalid_request'')
        | Some (rawname, credential) \<Rightarrow>
          (let name = passkey_name rawname in
           case FinishRegistration S e (UserID c) (Email c) (Email c) name credential w of
             (w', Inr _) \<Rightarrow> (w', wa_alert notif r c ''passkey_registered'' (''A new passkey named \"'' @ name @ ''\" was registered on your account.''), HOk ())
           | (w', Inl er) \<Rightarrow> (w', [],
               if er = WaCredentialInUse then HErr 409 ''credential_already_registered''
               else if er = WaSessionNotFound then HErr 400 ''ceremony_expired''
               else if er = WaHardwareRequired then HErr 400 ''hardware_attestation_required''
               else HErr 400 ''invalid_credential''))))"

definition h_wa_List :: "go_uuid \<Rightarrow> bool \<Rightarrow> http_request \<Rightarrow> cred_row list \<Rightarrow> credential_meta list http_reply" where
  "h_wa_List U ok r tb =
    (case rq_claims r of
       None \<Rightarrow> HErr 401 ''unauthorized''
     | Some c \<Rightarrow> (case cred_ListMeta U ok (UserID c) tb of Inl _ \<Rightarrow> HErr 500 ''internal_error'' | Inr creds \<Rightarrow> HOk creds))"

definition h_wa_Delete :: "go_uuid \<Rightarrow> bool \<Rightarrow> bool \<Rightarrow> http_request \<Rightarrow> string \<Rightarrow> cred_row list \<Rightarrow> cred_row list \<times> alert list \<times> unit http_reply" where
  "h_wa_Delete U notif ok r i tb =
    (case rq_claims r of
       None \<Rightarrow> (tb, [], HErr 401 ''unauthorized'')
     | Some c \<Rightarrow>
       (case cred_Delete U ok i (UserID c) tb of
          (tb', Inr _) \<Rightarrow> (tb', wa_alert notif r c ''passkey_removed'' ''A passkey was removed from your account.'', HOk ())
        | (tb', Inl er) \<Rightarrow> (tb', [], if er = WaNotFound then HErr 404 ''not_found'' else HErr 500 ''internal_error'')))"

definition h_wa_Rename :: "go_uuid \<Rightarrow> bool \<Rightarrow> http_request \<Rightarrow> string \<Rightarrow> string option \<Rightarrow> cred_row list \<Rightarrow> cred_row list \<times> unit http_reply" where
  "h_wa_Rename U ok r i body tb =
    (case rq_claims r of
       None \<Rightarrow> (tb, HErr 401 ''unauthorized'')
     | Some c \<Rightarrow>
       (case body of
          None \<Rightarrow> (tb, HErr 400 ''invalid_request'')
        | Some raw \<Rightarrow>
          (let name = TrimSpace raw in
           if name = '''' then (tb, HErr 400 ''name_cannot_be_empty'')
           else case RenameCredential U ok i (UserID c) name tb of
               (tb', Inr _) \<Rightarrow> (tb', HOk ())
             | (tb', Inl er) \<Rightarrow> (tb', if er = WaNotFound then HErr 404 ''not_found'' else HErr 500 ''internal_error''))))"

section \<open>The contract of the libraries\<close>

text \<open>
  What the code relies on. \<open>signs key s q\<close> says that the assertion \<open>q\<close> was made for the challenge of session \<open>s\<close> with
  the private key of \<open>key\<close>; \<open>for_user\<close> is the user handle a session was begun for (\<open>None\<close>: any user) and \<open>verified s\<close>
  that the session demands user verification. A validated assertion comes from one of the offered credentials, whose
  id and key it keeps; its counter is the new one if it advanced (or is not used, both being zero) and carries the
  clone warning otherwise. The user handler is called once. UUIDs print and parse back.
\<close>

locale passkey_libs =
  fixes G :: "('o, 's, 'c, 'p, 'q) go_webauthn"
    and U :: go_uuid
    and signs :: "bytes \<Rightarrow> 's \<Rightarrow> 'q \<Rightarrow> bool"
    and for_user :: "'s \<Rightarrow> bytes option"
    and verified :: "'s \<Rightarrow> bool"
  assumes login_valid: "gw_ValidateLogin G u s q = Some c \<Longrightarrow> for_user s = Some (wu_id u) \<and>
      (\<exists>d \<in> set (wu_creds u). cr_ID d = cr_ID c \<and> cr_PublicKey d = cr_PublicKey c \<and> signs (cr_PublicKey d) s q \<and>
        (cr_CloneWarning c \<or> uint (cr_SignCount d) < uint (cr_SignCount c) \<or> cr_SignCount d = 0 \<and> cr_SignCount c = 0))"
    and disco_valid: "gw_ValidateDiscoverable G f s q = (calls, Some c) \<Longrightarrow> for_user s = None \<and>
      (\<exists>i h u. calls = [(i, h)] \<and> f i h = Some u \<and> (\<exists>d \<in> set (wu_creds u). cr_ID d = cr_ID c \<and> cr_PublicKey d = cr_PublicKey c \<and>
        signs (cr_PublicKey d) s q \<and>
        (cr_CloneWarning c \<or> uint (cr_SignCount d) < uint (cr_SignCount c) \<or> cr_SignCount d = 0 \<and> cr_SignCount c = 0)))"
    and begin_disco: "gw_BeginDiscoverable G ch True = Some (x, s) \<Longrightarrow> for_user s = None \<and> verified s"
    and uuid_roundtrip: "uuid_FromBytes U h = Some b \<Longrightarrow> uuid_Parse U (uuid_String U b) = Some b \<and> b = h"

section \<open>Well-formed credential tables\<close>

definition wf_cred :: "cred_row \<Rightarrow> bool" where
  "wf_cred r \<longleftrightarrow> length (runes (cw_name r)) \<le> 100 \<and>
    (\<forall>c. cw_data r = Some c \<longrightarrow> cw_credential_id r = RawURLEncoding (cr_ID c) \<and> cw_sign_count r = uint (cr_SignCount c))"

definition wf_creds :: "cred_row list \<Rightarrow> bool" where
  "wf_creds tb \<longleftrightarrow> distinct (map cw_id tb) \<and> distinct (map cw_credential_id tb) \<and> (\<forall>r \<in> set tb. wf_cred r)"

text \<open>\<open>r\<close> is what became of the row \<open>q\<close>: the same passkey of the same user, its counter not smaller.\<close>

definition cred_evolved :: "cred_row \<Rightarrow> cred_row \<Rightarrow> bool" where
  "cred_evolved q r \<longleftrightarrow> cw_id r = cw_id q \<and> cw_user r = cw_user q \<and> cw_credential_id r = cw_credential_id q \<and>
    cw_created r = cw_created q \<and> cw_sign_count q \<le> cw_sign_count r \<and> map_option cr_PublicKey (cw_data r) = map_option cr_PublicKey (cw_data q)"

lemma cred_evolved_refl [simp]: "cred_evolved r r"
  by (simp add: cred_evolved_def)

definition keeps_creds :: "cred_row list \<Rightarrow> cred_row list \<Rightarrow> bool" where
  "keeps_creds tb tb' \<longleftrightarrow> (\<forall>r \<in> set tb'. \<exists>q \<in> set tb. cred_evolved q r)"

lemma keeps_creds_refl [simp]: "keeps_creds tb tb"
  by (auto simp: keeps_creds_def intro: cred_evolved_refl)

text \<open>The assertion \<open>q\<close> for session \<open>sess\<close> was made with a registered passkey of user \<open>uid\<close> whose counter advanced (or
  is not in use), and exactly the row of that passkey is updated.\<close>

definition asserted_by :: "(bytes \<Rightarrow> 's \<Rightarrow> 'q \<Rightarrow> bool) \<Rightarrow> instant \<Rightarrow> 's \<Rightarrow> 'q \<Rightarrow> string \<Rightarrow> cred_row list \<Rightarrow> cred_row list \<Rightarrow> bool" where
  "asserted_by signs now sess q uid tb tb' \<longleftrightarrow> (\<exists>r d c. r \<in> set tb \<and> cw_user r = uid \<and> cw_data r = Some d \<and>
     signs (cr_PublicKey d) sess q \<and> cr_PublicKey c = cr_PublicKey d \<and>
     (uint (cr_SignCount d) < uint (cr_SignCount c) \<or> cr_SignCount d = 0 \<and> cr_SignCount c = 0) \<and>
     tb' = map (\<lambda>q. if q = r then r\<lparr>cw_data := Some c, cw_sign_count := uint (cr_SignCount c), cw_last_used := Some now\<rparr> else q) tb)"

lemma cred_evolved_trans: "cred_evolved p q \<Longrightarrow> cred_evolved q r \<Longrightarrow> cred_evolved p r"
  by (simp add: cred_evolved_def)

lemma buildUser_cred:
  assumes "buildUser S e uid n d tb = Some u" "c \<in> set (wu_creds u)"
  obtains r where "r \<in> set tb" "cw_user r = uid" "cw_data r = Some c"
proof -
  from assms have "Some c \<in> set (map cw_data (filter (\<lambda>r. cw_user r = uid) tb))"
    by (force simp: buildUser_def cred_ListData_def split: option.splits sum.splits if_splits)
  then show ?thesis using that by auto
qed

lemma same_credential:
  assumes "wf_creds tb" "r \<in> set tb" "cw_data r = Some d" "cr_ID d = cr_ID c" "q \<in> set tb"
  shows "cw_credential_id q = RawURLEncoding (cr_ID c) \<longleftrightarrow> q = r"
proof -
  have "cw_credential_id r = RawURLEncoding (cr_ID c)" using assms by (auto simp: wf_creds_def wf_cred_def)
  moreover have "inj_on cw_credential_id (set tb)" using assms(1) by (simp add: wf_creds_def distinct_map)
  ultimately show ?thesis using assms(2,5) by (metis inj_onD)
qed

text \<open>An accepted assertion replaces the data of exactly its own row.\<close>

lemma accept_assertion_ok:
  assumes wf: "wf_creds (wa_tb w)" and r: "r \<in> set (wa_tb w)" "cw_data r = Some d" "cr_ID d = cr_ID c" "cr_PublicKey d = cr_PublicKey c"
    and cnt: "cr_CloneWarning c \<or> uint (cr_SignCount d) < uint (cr_SignCount c) \<or> cr_SignCount d = 0 \<and> cr_SignCount c = 0"
    and sig: "signs (cr_PublicKey d) sess q" and run: "accept_assertion e c w = (w', res)"
  shows "wa_rd w' = wa_rd w \<and> wf_creds (wa_tb w') \<and> keeps_creds (wa_tb w) (wa_tb w') \<and>
    (res = Inr () \<longrightarrow> asserted_by signs (we_now e) sess q (cw_user r) (wa_tb w) (wa_tb w')) \<and> (res \<noteq> Inr () \<longrightarrow> wa_tb w' = wa_tb w)"
proof -
  let ?f = "\<lambda>q. if q = r then r\<lparr>cw_data := Some c, cw_sign_count := uint (cr_SignCount c), cw_last_used := Some (we_now e)\<rparr> else q"
  have upd: "sql_update (\<lambda>q. cw_credential_id q = RawURLEncoding (cr_ID c))
      (\<lambda>q. q\<lparr>cw_data := Some c, cw_sign_count := uint (cr_SignCount c), cw_last_used := Some (we_now e)\<rparr>) (wa_tb w) = map ?f (wa_tb w)"
    unfolding sql_update_def using same_credential [OF wf r(1-3)] by (intro map_cong) auto
  have cases: "(\<not> cr_CloneWarning c \<and> res = Inr () \<and> w' = w\<lparr>wa_tb := map ?f (wa_tb w)\<rparr>) \<or> (res \<noteq> Inr () \<and> w' = w)"
    using run upd by (auto simp: accept_assertion_def UpdateOnLogin_def split: if_splits)
  have wfr: "wf_cred r" "cw_credential_id r = RawURLEncoding (cr_ID c)" "cw_sign_count r = uint (cr_SignCount d)"
    using wf r by (auto simp: wf_creds_def wf_cred_def)
  have maps: "map cw_id (map ?f (wa_tb w)) = map cw_id (wa_tb w)" "map cw_credential_id (map ?f (wa_tb w)) = map cw_credential_id (wa_tb w)"
    by simp_all
  have wf': "wf_creds (map ?f (wa_tb w))" using wf wfr unfolding wf_creds_def maps by (auto simp: wf_cred_def)
  from cases show ?thesis
  proof (elim disjE conjE)
    assume c: "\<not> cr_CloneWarning c" "res = Inr ()" "w' = w\<lparr>wa_tb := map ?f (wa_tb w)\<rparr>"
    have "cred_evolved r (?f r)" using c(1) cnt r wfr by (auto simp: cred_evolved_def)
    then have "keeps_creds (wa_tb w) (map ?f (wa_tb w))" using r(1) by (auto simp: keeps_creds_def intro: cred_evolved_refl)
    moreover have "asserted_by signs (we_now e) sess q (cw_user r) (wa_tb w) (map ?f (wa_tb w))"
      unfolding asserted_by_def using r sig c(1) cnt by (intro exI [of _ r] exI [of _ d] exI [of _ c]) auto
    ultimately show ?thesis using c wf' by simp
  qed (use wf in simp)
qed

section \<open>The ceremonies\<close>

text \<open>The libraries together with a Redis server that answers.\<close>

locale passkey_service = passkey_libs "ws_wa S" "ws_uuid S" signs for_user verified + redis_up "ws_rdb S" see up
  for S :: "('r, 'o, 's, 'c, 'p, 'q) wa_service" and signs :: "bytes \<Rightarrow> 's \<Rightarrow> 'q \<Rightarrow> bool" and for_user :: "'s \<Rightarrow> bytes option"
    and verified :: "'s \<Rightarrow> bool" and see :: "'r \<Rightarrow> instant \<Rightarrow> string \<Rightarrow> 's rentry option" and up :: "'r \<Rightarrow> bool"
begin

lemma saveSession_ok:
  assumes "up s" "saveSession (ws_rdb S) t key sd s = (s', r)"
  shows "up s' \<and> r = Inr () \<and> see s' t = (see s t)(key \<mapsto> (RDoc sd, Some (t + ceremonySessionTTL)))"
proof -
  obtain s1 where s1: "rSet (ws_rdb S) s t key (RDoc sd) ceremonySessionTTL = (s1, ROk ())" "up s1"
    "see s1 t = (see s t)(key \<mapsto> (RDoc sd, Some (t + ceremonySessionTTL)))"
    by (rule set_effect [OF assms(1), of ceremonySessionTTL t key "RDoc sd"]) (simp add: ceremonySessionTTL_def )
  with assms(2) show ?thesis by (simp add: saveSession_def)
qed

text \<open>Loading a session takes it out of Redis, whatever comes of it.\<close>

lemma loadSession_ok:
  assumes "up s" "loadSession (ws_rdb S) t key s = (s', r)"
  shows "up s'" "\<And>sd. r = Inr sd \<Longrightarrow> \<exists>x. see s t key = Some (RDoc sd, x)" "\<And>sd. r = Inr sd \<Longrightarrow> see s' t = (see s t)(key := None)"
    "r = Inl WaSessionNotFound \<Longrightarrow> plain_entry (see s t key) \<Longrightarrow> see s t key = None \<and> see s' t = see s t"
proof -
  obtain s1 v where g: "rGetDel (ws_rdb S) s t key = (s1, v)" by fastforce
  with assms(2) have s': "s' = s1" by (auto simp: loadSession_def split: reply.splits rval.splits)
  show "up s'" using getdel_up [OF assms(1) g] s' by simp
  show "\<exists>x. see s t key = Some (RDoc sd, x)" "see s' t = (see s t)(key := None)" if "r = Inr sd" for sd
    using assms(2) g that getdel_ok [of s t key s1 "RDoc sd"] s' by (auto simp: loadSession_def split: reply.splits rval.splits)
  show "see s t key = None \<and> see s' t = see s t" if "r = Inl WaSessionNotFound" "plain_entry (see s t key)"
    using assms(2) g that getdel_up [OF assms(1) g] getdel_nil [of s t key s1] s' by (auto simp: loadSession_def split: reply.splits rval.splits)
qed

lemma loadSession_missing:
  assumes "see s t key = None" "loadSession (ws_rdb S) t key s = (s', r)"
  shows "r = Inl WaSessionNotFound"
proof -
  obtain s1 v where g: "rGetDel (ws_rdb S) s t key = (s1, v)" by fastforce
  with getdel_missing [OF assms(1) g] assms(2) show ?thesis by (auto simp: loadSession_def)
qed

text \<open>What a successful ceremony rests on: a live session, and an assertion made for it with a registered passkey of
  the user.\<close>

lemma FinishDiscoverable_cases:
  assumes wf: "wf_creds (wa_tb w)" and up: "up (wa_rd w)" and run: "FinishDiscoverableLogin S e cid body w = (w', res)"
    and l: "loadSession (ws_rdb S) (we_now e) (discoSessionKey cid) (wa_rd w) = (s1, rr)"
  shows "wa_rd w' = s1 \<and> up s1 \<and> wf_creds (wa_tb w') \<and> keeps_creds (wa_tb w) (wa_tb w') \<and>
      (\<forall>er. rr = Inl er \<longrightarrow> res = Inl er \<and> wa_tb w' = wa_tb w) \<and>
      (\<forall>uid. res = Inr uid \<longrightarrow> (\<exists>sess q. rr = Inr sess \<and> gw_ParseRequest (ws_wa S) body = Some q \<and>
        asserted_by signs (we_now e) sess q uid (wa_tb w) (wa_tb w')))"
proof -
  note up1 = loadSession_ok(1) [OF up l]
  let ?w1 = "w\<lparr>wa_rd := s1\<rparr>"
  consider (early) "wa_rd w' = s1" "wa_tb w' = wa_tb w" "\<nexists>uid. res = Inr uid" "\<forall>er. rr = Inl er \<longrightarrow> res = Inl er"
    | (valid) sess q calls c r2 where "rr = Inr sess" "gw_ParseRequest (ws_wa S) body = Some q"
      "gw_ValidateDiscoverable (ws_wa S) (disco_handler S e (wa_tb w)) sess q = (calls, Some c)"
      "accept_assertion e c ?w1 = (w', r2)" "\<forall>uid. res = Inr uid \<longrightarrow> r2 = Inr () \<and> uid = resolved_user (ws_uuid S) calls"
    using run l by (auto simp: FinishDiscoverableLogin_def Let_def split: sum.splits option.splits prod.splits)
  then show ?thesis
  proof cases
    case early
    then show ?thesis using up1 wf by auto
  next
    case (valid sess q calls c r2)
    from disco_valid [OF valid(3)] obtain i h u d where call: "calls = [(i, h)]" "disco_handler S e (wa_tb w) i h = Some u"
      and d: "d \<in> set (wu_creds u)" "cr_ID d = cr_ID c" "cr_PublicKey d = cr_PublicKey c" "signs (cr_PublicKey d) sess q"
        "cr_CloneWarning c \<or> uint (cr_SignCount d) < uint (cr_SignCount c) \<or> cr_SignCount d = 0 \<and> cr_SignCount c = 0" by blast
    from call(2) obtain b where b: "uuid_FromBytes (ws_uuid S) h = Some b"
      "buildUser S e (uuid_String (ws_uuid S) b) [] [] (wa_tb w) = Some u"
      by (auto simp: disco_handler_def split: option.splits)
    obtain r where r: "r \<in> set (wa_tb w)" "cw_user r = uuid_String (ws_uuid S) b" "cw_data r = Some d"
      by (rule buildUser_cred [OF b(2) d(1)])
    have res: "resolved_user (ws_uuid S) calls = cw_user r" using call(1) b(1) r(2) by (simp add: resolved_user_def)
    have wf1: "wf_creds (wa_tb ?w1)" and r1: "r \<in> set (wa_tb ?w1)" using wf r(1) by simp_all
    show ?thesis using accept_assertion_ok [where signs = signs and sess = sess and q = q, OF wf1 r1 r(3) d(2,3,5,4) valid(4)] valid(1,2,5) up1 res by auto
  qed
qed

lemma FinishLogin_cases:
  assumes wf: "wf_creds (wa_tb w)" and up: "up (wa_rd w)" and run: "wa_svc_FinishLogin S e uid n d body w = (w', res)"
    and l: "loadSession (ws_rdb S) (we_now e) (loginSessionKey uid) (wa_rd w) = (s1, rr)"
  shows "wa_rd w' = s1 \<and> up s1 \<and> wf_creds (wa_tb w') \<and> keeps_creds (wa_tb w) (wa_tb w') \<and>
      (\<forall>er. rr = Inl er \<longrightarrow> res = Inl er \<and> wa_tb w' = wa_tb w) \<and>
      (res = Inr () \<longrightarrow> (\<exists>sess q. rr = Inr sess \<and> gw_ParseRequest (ws_wa S) body = Some q \<and> for_user sess = uuid_Parse (ws_uuid S) uid \<and>
        asserted_by signs (we_now e) sess q uid (wa_tb w) (wa_tb w')))"
proof -
  note up1 = loadSession_ok(1) [OF up l]
  let ?w1 = "w\<lparr>wa_rd := s1\<rparr>"
  consider (early) "wa_rd w' = s1" "wa_tb w' = wa_tb w" "res \<noteq> Inr ()" "\<forall>er. rr = Inl er \<longrightarrow> res = Inl er"
    | (valid) sess q u c where "rr = Inr sess" "gw_ParseRequest (ws_wa S) body = Some q" "buildUser S e uid n d (wa_tb w) = Some u"
      "gw_ValidateLogin (ws_wa S) u sess q = Some c" "accept_assertion e c ?w1 = (w', res)"
    using run l by (auto simp: wa_svc_FinishLogin_def Let_def split: sum.splits option.splits prod.splits)
  then show ?thesis
  proof cases
    case early
    then show ?thesis using up1 wf by auto
  next
    case (valid sess q u c)
    from login_valid [OF valid(4)] obtain d where fu: "for_user sess = Some (wu_id u)" and d: "d \<in> set (wu_creds u)"
        "cr_ID d = cr_ID c" "cr_PublicKey d = cr_PublicKey c" "signs (cr_PublicKey d) sess q"
        "cr_CloneWarning c \<or> uint (cr_SignCount d) < uint (cr_SignCount c) \<or> cr_SignCount d = 0 \<and> cr_SignCount c = 0" by blast
    obtain r where r: "r \<in> set (wa_tb w)" "cw_user r = uid" "cw_data r = Some d"
      by (rule buildUser_cred [OF valid(3) d(1)])
    have wf1: "wf_creds (wa_tb ?w1)" and r1: "r \<in> set (wa_tb ?w1)" using wf r(1) by simp_all
    have "uuid_Parse (ws_uuid S) uid = Some (wu_id u)" using valid(3) by (auto simp: buildUser_def split: option.splits sum.splits if_splits)
    then show ?thesis using accept_assertion_ok [where signs = signs and sess = sess and q = q, OF wf1 r1 r(3) d(2,3,5,4) valid(5)] valid(1,2) up1 r(2) fu by auto
  qed
qed

end

section \<open>Histories\<close>

text \<open>Any interleaving of ceremonies and management requests with changes that other components make to Redis outside
  the keys of the ceremonies. \<open>X\<close> are the row ids in use so far; the database never draws one again.\<close>

inductive passkey_run :: "('r, 'o, 's, 'c, 'p, 'q) wa_service \<Rightarrow> ('r \<Rightarrow> instant \<Rightarrow> string \<Rightarrow> 's rentry option) \<Rightarrow> ('r \<Rightarrow> bool) \<Rightarrow>
    'r wa_world \<Rightarrow> instant \<Rightarrow> string set \<Rightarrow> 'r wa_world \<Rightarrow> instant \<Rightarrow> string set \<Rightarrow> bool"
  for S see up w0 t0 X0 where
  start: "passkey_run S see up w0 t0 X0 w0 t0 X0"
| wait: "passkey_run S see up w0 t0 X0 w t X \<Longrightarrow> t \<le> t' \<Longrightarrow> passkey_run S see up w0 t0 X0 w t' X"
| other: "passkey_run S see up w0 t0 X0 w t X \<Longrightarrow> up s' \<Longrightarrow> (\<And>k. HasPrefix k ''webauthn:'' \<Longrightarrow> see s' t k = see (wa_rd w) t k) \<Longrightarrow>
    passkey_run S see up w0 t0 X0 (w\<lparr>wa_rd := s'\<rparr>) t X"
| reg_begin: "passkey_run S see up w0 t0 X0 w t X \<Longrightarrow> we_now e = t \<Longrightarrow>
    passkey_run S see up w0 t0 X0 (fst (BeginRegistration S e uid n d w)) t X"
| reg_finish: "passkey_run S see up w0 t0 X0 w t X \<Longrightarrow> we_now e = t \<Longrightarrow> we_newid e \<notin> X \<Longrightarrow>
    passkey_run S see up w0 t0 X0 (fst (FinishRegistration S e uid n d cn body w)) t (insert (we_newid e) X)"
| login_begin: "passkey_run S see up w0 t0 X0 w t X \<Longrightarrow> we_now e = t \<Longrightarrow>
    passkey_run S see up w0 t0 X0 (fst (wa_svc_BeginLogin S e uid n d w)) t X"
| login_finish: "passkey_run S see up w0 t0 X0 w t X \<Longrightarrow> we_now e = t \<Longrightarrow>
    passkey_run S see up w0 t0 X0 (fst (wa_svc_FinishLogin S e uid n d body w)) t X"
| disco_begin: "passkey_run S see up w0 t0 X0 w t X \<Longrightarrow> we_now e = t \<Longrightarrow>
    passkey_run S see up w0 t0 X0 (fst (BeginDiscoverableLogin S e w)) t X"
| disco_finish: "passkey_run S see up w0 t0 X0 w t X \<Longrightarrow> we_now e = t \<Longrightarrow>
    passkey_run S see up w0 t0 X0 (fst (FinishDiscoverableLogin S e cid body w)) t X"
| delete: "passkey_run S see up w0 t0 X0 w t X \<Longrightarrow>
    passkey_run S see up w0 t0 X0 (w\<lparr>wa_tb := fst (cred_Delete (ws_uuid S) ok i uid (wa_tb w))\<rparr>) t X"
| rename: "passkey_run S see up w0 t0 X0 w t X \<Longrightarrow>
    passkey_run S see up w0 t0 X0 (w\<lparr>wa_tb := fst (RenameCredential (ws_uuid S) ok i uid name (wa_tb w))\<rparr>) t X"

definition wf_passkeys :: "'r wa_world \<Rightarrow> string set \<Rightarrow> bool" where
  "wf_passkeys w X \<longleftrightarrow> wf_creds (wa_tb w) \<and> cw_id ` set (wa_tb w) \<subseteq> X"

text \<open>The keys of the ceremonies hold no sets, and every stored session of a passwordless ceremony demands user
  verification.\<close>

definition ceremonies_ok :: "('r \<Rightarrow> instant \<Rightarrow> string \<Rightarrow> 's rentry option) \<Rightarrow> ('s \<Rightarrow> bool) \<Rightarrow> 'r \<Rightarrow> instant \<Rightarrow> bool" where
  "ceremonies_ok see verified s t \<longleftrightarrow> (\<forall>k. HasPrefix k ''webauthn:'' \<longrightarrow> plain_entry (see s t k)) \<and>
     (\<forall>cid sd x. see s t (discoSessionKey cid) = Some (RDoc sd, x) \<longrightarrow> verified sd)"

text \<open>The rows of \<open>tb'\<close> that existed in \<open>tb\<close> are what became of them.\<close>

definition rows_evolved :: "cred_row list \<Rightarrow> cred_row list \<Rightarrow> bool" where
  "rows_evolved tb tb' \<longleftrightarrow> (\<forall>r \<in> set tb'. cw_id r \<in> cw_id ` set tb \<longrightarrow> (\<exists>q \<in> set tb. cred_evolved q r))"

lemma session_keys [simp]: "HasPrefix (discoSessionKey c) ''webauthn:''" "HasPrefix (regSessionKey u) ''webauthn:''"
  "HasPrefix (loginSessionKey u) ''webauthn:''" "regSessionKey u \<noteq> discoSessionKey c" "loginSessionKey u \<noteq> discoSessionKey c"
  "discoSessionKey c \<noteq> regSessionKey u" "discoSessionKey c \<noteq> loginSessionKey u" "discoSessionKey c = discoSessionKey c' \<longleftrightarrow> c = c'"
  by (simp_all add: discoSessionKey_def regSessionKey_def loginSessionKey_def HasPrefix_def)

lemma rows_evolved_step:
  assumes "rows_evolved tb0 tb" "keeps_creds tb tb'"
  shows "rows_evolved tb0 tb'"
  unfolding rows_evolved_def
proof (intro ballI impI)
  fix r assume r: "r \<in> set tb'" "cw_id r \<in> cw_id ` set tb0"
  with assms(2) obtain q where q: "q \<in> set tb" "cred_evolved q r" by (auto simp: keeps_creds_def)
  with assms(1) r obtain p where "p \<in> set tb0" "cred_evolved p q" by (auto simp: rows_evolved_def cred_evolved_def)
  with q show "\<exists>q \<in> set tb0. cred_evolved q r" by (blast intro: cred_evolved_trans)
qed

lemma keeps_ids: "keeps_creds tb tb' \<Longrightarrow> cw_id ` set tb' \<subseteq> cw_id ` set tb"
  by (fastforce simp: keeps_creds_def cred_evolved_def)

lemma Delete_keeps:
  assumes "wf_creds tb"
  shows "wf_creds (fst (cred_Delete U ok i uid tb)) \<and> keeps_creds tb (fst (cred_Delete U ok i uid tb))"
  using assms
  by (auto simp: cred_Delete_def wf_creds_def keeps_creds_def distinct_map_filter intro: cred_evolved_refl split: option.splits)

lemma first_runes_bound: "length (runes (first_runes n s)) \<le> n"
  by (simp add: runes_first)

lemma Rename_keeps:
  assumes "wf_creds tb"
  shows "wf_creds (fst (RenameCredential U ok i uid name tb)) \<and> keeps_creds tb (fst (RenameCredential U ok i uid name tb))"
proof -
  have *: "wf_creds (sql_update P (\<lambda>r. r\<lparr>cw_name := m\<rparr>) tb) \<and> keeps_creds tb (sql_update P (\<lambda>r. r\<lparr>cw_name := m\<rparr>) tb)"
    if "length (runes m) \<le> 100" for P m
  proof
    show "wf_creds (sql_update P (\<lambda>r. r\<lparr>cw_name := m\<rparr>) tb)"
      using assms that by (auto simp: wf_creds_def map_sql_update sql_update_set wf_cred_def split: if_splits)
    have "cred_evolved r (r\<lparr>cw_name := m\<rparr>)" for r by (simp add: cred_evolved_def)
    then show "keeps_creds tb (sql_update P (\<lambda>r. r\<lparr>cw_name := m\<rparr>) tb)"
      by (auto simp: keeps_creds_def sql_update_def intro: cred_evolved_refl)
  qed
  show ?thesis using assms *
    by (auto simp: RenameCredential_def cred_Rename_def Let_def split: option.splits)
qed

text \<open>A registration adds at most the new row of its user, with the checked credential.\<close>

lemma FinishRegistration_rows:
  assumes "FinishRegistration S e uid n d cn body w = (w', res)" "wf_creds (wa_tb w)"
  shows "\<exists>s1 rr. loadSession (ws_rdb S) (we_now e) (regSessionKey uid) (wa_rd w) = (s1, rr) \<and> wa_rd w' = s1"
    and "res \<noteq> Inr () \<Longrightarrow> wa_tb w' = wa_tb w"
    and "res = Inr () \<Longrightarrow> \<exists>cred r. wa_tb w' = wa_tb w @ [r] \<and> cw_user r = uid \<and> cw_id r = we_newid e \<and> cw_name r = cn \<and> cw_data r = Some cred \<and>
      (requireHardware S \<longrightarrow> hardware_ok cred) \<and> wf_creds (wa_tb w')"
proof -
  show "\<exists>s1 rr. loadSession (ws_rdb S) (we_now e) (regSessionKey uid) (wa_rd w) = (s1, rr) \<and> wa_rd w' = s1"
    using assms(1) by (auto simp: FinishRegistration_def Let_def split: sum.splits option.splits prod.splits if_splits)
  show "wa_tb w' = wa_tb w" if "res \<noteq> Inr ()"
    using assms(1) that
    by (auto simp: FinishRegistration_def cred_Insert_def Let_def split: sum.splits option.splits prod.splits if_splits)
  assume "res = Inr ()"
  with assms(1) obtain cred where c: "requireHardware S \<longrightarrow> hardware_ok cred" "RawURLEncoding (cr_ID cred) \<notin> cw_credential_id ` set (wa_tb w)"
    "we_newid e \<notin> cw_id ` set (wa_tb w)" "length (runes cn) \<le> 100"
    "wa_tb w' = wa_tb w @ [\<lparr>cw_id = we_newid e, cw_user = uid, cw_credential_id = RawURLEncoding (cr_ID cred), cw_data = Some cred,
       cw_sign_count = uint (cr_SignCount cred), cw_name = cn, cw_created = we_now e, cw_last_used = None\<rparr>]"
    by (auto simp: FinishRegistration_def cred_Insert_def Let_def split: sum.splits option.splits prod.splits if_splits)
  moreover have "wf_creds (wa_tb w')" using assms(2) c(2-) by (auto simp: wf_creds_def wf_cred_def)
  ultimately show "\<exists>cred r. wa_tb w' = wa_tb w @ [r] \<and> cw_user r = uid \<and> cw_id r = we_newid e \<and> cw_name r = cn \<and> cw_data r = Some cred \<and>
      (requireHardware S \<longrightarrow> hardware_ok cred) \<and> wf_creds (wa_tb w')" by auto
qed

context passkey_service
begin

lemma ceremonies_save:
  assumes "ceremonies_ok see verified s t" "up s" "saveSession (ws_rdb S) t key sd s = (s', r)" "\<forall>c. key = discoSessionKey c \<longrightarrow> verified sd"
  shows "up s' \<and> ceremonies_ok see verified s' t"
  using saveSession_ok [OF assms(2,3)] assms(1,4) by (auto simp: ceremonies_ok_def)

lemma ceremonies_load:
  assumes "ceremonies_ok see verified s t" "up s" "HasPrefix key ''webauthn:''" "loadSession (ws_rdb S) t key s = (s', r)"
  shows "up s' \<and> ceremonies_ok see verified s' t"
proof -
  have plain: "plain_entry (see s t key)" using assms(1,3) by (simp add: ceremonies_ok_def)
  obtain s1 v where g: "rGetDel (ws_rdb S) s t key = (s1, v)" by fastforce
  with assms(4) have s': "s' = s1" by (auto simp: loadSession_def split: reply.splits rval.splits)
  have "see s1 t = (see s t)(key := None)"
  proof (cases v)
    case (ROk x)
    then show ?thesis using getdel_ok [of s t key s1 x] g by simp
  next
    case RNil
    then show ?thesis using getdel_nil [of s t key s1] g by auto
  qed (use getdel_up [OF assms(2) g] plain in simp)
  then show ?thesis using loadSession_ok(1) [OF assms(2,4)] s' assms(1) by (auto simp: ceremonies_ok_def)
qed

definition passkey_inv :: "cred_row list \<Rightarrow> 'r wa_world \<Rightarrow> instant \<Rightarrow> string set \<Rightarrow> bool" where
  "passkey_inv tb0 w t X \<longleftrightarrow> wf_passkeys w X \<and> cw_id ` set tb0 \<subseteq> X \<and> rows_evolved tb0 (wa_tb w) \<and> up (wa_rd w) \<and>
     ceremonies_ok see verified (wa_rd w) t"

lemma inv_keeps:
  assumes "passkey_inv tb0 w t X" "up (wa_rd w')" "ceremonies_ok see verified (wa_rd w') t" "wf_creds (wa_tb w')" "keeps_creds (wa_tb w) (wa_tb w')"
  shows "passkey_inv tb0 w' t X"
  using assms keeps_ids [OF assms(5)] rows_evolved_step [OF _ assms(5)] by (auto simp: passkey_inv_def wf_passkeys_def)

lemma inv_table:
  assumes "passkey_inv tb0 w t X" "up s'" "ceremonies_ok see verified s' t"
  shows "passkey_inv tb0 (w\<lparr>wa_rd := s'\<rparr>) t X"
  by (rule inv_keeps [OF assms(1)]) (use assms in \<open>auto simp: passkey_inv_def wf_passkeys_def\<close>)

lemma inv_begin:
  assumes inv: "passkey_inv tb0 w (we_now e) X"
  shows "passkey_inv tb0 (fst (BeginRegistration S e uid n d w)) (we_now e) X"
    "passkey_inv tb0 (fst (wa_svc_BeginLogin S e uid n d w)) (we_now e) X"
    "passkey_inv tb0 (fst (BeginDiscoverableLogin S e w)) (we_now e) X"
proof -
  have up: "up (wa_rd w)" "ceremonies_ok see verified (wa_rd w) (we_now e)" using inv by (simp_all add: passkey_inv_def)
  have save: "passkey_inv tb0 (w\<lparr>wa_rd := s'\<rparr>) (we_now e) X"
    if "saveSession (ws_rdb S) (we_now e) key sd (wa_rd w) = (s', r)" "\<forall>c. key = discoSessionKey c \<longrightarrow> verified sd" for key sd s' r
    using ceremonies_save [OF up(2,1) that] inv_table [OF inv] by blast
  show "passkey_inv tb0 (fst (BeginRegistration S e uid n d w)) (we_now e) X"
    using inv save by (auto simp: BeginRegistration_def Let_def split: option.splits prod.splits sum.splits)
  show "passkey_inv tb0 (fst (wa_svc_BeginLogin S e uid n d w)) (we_now e) X"
    using inv save by (auto simp: wa_svc_BeginLogin_def Let_def split: option.splits prod.splits sum.splits)
  show "passkey_inv tb0 (fst (BeginDiscoverableLogin S e w)) (we_now e) X"
    using inv save begin_disco [of "we_challenge e"]
    by (auto simp: BeginDiscoverableLogin_def Let_def split: option.splits prod.splits sum.splits)
qed

lemma inv_finish:
  assumes inv: "passkey_inv tb0 w (we_now e) X"
  shows "passkey_inv tb0 (fst (FinishDiscoverableLogin S e cid body w)) (we_now e) X"
    "passkey_inv tb0 (fst (wa_svc_FinishLogin S e uid n d body w)) (we_now e) X"
    "we_newid e \<notin> X \<Longrightarrow> passkey_inv tb0 (fst (FinishRegistration S e uid n d cn body w)) (we_now e) (insert (we_newid e) X)"
proof -
  have up: "up (wa_rd w)" "ceremonies_ok see verified (wa_rd w) (we_now e)" "wf_creds (wa_tb w)"
    using inv by (simp_all add: passkey_inv_def wf_passkeys_def)
  obtain s1 rr w1 res where l: "loadSession (ws_rdb S) (we_now e) (discoSessionKey cid) (wa_rd w) = (s1, rr)"
    and r: "FinishDiscoverableLogin S e cid body w = (w1, res)" by fastforce
  show "passkey_inv tb0 (fst (FinishDiscoverableLogin S e cid body w)) (we_now e) X"
    using FinishDiscoverable_cases [OF up(3,1) r l] ceremonies_load [OF up(2,1) _ l] r by (intro inv_keeps [OF inv]) auto
  obtain s2 rr2 w2 res2 where l2: "loadSession (ws_rdb S) (we_now e) (loginSessionKey uid) (wa_rd w) = (s2, rr2)"
    and r2: "wa_svc_FinishLogin S e uid n d body w = (w2, res2)" by fastforce
  show "passkey_inv tb0 (fst (wa_svc_FinishLogin S e uid n d body w)) (we_now e) X"
    using FinishLogin_cases [OF up(3,1) r2 l2] ceremonies_load [OF up(2,1) _ l2] r2 by (intro inv_keeps [OF inv]) auto
  assume new: "we_newid e \<notin> X"
  obtain w3 res3 where r3: "FinishRegistration S e uid n d cn body w = (w3, res3)" by fastforce
  obtain s3 rr3 where l3: "loadSession (ws_rdb S) (we_now e) (regSessionKey uid) (wa_rd w) = (s3, rr3)" "wa_rd w3 = s3"
    using FinishRegistration_rows(1) [OF r3 up(3)] by blast
  have rd: "up (wa_rd w3) \<and> ceremonies_ok see verified (wa_rd w3) (we_now e)" using ceremonies_load [OF up(2,1) _ l3(1)] l3(2) by simp
  have "passkey_inv tb0 w3 (we_now e) (insert (we_newid e) X)"
  proof (cases "res3 = Inr ()")
    case True
    then obtain row where row: "wa_tb w3 = wa_tb w @ [row]" "cw_id row = we_newid e" "wf_creds (wa_tb w3)"
      using FinishRegistration_rows(3) [OF r3 up(3)] by blast
    then show ?thesis using inv rd new by (auto simp: passkey_inv_def wf_passkeys_def rows_evolved_def)
  next
    case False
    then have "wa_tb w3 = wa_tb w" using FinishRegistration_rows(2) [OF r3 up(3)] by simp
    then show ?thesis using inv rd by (auto simp: passkey_inv_def wf_passkeys_def)
  qed
  then show "passkey_inv tb0 (fst (FinishRegistration S e uid n d cn body w)) (we_now e) (insert (we_newid e) X)" using r3 by simp
qed

lemma ceremonies_later: "ceremonies_ok see verified s t \<Longrightarrow> t \<le> t' \<Longrightarrow> ceremonies_ok see verified s t'"
  unfolding ceremonies_ok_def
proof (intro conjI allI impI)
  assume a: "(\<forall>k. HasPrefix k ''webauthn:'' \<longrightarrow> plain_entry (see s t k)) \<and>
      (\<forall>cid sd x. see s t (discoSessionKey cid) = Some (RDoc sd, x) \<longrightarrow> verified sd)" and t: "t \<le> t'"
  show "plain_entry (see s t' k)" if "HasPrefix k ''webauthn:''" for k
    using a that see_later [OF t, of s k] by (auto simp: live_def plain_entry_def split: option.splits rval.splits)
  show "verified sd" if "see s t' (discoSessionKey cid) = Some (RDoc sd, x)" for cid sd x
  proof -
    have "see s t (discoSessionKey cid) = Some (RDoc sd, x)"
      using that see_later [OF t, of s "discoSessionKey cid"] by (auto simp: live_def split: option.splits if_splits)
    with a show ?thesis by blast
  qed
qed

lemma passkey_run_inv:
  assumes "passkey_run S see up w0 t0 X0 w t X" "passkey_inv tb0 w0 t0 X0"
  shows "passkey_inv tb0 w t X"
  using assms
proof (induction rule: passkey_run.induct)
  case (wait w t X t')
  then show ?case using ceremonies_later by (auto simp: passkey_inv_def)
next
  case (other w t X s')
  then show ?case by (intro inv_table) (auto simp: passkey_inv_def ceremonies_ok_def)
next
  case (delete w t X ok i uid)
  then have inv: "passkey_inv tb0 w t X" by simp
  show ?case by (rule inv_keeps [OF inv]) (use inv Delete_keeps in \<open>auto simp: passkey_inv_def wf_passkeys_def\<close>)
next
  case (rename w t X ok i uid name)
  then have inv: "passkey_inv tb0 w t X" by simp
  show ?case by (rule inv_keeps [OF inv]) (use inv Rename_keeps in \<open>auto simp: passkey_inv_def wf_passkeys_def\<close>)
qed (auto intro: inv_begin inv_finish)

lemma passkey_history:
  assumes "passkey_run S see up w0 t0 X0 w t X" "wf_passkeys w0 X0" "up (wa_rd w0)" "ceremonies_ok see verified (wa_rd w0) t0"
  shows "wf_passkeys w X" "rows_evolved (wa_tb w0) (wa_tb w)" "up (wa_rd w)" "ceremonies_ok see verified (wa_rd w) t"
proof -
  have "passkey_inv (wa_tb w0) w0 t0 X0"
    using assms(2-4) by (auto simp: passkey_inv_def wf_passkeys_def rows_evolved_def intro: cred_evolved_refl)
  from passkey_run_inv [OF assms(1) this] show "wf_passkeys w X" "rows_evolved (wa_tb w0) (wa_tb w)" "up (wa_rd w)"
    "ceremonies_ok see verified (wa_rd w) t" by (simp_all add: passkey_inv_def)
qed

text \<open>A session can be loaded once.\<close>

lemma loaded_once:
  assumes "up s" "loadSession (ws_rdb S) t key s = (s1, Inr sd)" "t \<le> t'"
  shows "\<exists>s2. loadSession (ws_rdb S) t' key s1 = (s2, Inl WaSessionNotFound)"
proof -
  have "see s1 t key = None" using loadSession_ok(3) [OF assms(1,2) refl] by simp
  then have gone: "see s1 t' key = None" by (rule see_gone [OF assms(3)])
  obtain s2 r where l: "loadSession (ws_rdb S) t' key s1 = (s2, r)" by fastforce
  with loadSession_missing [OF gone l] show ?thesis by simp
qed

end

section \<open>Properties\<close>

text \<open>C30: what a passwordless login rests on. After any history of the passkey service, \<open>WebAuthnPasswordlessFinish\<close> of
  the authentication service returns tokens only if the address, country and device checks pass, the ceremony id
  names a stored session that demands user verification, the response is an assertion made for the challenge of that
  session with the private key of a passkey registered to the user that the tokens are for, the signature counter of
  the passkey advanced (or is not in use) and is stored with it, and the user is active. The session is gone: a later
  attempt with the same ceremony id finds none.\<close>

theorem passwordless_login_sound:
  assumes svc: "passkey_service S signs for_user verified see up"
    and run: "passkey_run S see up w0 t0 X0 (w_rd w) (we_now e) X"
    and init: "wf_passkeys w0 X0" "up (wa_rd w0)" "ceremonies_ok see verified (wa_rd w0) t0" and repo: "wf_repo (w_sess w)"
    and v: "a_webauthn A = Some (passkey_verifier S e (wa_tb (w_rd w)))"
    and fin: "WebAuthnPasswordlessFinish A ae cid body ip ua info w = (w', Inr pair)"
  shows "\<exists>u sess x q. access_gate A ip info = None \<and>
    see (wa_rd (w_rd w)) (we_now e) (discoSessionKey cid) = Some (RDoc sess, x) \<and> verified sess \<and>
    gw_ParseRequest (ws_wa S) body = Some q \<and>
    asserted_by signs (we_now e) sess q (u_ID u) (wa_tb (w_rd w)) (wa_tb (w_rd w')) \<and> u_IsActive u \<and>
    (\<exists>w1. issue_pair A ae u w1 = Inr pair) \<and>
    (\<forall>t. token_view (w_sess w') t (hashToken (c_sha A) (RefreshToken pair)) =
      (if t < e_now ae + sessionAbsoluteTimeout (c_settings A) then Some (u_ID u, e_now ae + sessionAbsoluteTimeout (c_settings A)) else None)) \<and>
    (\<forall>e2 body2. we_now e \<le> we_now e2 \<longrightarrow> (\<exists>w2. FinishDiscoverableLogin S e2 cid body2 (w_rd w') = (w2, Inl WaSessionNotFound)))"
proof -
  from fin v obtain s1 uid where gate: "access_gate A ip info = None"
    and d: "FinishDiscoverableLogin S e cid body (w_rd w) = (s1, Inr uid)"
    and f: "finish_for A ae uid ip ua info (w\<lparr>w_rd := s1\<rparr>) = (w', Inr pair)"
    by (auto simp: WebAuthnPasswordlessFinish_def passkey_verifier_def split: option.splits prod.splits sum.splits)
  obtain u where u: "u_ID u = uid" "u_IsActive u" "completeLogin A ae u ip ua info False (w\<lparr>w_rd := s1\<rparr>) = (w', Inr pair)"
    by (rule finish_for_ok [OF f])
  have repo1: "wf_repo (w_sess (w\<lparr>w_rd := s1\<rparr>))" using repo by simp
  note login = completeLogin_effect [OF u(3) repo1]
  note hist = passkey_service.passkey_history [OF svc run init]
  have inv: "wf_creds (wa_tb (w_rd w))" "up (wa_rd (w_rd w))" "ceremonies_ok see verified (wa_rd (w_rd w)) (we_now e)"
    using hist by (simp_all add: wf_passkeys_def)
  obtain s2 rr where l: "loadSession (ws_rdb S) (we_now e) (discoSessionKey cid) (wa_rd (w_rd w)) = (s2, rr)" by fastforce
  from passkey_service.FinishDiscoverable_cases [OF svc inv(1,2) d l] obtain sess q where s2: "wa_rd s1 = s2"
    and q: "rr = Inr sess" "gw_ParseRequest (ws_wa S) body = Some q" "asserted_by signs (we_now e) sess q uid (wa_tb (w_rd w)) (wa_tb s1)" by auto
  obtain x where x: "see (wa_rd (w_rd w)) (we_now e) (discoSessionKey cid) = Some (RDoc sess, x)"
    using passkey_service.loadSession_ok(2) [OF svc inv(2) l q(1)] by blast
  have again: "\<exists>w2. FinishDiscoverableLogin S e2 cid body2 s1 = (w2, Inl WaSessionNotFound)" if "we_now e \<le> we_now e2" for e2 body2
    using passkey_service.loaded_once [OF svc inv(2) l [unfolded q(1)] that] s2 by (auto simp: FinishDiscoverableLogin_def)
  have "verified sess" using inv(3) x unfolding ceremonies_ok_def by blast
  moreover have "w_rd w' = s1" using login(2) by simp
  ultimately show ?thesis
    using gate x q(2,3) u(1,2) login(5,6) again
    by (intro exI [of _ u] exI [of _ sess] exI [of _ x] exI [of _ q]) auto
qed


text \<open>registering a passkey. When \<open>RegisterFinish\<close> succeeds, exactly one row is added, for the authenticated user,
  with a name of at most 100 characters; when the setting requires hardware, its attestation has a certificate chain
  and its AAGUID is not zero; the owner is alerted; and the ceremony is used up, so that a second finish by the same
  user is answered as expired. When it is refused, the table is unchanged and nothing is sent.\<close>

lemma passkey_registration:
  assumes svc: "passkey_service S signs for_user verified see up" and wf: "wf_creds (wa_tb w)" and up: "up (wa_rd w)"
    and run: "RegisterFinish S notif e r body w = (w', alerts, reply)"
  shows "(reply \<noteq> HOk () \<longrightarrow> wa_tb w' = wa_tb w \<and> alerts = []) \<and>
    (reply = HOk () \<longrightarrow> (\<exists>c cred row. rq_claims r = Some c \<and> wa_tb w' = wa_tb w @ [row] \<and> wf_creds (wa_tb w') \<and>
      cw_user row = UserID c \<and> cw_data row = Some cred \<and> length (runes (cw_name row)) \<le> 100 \<and>
      (requireHardware S \<longrightarrow> cr_AttestationType cred \<in> {''basic_full'', ''attca''} \<and> (\<exists>b \<in> set (cr_AAGUID cred). b \<noteq> 0)) \<and>
      (notif \<longrightarrow> map al_to alerts = [Email c]) \<and>
      (\<forall>e2 body2. we_now e \<le> we_now e2 \<longrightarrow>
        (\<exists>w2. RegisterFinish S notif e2 r (Some body2) w' = (w2, [], HErr 400 ''ceremony_expired'')))))"
proof (cases "reply = HOk ()")
  case True
  with run obtain c raw cr where c: "rq_claims r = Some c" "body = Some (raw, cr)"
    and f: "FinishRegistration S e (UserID c) (Email c) (Email c) (passkey_name raw) cr w = (w', Inr ())"
    and al: "alerts = wa_alert notif r c ''passkey_registered'' (''A new passkey named \"'' @ passkey_name raw @ ''\" was registered on your account.'')"
    by (auto simp: RegisterFinish_def Let_def split: option.splits prod.splits sum.splits if_splits)
  from FinishRegistration_rows(3) [OF f wf refl] obtain cred row where row: "wa_tb w' = wa_tb w @ [row]" "cw_user row = UserID c"
    "cw_data row = Some cred" "requireHardware S \<longrightarrow> hardware_ok cred" "wf_creds (wa_tb w')" by blast
  obtain s1 rr where l: "loadSession (ws_rdb S) (we_now e) (regSessionKey (UserID c)) (wa_rd w) = (s1, rr)" "wa_rd w' = s1"
    using FinishRegistration_rows(1) [OF f wf] by blast
  with f obtain sd where sd: "rr = Inr sd" by (auto simp: FinishRegistration_def split: sum.splits)
  have again: "\<exists>w2. RegisterFinish S notif e2 r (Some body2) w' = (w2, [], HErr 400 ''ceremony_expired'')" if "we_now e \<le> we_now e2" for e2 body2
    using passkey_service.loaded_once [OF svc up l(1) [unfolded sd] that] l(2) c(1)
    by (cases body2) (auto simp: RegisterFinish_def FinishRegistration_def)
  have "length (runes (cw_name row)) \<le> 100" using row by (simp add: wf_creds_def wf_cred_def)
  then show ?thesis using True c row again al
    by (auto simp: hardware_ok_def wa_alert_def list_ex_iff)
next
  case False
  have same: "wa_tb w2 = wa_tb w" if "FinishRegistration S e uid n d cn cr w = (w2, Inl er)" for uid n d cn cr w2 er
    using FinishRegistration_rows(2) [OF that wf] by simp
  from False run have "wa_tb w' = wa_tb w \<and> alerts = []"
    by (auto simp: RegisterFinish_def Let_def dest: same split: option.splits prod.splits sum.splits if_splits)
  with False show ?thesis by simp
qed

section \<open>An instance for the witnesses\<close>

text \<open>Sessions are the user handle and the challenge; an assertion names a credential, the key it was signed with, the
  challenge, the counter and the user handle; a response is a new credential or an assertion.\<close>

type_synonym demo_sess = "bytes option \<times> bytes"

record demo_assertion =
  da_id :: bytes
  da_key :: bytes
  da_challenge :: bytes
  da_count :: "32 word"
  da_handle :: bytes

definition demo_check :: "wa_user \<Rightarrow> demo_sess \<Rightarrow> demo_assertion \<Rightarrow> wa_credential option" where
  "demo_check u s q = (case List.find (\<lambda>d. cr_ID d = da_id q \<and> cr_PublicKey d = da_key q) (wu_creds u) of
     None \<Rightarrow> None
   | Some d \<Rightarrow> if da_challenge q \<noteq> snd s then None
       else Some (d\<lparr>cr_SignCount := da_count q,
         cr_CloneWarning := \<not> (uint (cr_SignCount d) < uint (da_count q) \<or> cr_SignCount d = 0 \<and> da_count q = 0)\<rparr>))"

definition demo_wa :: "(unit, demo_sess, wa_credential + demo_assertion, wa_credential, demo_assertion) go_webauthn" where
  "demo_wa = \<lparr>gw_BeginRegistration = (\<lambda>ch u _. Some ((), (Some (wu_id u), ch))),
     gw_ParseCreation = (\<lambda>c. case c of Inl x \<Rightarrow> Some x | Inr _ \<Rightarrow> None),
     gw_CreateCredential = (\<lambda>u s c. Some c),
     gw_BeginLogin = (\<lambda>ch u. Some ((), (Some (wu_id u), ch))),
     gw_BeginDiscoverable = (\<lambda>ch uv. Some ((), (None, ch))),
     gw_ParseRequest = (\<lambda>c. case c of Inr x \<Rightarrow> Some x | Inl _ \<Rightarrow> None),
     gw_ValidateLogin = (\<lambda>u s q. if fst s = Some (wu_id u) then demo_check u s q else None),
     gw_ValidateDiscoverable = (\<lambda>f s q. ([(da_id q, da_handle q)],
       if fst s \<noteq> None then None else case f (da_id q) (da_handle q) of None \<Rightarrow> None | Some u \<Rightarrow> demo_check u s q))\<rparr>"

definition demo_uuid :: go_uuid where
  "demo_uuid = \<lparr>uuid_Parse = (\<lambda>s. Some (bytes_of s)), uuid_FromBytes = (\<lambda>h. if bytes_of (string_of h) = h then Some h else None),
     uuid_String = string_of, uuid_cast = Some\<rparr>"

definition demo_ws :: "(demo_sess mem_redis, unit, demo_sess, wa_credential + demo_assertion, wa_credential, demo_assertion) wa_service" where
  "demo_ws = \<lparr>ws_rdb = mem_server, ws_wa = demo_wa, ws_uuid = demo_uuid, ws_settings = None\<rparr>"

lemma demo_ws_simps [simp]: "ws_rdb demo_ws = mem_server" "ws_wa demo_ws = demo_wa" "ws_uuid demo_ws = demo_uuid" "ws_settings demo_ws = None"
  by (simp_all add: demo_ws_def)

definition demo_signs :: "bytes \<Rightarrow> demo_sess \<Rightarrow> demo_assertion \<Rightarrow> bool" where
  "demo_signs k s q \<longleftrightarrow> k = da_key q \<and> da_challenge q = snd s"

lemma demo_check_ok:
  "demo_check u s q = Some c \<Longrightarrow> \<exists>d \<in> set (wu_creds u). cr_ID d = cr_ID c \<and> cr_PublicKey d = cr_PublicKey c \<and>
    demo_signs (cr_PublicKey d) s q \<and>
    (cr_CloneWarning c \<or> uint (cr_SignCount d) < uint (cr_SignCount c) \<or> cr_SignCount d = 0 \<and> cr_SignCount c = 0)"
  by (auto simp: demo_check_def demo_signs_def find_Some_iff split: option.splits if_splits)

lemma demo_libs: "passkey_libs demo_wa demo_uuid demo_signs fst (\<lambda>s. fst s = None)"
proof (unfold_locales, goal_cases)
  case (1 u s q c)
  then show ?case using demo_check_ok [of u s q c] by (auto simp: demo_wa_def split: if_splits)
next
  case (2 f s q calls c)
  then show ?case using demo_check_ok [of _ s q c] by (fastforce simp: demo_wa_def split: if_splits option.splits)
next
  case (4 h b)
  then show ?case by (auto simp: demo_uuid_def split: if_splits)
qed (auto simp: demo_wa_def)

interpretation demo_passkeys: passkey_service demo_ws demo_signs fst "\<lambda>s. fst s = None" mem_see mem_up
  by (rule passkey_service.intro) (simp_all add: demo_libs mem.redis_up_axioms)

lemmas demo_passkey_service = demo_passkeys.passkey_service_axioms

definition demo_cred :: wa_credential where
  "demo_cred = \<lparr>cr_ID = [1], cr_PublicKey = [7], cr_Transport = [], cr_AttestationType = ''none'', cr_AAGUID = [], cr_SignCount = 3, cr_CloneWarning = False\<rparr>"

definition demo_cred_row :: cred_row where
  "demo_cred_row = \<lparr>cw_id = ''r1'', cw_user = ''a'', cw_credential_id = RawURLEncoding [1], cw_data = Some demo_cred, cw_sign_count = 3,
     cw_name = [], cw_created = 0, cw_last_used = None\<rparr>"

definition demo_we :: wa_env where
  "demo_we = \<lparr>we_ok = (\<lambda>_. True), we_now = 0, we_newid = ''r2'', we_ceremony = ''z'', we_challenge = [9]\<rparr>"

definition demo_wa_world :: "demo_sess mem_redis wa_world" where
  "demo_wa_world = \<lparr>wa_rd = \<lparr>mem_kv = (\<lambda>_. None), mem_up = True\<rparr>, wa_tb = [demo_cred_row]\<rparr>"

definition demo_begun :: "demo_sess mem_redis wa_world" where
  "demo_begun = fst (BeginDiscoverableLogin demo_ws demo_we demo_wa_world)"

definition demo_answer :: "wa_credential + demo_assertion" where
  "demo_answer = Inr \<lparr>da_id = [1], da_key = [7], da_challenge = [9], da_count = 4, da_handle = bytes_of ''a''\<rparr>"

definition demo_pk_auth :: "(demo_sess mem_redis wa_world, nat, nat, sym_token, unit \<times> string option, wa_credential + demo_assertion) auth_service" where
  "demo_pk_auth = \<lparr>c_rdb = None, c_settings = None, c_geoip = None, c_mailer = False, c_sha = bytes_of,
     a_jwt = sym_jwt, a_ks = demo_keys, a_enc = None, a_bcrypt = (\<lambda>h p. h = p), a_dummy = ''x'', a_mfa = None,
     a_webauthn = Some (passkey_verifier demo_ws demo_we (wa_tb demo_begun)), a_sa = None, a_oidc = None\<rparr>"

definition demo_pk_world :: "demo_sess mem_redis wa_world auth_world" where
  "demo_pk_world = \<lparr>w_rd = demo_begun, w_mail = [], w_sess = empty_repo, w_mfa = (\<lambda>_. None), w_users = demo_users\<rparr>"

lemma demo_begun_eq: "demo_begun = \<lparr>wa_rd = \<lparr>mem_kv = [discoSessionKey ''z'' \<mapsto> (RDoc (None, [9]), Some ceremonySessionTTL)], mem_up = True\<rparr>,
    wa_tb = [demo_cred_row]\<rparr>"
  by (simp add: demo_begun_def BeginDiscoverableLogin_def demo_we_def demo_wa_def saveSession_def mem_server_def guard_up_def mem_put_def
      demo_wa_world_def)

lemma demo_start: "wf_passkeys demo_wa_world {''r1''}" "mem_up (wa_rd demo_wa_world)"
  "ceremonies_ok mem_see (\<lambda>s. fst s = None) (wa_rd demo_wa_world) 0"
  by (simp_all add: demo_wa_world_def wf_passkeys_def wf_creds_def wf_cred_def demo_cred_row_def demo_cred_def ceremonies_ok_def mem_see_def)

lemma demo_history: "passkey_run demo_ws mem_see mem_up demo_wa_world 0 {''r1''} demo_begun 0 {''r1''}"
  unfolding demo_begun_def by (rule passkey_run.disco_begin [OF passkey_run.start]) (simp add: demo_we_def)

lemma demo_assertion_ok: "\<exists>s'. FinishDiscoverableLogin demo_ws demo_we ''z'' demo_answer demo_begun = (s', Inr ''a'')"
proof -
  have l: "\<exists>s'. loadSession mem_server 0 (discoSessionKey ''z'') (wa_rd demo_begun) = (s', Inr (None, [9]))"
    by (simp add: demo_begun_eq loadSession_def mem_server_def guard_up_def mem_see_def ceremonySessionTTL_def)
  have u: "buildUser demo_ws demo_we ''a'' [] [] [demo_cred_row] = Some \<lparr>wu_id = bytes_of ''a'', wu_name = [], wu_displayName = [], wu_creds = [demo_cred]\<rparr>"
    by (simp add: buildUser_def demo_uuid_def cred_ListData_def demo_we_def demo_cred_row_def)
  show ?thesis using l u
    by (auto simp: FinishDiscoverableLogin_def demo_we_def demo_answer_def demo_wa_def disco_handler_def demo_uuid_def demo_begun_eq
        demo_check_def demo_cred_def accept_assertion_def UpdateOnLogin_def resolved_user_def Let_def)
qed

lemma demo_pk_login: "\<exists>w' pair. WebAuthnPasswordlessFinish demo_pk_auth demo_env ''z'' demo_answer '''' ''ua'' [] demo_pk_world = (w', Inr pair)"
proof -
  obtain s' where f: "FinishDiscoverableLogin demo_ws demo_we ''z'' demo_answer demo_begun = (s', Inr ''a'')" using demo_assertion_ok by blast
  let ?w = "demo_pk_world\<lparr>w_rd := s'\<rparr>"
  have find: "findByID demo_pk_auth demo_env ''a'' ?w = Inr demo_login_user"
    by (simp add: findByID_def user_FindByID_def demo_users_def sql_first_def new_row_def load_user_def decryptUser_def
      decrypt_def demo_login_user_def getRoles_def scan_user_def demo_pk_auth_def demo_pk_world_def)
  have perms: "perms_of demo_env ''a'' ?w = [''users:read'']" by (rule demo_perms) (simp add: demo_pk_world_def)
  have issue: "issue_pair demo_pk_auth demo_env demo_login_user ?w = Inr \<lparr>AccessToken = demo_access, RefreshToken = hex_encode [2]\<rparr>"
    using perms by (simp add: issue_pair_def GenerateTokenPair_def Sign_def demo_keys_def addKey_def NewKeyStore_def sym_jwt_def
      signingMethodFor_def alg_defs demo_login_user_def scan_user_def new_row_def demo_pk_auth_def)
  have "\<exists>w'. completeLogin demo_pk_auth demo_env demo_login_user '''' ''ua'' [] False ?w = (w', Inr \<lparr>AccessToken = demo_access, RefreshToken = hex_encode [2]\<rparr>)"
    using issue by (simp add: completeLogin_def RevokeForDevice_def EvictExcessSessions_def Create_def insert_row_def
        empty_repo_def sql_update_def setting_int_def Let_def demo_pk_auth_def demo_pk_world_def)
  moreover have "u_IsActive demo_login_user" by (simp add: demo_login_user_def scan_user_def new_row_def)
  moreover have "a_webauthn demo_pk_auth = Some (passkey_verifier demo_ws demo_we (wa_tb demo_begun))" "w_rd demo_pk_world = demo_begun"
    by (simp_all add: demo_pk_auth_def demo_pk_world_def)
  moreover have "access_gate demo_pk_auth '''' [] = None" by (simp add: access_gate_def demo_pk_auth_def)
  ultimately show ?thesis using f find
    by (auto simp: WebAuthnPasswordlessFinish_def passkey_verifier_def finish_for_def)
qed

theorem passwordless_login_sound_witness:
  "\<exists>w' pair (u :: user) sess q. WebAuthnPasswordlessFinish demo_pk_auth demo_env ''z'' demo_answer '''' ''ua'' [] demo_pk_world = (w', Inr pair) \<and>
    asserted_by demo_signs 0 sess q (u_ID u) [demo_cred_row] (wa_tb (w_rd w')) \<and> u_IsActive u"
proof -
  obtain w' pair where fin: "WebAuthnPasswordlessFinish demo_pk_auth demo_env ''z'' demo_answer '''' ''ua'' [] demo_pk_world = (w', Inr pair)"
    using demo_pk_login by blast
  have now: "we_now demo_we = 0" and rd: "w_rd demo_pk_world = demo_begun" and tb: "wa_tb demo_begun = [demo_cred_row]"
    by (simp_all add: demo_we_def demo_pk_world_def demo_begun_eq)
  have run: "passkey_run demo_ws mem_see mem_up demo_wa_world 0 {''r1''} (w_rd demo_pk_world) (we_now demo_we) {''r1''}"
    using demo_history by (simp add: now rd)
  have v: "a_webauthn demo_pk_auth = Some (passkey_verifier demo_ws demo_we (wa_tb (w_rd demo_pk_world)))" and repo: "wf_repo (w_sess demo_pk_world)"
    by (simp_all add: demo_pk_auth_def rd) (simp add: demo_pk_world_def)
  note sound = passwordless_login_sound [OF demo_passkey_service run demo_start repo v fin, unfolded now rd tb]
  obtain sess q and u :: user where "asserted_by demo_signs 0 sess q (u_ID u) [demo_cred_row] (wa_tb (w_rd w'))" "u_IsActive u"
    using sound by blast
  with fin show ?thesis by blast
qed


end
