(* ===== verification/Secrets_Client.thy ===== *)
theory Secrets_Client
  imports Go_Base64 Go_Net User_Repo
begin

text \<open>
  \<open>pkg/secrets/secrets.go\<close>: the client of the transit engine of OpenBao, which the repositories use through their
  \<open>encrypter\<close> interface. The server is a parameter; the locale \<open>encrypter_laws\<close> is the contract the repositories rely on and
  \<open>transit_server\<close> what the server documents, from which the client keeps the contract.
\<close>

section \<open>Standard base64\<close>

definition std_char :: "nat \<Rightarrow> char" where
  "std_char n = (if n = 62 then CHR ''+'' else if n = 63 then CHR ''/'' else b64_char n)"

definition std_val :: "char \<Rightarrow> nat option" where
  "std_val c = (if c = CHR ''+'' then Some 62 else if c = CHR ''/'' then Some 63
     else if c = CHR ''-'' \<or> c = CHR ''_'' then None else b64_val c)"

definition StdEncode :: "bytes \<Rightarrow> string" where
  "StdEncode bs = map std_char (b64_split bs) @ replicate ((3 - length bs mod 3) mod 3) CHR ''=''"

definition strip_pad :: "string \<Rightarrow> string" where
  "strip_pad s = (if HasSuffix s ''=='' then take (length s - 2) s else if HasSuffix s ''='' then take (length s - 1) s else s)"

definition StdDecode :: "string \<Rightarrow> bytes option" where
  "StdDecode s =
    (let t = filter (\<lambda>c. c \<noteq> CHR 0x0A \<and> c \<noteq> CHR 0x0D) s; ds = map std_val (strip_pad t) in
     if length t mod 4 \<noteq> 0 \<or> None \<in> set ds then None else b64_digits (map the ds))"

lemma std_val_char: "n < 64 \<Longrightarrow> std_val (std_char n) = Some n"
  using b64_val_char [of n] by (auto simp: std_val_def std_char_def b64_val_def)

lemma std_char_plain:
  assumes "n < 64"
  shows "std_char n \<noteq> CHR 0x0A" "std_char n \<noteq> CHR 0x0D" "std_char n \<noteq> CHR ''=''"
  using std_val_char [OF assms] by (auto simp: std_val_def b64_val_def)

lemma b64_split_length: "length (b64_split bs) + (3 - length bs mod 3) mod 3 = 4 * ((length bs + 2) div 3)"
proof (induction bs rule: b64_split.induct)
  case (4 a b c cs)
  have "(5 + length cs) div 3 = Suc (Suc (Suc (length cs)) div 3)" using div_add_self2 [of 3 "length cs + 2"] by simp
  with 4 show ?case by simp
qed simp_all

lemma strip_pad_none: "\<forall>c\<in>set s. c \<noteq> CHR ''='' \<Longrightarrow> strip_pad s = s"
  by (cases s rule: rev_cases) (auto simp: strip_pad_def HasSuffix_def)

lemma strip_pad_encode:
  assumes "\<forall>c\<in>set s. c \<noteq> CHR ''=''" "n < 3"
  shows "strip_pad (s @ replicate n CHR ''='') = s"
proof -
  consider "n = 0" | "n = 1" | "n = 2" using assms(2) by linarith
  then show ?thesis
  proof cases
    case 2
    then show ?thesis using assms(1) by (cases s rule: rev_cases) (auto simp: strip_pad_def HasSuffix_def)
  next
    case 3
    then show ?thesis by (simp add: strip_pad_def HasSuffix_def numeral_2_eq_2)
  qed (use strip_pad_none [OF assms(1)] in simp)
qed

lemma Std_roundtrip: "StdDecode (StdEncode bs) = Some bs"
proof -
  let ?n = "(3 - length bs mod 3) mod 3"
  have plain: "\<forall>c\<in>set (map std_char (b64_split bs)). c \<noteq> CHR 0x0A \<and> c \<noteq> CHR 0x0D \<and> c \<noteq> CHR ''=''"
    using std_char_plain by (auto dest!: b64_split_bound)
  have "filter (\<lambda>c. c \<noteq> CHR 0x0A \<and> c \<noteq> CHR 0x0D) (StdEncode bs) = StdEncode bs"
    using plain by (auto simp: StdEncode_def filter_id_conv)
  moreover have "strip_pad (StdEncode bs) = map std_char (b64_split bs)"
    unfolding StdEncode_def by (rule strip_pad_encode) (use plain in auto)
  moreover have "length (StdEncode bs) mod 4 = 0" by (simp add: StdEncode_def b64_split_length)
  moreover have vals: "map std_val (map std_char (b64_split bs)) = map Some (b64_split bs)"
    by (auto simp: std_val_char dest: b64_split_bound)
  moreover have "map the (map Some (b64_split bs)) = b64_split bs" by (simp add: comp_def)
  moreover have "None \<notin> set (map Some (b64_split bs))" by auto
  ultimately show ?thesis unfolding StdDecode_def Let_def by (metis b64_digits_split)
qed

section \<open>Client\<close>

datatype vault_value = VStr string | VOther

text \<open>The answer to \<open>Logical().Write\<close>: an error, a \<open>nil\<close> secret, or its data.\<close>

datatype vault_reply = VaultErr | VaultNil | VaultData "string \<rightharpoonup> vault_value"

type_synonym vault = "string \<Rightarrow> (string \<times> string) list \<Rightarrow> vault_reply"

definition isTransitCiphertext :: "string \<Rightarrow> bool" where
  "isTransitCiphertext value \<longleftrightarrow>
    HasPrefix value ''vault:v'' \<and>
    (case index_of CHR '':'' (drop 7 value) of
       None \<Rightarrow> False
     | Some versionEnd \<Rightarrow> versionEnd > 0 \<and> list_all (\<lambda>r. r \<in> set ''0123456789'') (take versionEnd (drop 7 value)))"

definition transit_Encrypt :: "vault \<Rightarrow> string \<Rightarrow> string \<Rightarrow> string option" where
  "transit_Encrypt V keyName plaintext =
    (if plaintext = '''' then Some ''''
     else case V (''transit/encrypt/'' @ keyName) [(''plaintext'', StdEncode (bytes_of plaintext))] of
         VaultErr \<Rightarrow> None
       | VaultNil \<Rightarrow> None
       | VaultData d \<Rightarrow> (case d ''ciphertext'' of Some (VStr ciphertext) \<Rightarrow> Some ciphertext | _ \<Rightarrow> None))"

definition transit_Decrypt :: "vault \<Rightarrow> string \<Rightarrow> string \<Rightarrow> string option" where
  "transit_Decrypt V keyName ciphertext =
    (if ciphertext = '''' then Some ''''
     else if \<not> isTransitCiphertext ciphertext then Some ciphertext
     else case V (''transit/decrypt/'' @ keyName) [(''ciphertext'', ciphertext)] of
         VaultErr \<Rightarrow> None
       | VaultNil \<Rightarrow> None
       | VaultData d \<Rightarrow> (case d ''plaintext'' of
           Some (VStr b64) \<Rightarrow> map_option string_of (StdDecode b64) | _ \<Rightarrow> None))"

definition connectivityCheckPlaintext :: string where
  "connectivityCheckPlaintext = ''zerotrust-transit-connectivity-check''"

definition secrets_Check :: "vault \<Rightarrow> string \<Rightarrow> bool" where
  "secrets_Check V keyName =
    (case transit_Encrypt V keyName connectivityCheckPlaintext of
       None \<Rightarrow> False
     | Some ciphertext \<Rightarrow> transit_Decrypt V keyName ciphertext = Some connectivityCheckPlaintext)"

text \<open>The configuration of \<open>NewClient\<close>: the address of the server and the token, from the first variable that is set.\<close>

definition NewClient_config :: "(string \<Rightarrow> string) \<Rightarrow> (string \<times> string) option" where
  "NewClient_config Getenv =
    (let addr = (if Getenv ''BAO_ADDR'' = '''' then Getenv ''VAULT_ADDR'' else Getenv ''BAO_ADDR'');
         token = (if Getenv ''BAO_TOKEN'' = '''' then Getenv ''VAULT_TOKEN'' else Getenv ''BAO_TOKEN'')
     in if addr \<noteq> '''' \<and> token = '''' then None else Some (addr, token))"

definition transit_client :: "vault \<Rightarrow> string \<Rightarrow> encrypter" where
  "transit_client V keyName = \<lparr>EncryptData = transit_Encrypt V keyName, DecryptData = transit_Decrypt V keyName\<rparr>"

section \<open>Contract\<close>

text \<open>What a repository needs: decryption undoes encryption, a value does not become the empty text, and a ciphertext is
  visible ASCII, so that any text column and any JSON text holds it.\<close>

definition visible :: "string \<Rightarrow> bool" where
  "visible s \<longleftrightarrow> list_all (\<lambda>c. 32 \<le> (of_char c :: nat) \<and> (of_char c :: nat) < 127) s"

locale encrypter_laws =
  fixes c :: encrypter
  assumes decrypt_encrypt: "EncryptData c x = Some y \<Longrightarrow> DecryptData c y = Some x"
    and encrypt_visible: "EncryptData c x = Some y \<Longrightarrow> visible y \<and> (y = '''' \<longrightarrow> x = '''')"

text \<open>The transit engine: what it answers to an encryption is an envelope that it decrypts to the same plaintext.\<close>

locale transit_server =
  fixes V :: vault and keyName :: string
  assumes transit: "V (''transit/encrypt/'' @ keyName) [(''plaintext'', b)] = VaultData d \<Longrightarrow> d ''ciphertext'' = Some (VStr ct) \<Longrightarrow>
    isTransitCiphertext ct \<and> visible ct \<and>
    (\<exists>d'. V (''transit/decrypt/'' @ keyName) [(''ciphertext'', ct)] = VaultData d' \<and> d' ''plaintext'' = Some (VStr b))"
begin

lemma encrypt_shape:
  assumes "transit_Encrypt V keyName x = Some y" "x \<noteq> ''''"
  obtains d where "V (''transit/encrypt/'' @ keyName) [(''plaintext'', StdEncode (bytes_of x))] = VaultData d" "d ''ciphertext'' = Some (VStr y)"
  using assms by (auto simp: transit_Encrypt_def split: vault_reply.splits option.splits vault_value.splits)

lemma transit_roundtrip:
  assumes "transit_Encrypt V keyName x = Some y"
  shows "transit_Decrypt V keyName y = Some x \<and> visible y \<and> (y = '''' \<longrightarrow> x = '''')"
proof (cases "x = ''''")
  case True
  then show ?thesis using assms by (simp add: transit_Encrypt_def transit_Decrypt_def visible_def)
next
  case False
  then obtain d where "V (''transit/encrypt/'' @ keyName) [(''plaintext'', StdEncode (bytes_of x))] = VaultData d" "d ''ciphertext'' = Some (VStr y)"
    using encrypt_shape [OF assms] by blast
  from transit [OF this] obtain d' where "isTransitCiphertext y" "visible y"
    "V (''transit/decrypt/'' @ keyName) [(''ciphertext'', y)] = VaultData d'" "d' ''plaintext'' = Some (VStr (StdEncode (bytes_of x)))"
    by blast
  moreover from this(1) have "y \<noteq> ''''" by (auto simp: isTransitCiphertext_def HasPrefix_def)
  ultimately show ?thesis by (simp add: transit_Decrypt_def Std_roundtrip)
qed

lemma check_passes: "transit_Encrypt V keyName connectivityCheckPlaintext \<noteq> None \<Longrightarrow> secrets_Check V keyName"
  by (auto simp: secrets_Check_def transit_roundtrip)

end

sublocale transit_server \<subseteq> encrypter_laws "transit_client V keyName"
  by unfold_locales (use transit_roundtrip in \<open>auto simp: transit_client_def\<close>)

text \<open>Plaintext from before encryption was enabled stays readable, unless it has the shape of an envelope.\<close>

lemma legacy_plaintext: "\<not> isTransitCiphertext x \<Longrightarrow> transit_Decrypt V keyName x = Some x"
  by (simp add: transit_Decrypt_def)

lemma StdEncode_visible: "visible (StdEncode bs)"
proof -
  have "list_all (\<lambda>n. visible [std_char n]) [0..<64]" by code_simp
  then have "n < 64 \<Longrightarrow> visible [std_char n]" for n by (auto simp: list_all_iff)
  then show ?thesis by (auto simp: StdEncode_def visible_def list_all_iff dest!: b64_split_bound)
qed

text \<open>An engine with one version of the key, whose envelope is the encoded plaintext.\<close>

definition demo_vault :: vault where
  "demo_vault path kv =
    (case kv of
       [(k, x)] \<Rightarrow>
         if k = ''plaintext'' \<and> visible x then VaultData [''ciphertext'' \<mapsto> VStr (''vault:v1:'' @ x)]
         else if k = ''ciphertext'' \<and> HasPrefix x ''vault:v1:'' then VaultData [''plaintext'' \<mapsto> VStr (drop 9 x)]
         else VaultErr
     | _ \<Rightarrow> VaultErr)"

interpretation demo_transit: transit_server demo_vault keyName
proof
  fix b d ct
  assume "demo_vault (''transit/encrypt/'' @ keyName) [(''plaintext'', b)] = VaultData d" "d ''ciphertext'' = Some (VStr ct)"
  then have ct: "ct = ''vault:v1:'' @ b" "visible b" by (auto simp: demo_vault_def split: if_splits)
  then have "isTransitCiphertext ct" by (simp add: isTransitCiphertext_def HasPrefix_def)
  then show "isTransitCiphertext ct \<and> visible ct \<and>
    (\<exists>d'. demo_vault (''transit/decrypt/'' @ keyName) [(''ciphertext'', ct)] = VaultData d' \<and> d' ''plaintext'' = Some (VStr b))"
    using ct by (simp add: demo_vault_def HasPrefix_def visible_def)
qed

lemma demo_encrypts: "\<exists>ct. EncryptData (transit_client demo_vault keyName) x = Some ct"
  by (simp add: transit_client_def transit_Encrypt_def demo_vault_def StdEncode_visible)

end
