(* ===== verification/Audit_Log.thy ===== *)
theory Audit_Log
  imports Access_Policy Secrets_Client Go_Utf8 Http_Core Sql_Text "HOL-Library.AList" "HOL-Library.Countable"
begin

text \<open>
  \<open>internal/audit\<close>: the audit trail. The \<open>audit_logs\<close> table with encrypted metadata, the throttle of the webhook and
  listing. Alerts are in \<open>Audit_Webhook\<close>, the dashboard, export and handlers in \<open>Audit_Reports\<close>.
  \<open>encoding/json\<close> is a codec between metadata and text, PostgreSQL's casts to \<open>uuid\<close>, \<open>inet\<close> and \<open>jsonb\<close> are parameters;
  the locale \<open>audit_codec\<close> states what they document and, with the contract of the secrets client, what the trail keeps.
\<close>

section \<open>Entries\<close>

text \<open>Values of \<open>any\<close> as \<open>encoding/json\<close> writes them; an object lists its keys in order.\<close>

datatype jv = JNull | JBool bool | JInt int | JStr string | JArr "jv list" | JObj "(string \<times> jv) list"

type_synonym jmeta = "string \<rightharpoonup> jv"

text \<open>\<open>Entry\<close>. A \<open>nil\<close> map and an empty one are used alike.\<close>

record audit_entry =
  en_UserID :: "string option"
  en_Action :: string
  en_Resource :: string
  en_IPAddress :: string
  en_UserAgent :: string
  en_Metadata :: jmeta

record json_codec =
  jc_Marshal :: "jmeta \<Rightarrow> string"
  jc_Unmarshal :: "string \<Rightarrow> jmeta option"
  jc_text :: "jv \<Rightarrow> string"

record pg_casts =
  pg_uuid :: "string \<Rightarrow> string option"
  pg_inet :: "string \<Rightarrow> string option"
  pg_jsonb :: "string \<Rightarrow> jmeta option"

record audit_repo =
  au_sec :: "encrypter option"
  au_locator :: "(string \<Rightarrow> string \<times> string) option"
  au_settings :: "setting_reader option"
  au_json :: json_codec
  au_pg :: pg_casts
  au_testClient :: bool

text \<open>Rows, with \<open>NULL\<close> as \<open>None\<close>.\<close>

record audit_row =
  ar_id :: string
  ar_user :: "string option"
  ar_action :: string
  ar_resource :: string
  ar_ip :: "string option"
  ar_ua :: "string option"
  ar_meta :: "jmeta option"
  ar_created :: instant

text \<open>The table, the throttle map, the webhook goroutines that were started, and the counter of \<open>metrics.go\<close>.\<close>

record audit_state =
  as_rows :: "audit_row list"
  as_throttle :: "(string \<times> instant) list"
  as_webhooks :: "(string \<times> audit_entry) list"
  as_failures :: nat

datatype audit_error = AuditEncrypt | AuditInsert | AuditDB | AuditDecrypt | AuditDecode

section \<open>Webhook throttle\<close>

definition webhookThrottleWindow :: duration where "webhookThrottleWindow = go_minute"

definition throttle_key :: "string \<Rightarrow> string \<Rightarrow> string" where
  "throttle_key ip action = ip @ ''|'' @ action"

definition shouldDispatchWebhook :: "instant \<Rightarrow> string \<Rightarrow> string \<Rightarrow> (string \<times> instant) list \<Rightarrow> (string \<times> instant) list \<times> bool" where
  "shouldDispatchWebhook now ip action th =
    (let key = throttle_key ip action in
     case map_of th key of
       Some prev \<Rightarrow> if now - prev < webhookThrottleWindow then (th, False)
         else (let th1 = AList.update key now th in
           (if length th1 > 1000 then filter (\<lambda>(k, t). \<not> now - t \<ge> webhookThrottleWindow) th1 else th1, True))
     | None \<Rightarrow> (let th1 = AList.update key now th in
           (if length th1 > 1000 then filter (\<lambda>(k, t). \<not> now - t \<ge> webhookThrottleWindow) th1 else th1, True)))"

section \<open>High-risk events\<close>

definition meta_outcome :: "jmeta \<Rightarrow> string option" where
  "meta_outcome m = (case m ''outcome'' of Some (JStr s) \<Rightarrow> Some s | _ \<Rightarrow> None)"

definition criticalActions :: "string list" where
  "criticalActions = [''admin.user.status_update'', ''admin.user.roles_update'', ''admin.settings.update'', ''mfa.disable'',
     ''session.revoke'', ''session.revoke_others'', ''admin.user.session_revoke'', ''admin.user.sessions_revoke_all'',
     ''webauthn.credential_delete'', ''oidc.client_created'', ''oidc.client_updated'', ''oidc.client_deleted'']"

definition isHighRiskEvent :: "audit_entry \<Rightarrow> bool" where
  "isHighRiskEvent e \<longleftrightarrow>
    meta_outcome (en_Metadata e) = Some ''failure'' \<and>
      (en_Action e = ''request.auth.login'' \<or> en_Action e = ''mfa.verify'' \<or> HasPrefix (en_Action e) ''auth.'' \<or> HasPrefix (en_Action e) ''webauthn.'') \<or>
    en_Action e \<in> set criticalActions"

section \<open>Writing\<close>

definition nullStr :: "string \<Rightarrow> string option" where
  "nullStr s = (if s = '''' then None else Some s)"

definition locate :: "audit_repo \<Rightarrow> audit_entry \<Rightarrow> audit_entry" where
  "locate A e = (case au_locator A of
     None \<Rightarrow> e
   | Some f \<Rightarrow>
     if en_IPAddress e = '''' then e
     else (case f (en_IPAddress e) of (country, city) \<Rightarrow>
       if country = '''' then e
       else e\<lparr>en_Metadata := (en_Metadata e)(''location'' \<mapsto> JObj [(''city'', JStr city), (''country'', JStr country)])\<rparr>))"

text \<open>The fields that stay readable; all others are encrypted together into \<open>payload\<close>.\<close>

definition clear_keys :: "string list" where
  "clear_keys = [''outcome'', ''status'', ''location'', ''reason'', ''anomaly_type'', ''risk_score'']"

definition sensitive_meta :: "jmeta \<Rightarrow> jmeta" where
  "sensitive_meta m = (\<lambda>k. if k \<in> set clear_keys then None else m k)"

definition db_meta :: "string \<Rightarrow> jmeta \<Rightarrow> jmeta" where
  "db_meta ciphertext m = (\<lambda>k. if k = ''payload'' then Some (JStr ciphertext)
     else if k \<in> set clear_keys then (if m k = Some JNull then None else m k) else None)"

text \<open>The JSON text of the \<open>metadata\<close> column.\<close>

definition stored_meta :: "audit_repo \<Rightarrow> jmeta \<Rightarrow> audit_error + string option" where
  "stored_meta A m =
    (if m = Map.empty then Inr None
     else case au_sec A of
         None \<Rightarrow> Inr (Some (jc_Marshal (au_json A) m))
       | Some c \<Rightarrow>
         (case EncryptData c (jc_Marshal (au_json A) (sensitive_meta m)) of
            None \<Rightarrow> Inl AuditEncrypt
          | Some ciphertext \<Rightarrow> Inr (Some (jc_Marshal (au_json A) (db_meta ciphertext m)))))"

text \<open>The \<open>INSERT\<close>: \<open>known\<close> are the ids of the users (the foreign key), \<open>action\<close> is a \<open>VARCHAR(100)\<close> and \<open>resource\<close> a
  \<open>VARCHAR(255)\<close>, and every text must be valid UTF-8. A \<open>nil\<close> user id is \<open>NULL\<close>; any other is cast to \<open>uuid\<close>.\<close>

definition varchar :: "nat \<Rightarrow> string \<Rightarrow> bool" where
  "varchar n s \<longleftrightarrow> valid_utf8 s \<and> length (runes s) \<le> n"

definition cast_opt :: "(string \<Rightarrow> 'a option) \<Rightarrow> string option \<Rightarrow> 'a option option" where
  "cast_opt f x = (case x of None \<Rightarrow> Some None | Some s \<Rightarrow> map_option Some (f s))"

definition insert_audit :: "audit_repo \<Rightarrow> bool \<Rightarrow> string \<Rightarrow> instant \<Rightarrow> string set \<Rightarrow> audit_entry \<Rightarrow> string option \<Rightarrow> audit_row list \<Rightarrow> audit_row list option" where
  "insert_audit A ok newid sqlnow known e metadata tb =
    (case (cast_opt (pg_uuid (au_pg A)) (en_UserID e), cast_opt (pg_inet (au_pg A)) (nullStr (en_IPAddress e)),
       cast_opt (pg_jsonb (au_pg A)) metadata) of
       (Some uid, Some ip, Some meta) \<Rightarrow>
         if ok \<and> newid \<notin> ar_id ` set tb \<and> (\<forall>u. uid = Some u \<longrightarrow> u \<in> known) \<and> varchar 100 (en_Action e) \<and>
           varchar 255 (en_Resource e) \<and> valid_utf8 (en_UserAgent e)
         then Some (tb @ [\<lparr>ar_id = newid, ar_user = uid, ar_action = en_Action e, ar_resource = en_Resource e, ar_ip = ip,
           ar_ua = nullStr (en_UserAgent e), ar_meta = meta, ar_created = sqlnow\<rparr>])
         else None
     | _ \<Rightarrow> None)"

record audit_env =
  ae_ok :: bool
  ae_newid :: string
  ae_now :: instant
  ae_sqlnow :: instant
  ae_users :: "string set"

definition Log :: "audit_repo \<Rightarrow> audit_env \<Rightarrow> audit_entry \<Rightarrow> audit_state \<Rightarrow> audit_state \<times> (audit_error + unit)" where
  "Log A v e0 s =
    (let e = locate A e0 in
     case stored_meta A (en_Metadata e) of
       Inl er \<Rightarrow> (s, Inl er)
     | Inr meta \<Rightarrow>
       (case insert_audit A (ae_ok v) (ae_newid v) (ae_sqlnow v) (ae_users v) e meta (as_rows s) of
          None \<Rightarrow> (s, Inl AuditInsert)
        | Some tb \<Rightarrow>
          (let s1 = s\<lparr>as_rows := tb\<rparr> in
           case au_settings A of
             None \<Rightarrow> (s1, Inr ())
           | Some st \<Rightarrow>
             if \<not> GetBool st ''webhook_enabled'' False then (s1, Inr ())
             else
               (let url = GetString st ''webhook_url'' '''' in
                if url = '''' \<or> \<not> isHighRiskEvent e then (s1, Inr ())
                else case shouldDispatchWebhook (ae_now v) (en_IPAddress e) (en_Action e) (as_throttle s1) of
                    (th, fire) \<Rightarrow> (s1\<lparr>as_throttle := th, as_webhooks := as_webhooks s1 @ (if fire then [(url, e)] else [])\<rparr>, Inr ())))))"

definition RecordWriteFailure :: "audit_state \<Rightarrow> audit_state" where
  "RecordWriteFailure s = s\<lparr>as_failures := Suc (as_failures s)\<rparr>"

section \<open>Reading\<close>

text \<open>\<open>EntryRow\<close>; the time is kept as the instant of its rendering.\<close>

record entry_row =
  er_ID :: string
  er_UserID :: "string option"
  er_UserEmail :: "string option"
  er_Action :: string
  er_Resource :: string
  er_IPAddress :: "string option"
  er_UserAgent :: "string option"
  er_Metadata :: jmeta
  er_CreatedAt :: instant

definition decode_meta :: "audit_repo \<Rightarrow> jmeta \<Rightarrow> audit_error + jmeta" where
  "decode_meta A m =
    (case (au_sec A, m ''payload'') of
       (Some c, Some p) \<Rightarrow>
         (case p of
            JStr s \<Rightarrow>
              if s = '''' then Inl AuditDecode
              else (case DecryptData c s of
                  None \<Rightarrow> Inl AuditDecrypt
                | Some txt \<Rightarrow>
                  (case jc_Unmarshal (au_json A) txt of
                     None \<Rightarrow> Inl AuditDecode
                   | Some d \<Rightarrow> (let m1 = m(''payload'' := None) in Inr (\<lambda>k. case m1 k of Some v \<Rightarrow> Some v | None \<Rightarrow> d k))))
          | _ \<Rightarrow> Inl AuditDecode)
     | _ \<Rightarrow> Inr m)"

text \<open>One turn of the loop over the rows; \<open>email\<close> is the joined column of \<open>users\<close>.\<close>

definition scan_entry :: "audit_repo \<Rightarrow> (string \<Rightarrow> string option) \<Rightarrow> audit_row \<Rightarrow> audit_error + entry_row" where
  "scan_entry A email r =
    (let col = (case ar_user r of None \<Rightarrow> None | Some u \<Rightarrow> email u) in
     case (case (au_sec A, col) of (Some c, Some x) \<Rightarrow> map_option Some (DecryptData c x) | _ \<Rightarrow> Some col) of
       None \<Rightarrow> Inl AuditDecrypt
     | Some em \<Rightarrow>
       (case decode_meta A (case ar_meta r of None \<Rightarrow> Map.empty | Some m \<Rightarrow> m) of
          Inl e \<Rightarrow> Inl e
        | Inr m \<Rightarrow> Inr \<lparr>er_ID = ar_id r, er_UserID = ar_user r, er_UserEmail = em, er_Action = ar_action r, er_Resource = ar_resource r,
            er_IPAddress = ar_ip r, er_UserAgent = ar_ua r, er_Metadata = m, er_CreatedAt = ar_created r\<rparr>))"

fun scan_entries :: "audit_repo \<Rightarrow> (string \<Rightarrow> string option) \<Rightarrow> audit_row list \<Rightarrow> audit_error + entry_row list" where
  "scan_entries A email [] = Inr []"
| "scan_entries A email (r # rs) =
    (case scan_entry A email r of Inl e \<Rightarrow> Inl e
     | Inr x \<Rightarrow> (case scan_entries A email rs of Inl e \<Rightarrow> Inl e | Inr xs \<Rightarrow> Inr (x # xs)))"

record audit_params =
  qp_Limit :: int
  qp_MaxLimit :: int
  qp_Offset :: int
  qp_SortBy :: string
  qp_SortDir :: string
  qp_Action :: string
  qp_UserID :: string
  qp_Resource :: string
  qp_Outcome :: string
  qp_SecurityEventsOnly :: bool

definition defaultListLimit :: int where "defaultListLimit = 25"
definition defaultMaxListLimit :: int where "defaultMaxListLimit = 200"

definition normalizeListLimit :: "audit_params \<Rightarrow> int" where
  "normalizeListLimit p =
    (let maxLimit = (if qp_MaxLimit p \<le> 0 then defaultMaxListLimit else qp_MaxLimit p) in
     if qp_Limit p \<le> 0 then defaultListLimit else if qp_Limit p > maxLimit then maxLimit else qp_Limit p)"

text \<open>\<open>metadata->>key\<close>.\<close>

definition json_text :: "json_codec \<Rightarrow> jmeta option \<Rightarrow> string \<Rightarrow> string option" where
  "json_text J m k = (case m of None \<Rightarrow> None
     | Some m \<Rightarrow> (case m k of None \<Rightarrow> None | Some JNull \<Rightarrow> None | Some (JStr s) \<Rightarrow> Some s | Some v \<Rightarrow> Some (jc_text J v)))"

definition audit_where :: "json_codec \<Rightarrow> audit_params \<Rightarrow> audit_row \<Rightarrow> bool" where
  "audit_where J p r \<longleftrightarrow>
    (qp_Action p \<noteq> '''' \<longrightarrow> like (ToLower (''%'' @ qp_Action p @ ''%'')) (ToLower (ar_action r))) \<and>
    (qp_UserID p \<noteq> '''' \<longrightarrow> ar_user r = Some (qp_UserID p)) \<and>
    (qp_Resource p \<noteq> '''' \<longrightarrow> like (ToLower (''%'' @ qp_Resource p @ ''%'')) (ToLower (ar_resource r))) \<and>
    (qp_Outcome p \<noteq> '''' \<longrightarrow> json_text J (ar_meta r) ''outcome'' = Some (qp_Outcome p)) \<and>
    (qp_SecurityEventsOnly p \<longrightarrow> list_ex (HasPrefix (ar_action r)) [''auth.'', ''mfa.'', ''session.'', ''login.'', ''user.''])"

definition audit_order :: "audit_params \<Rightarrow> audit_row list \<Rightarrow> audit_row list" where
  "audit_order p rs =
    (let asc = (if qp_SortBy p = ''action'' then sort_key ar_action rs
           else if qp_SortBy p = ''user_id'' then
             sort_key (\<lambda>r. the (ar_user r)) (filter (\<lambda>r. ar_user r \<noteq> None) rs) @ filter (\<lambda>r. ar_user r = None) rs
           else if qp_SortBy p = ''resource'' then sort_key ar_resource rs
           else sort_key ar_created rs)
     in if EqualFold (qp_SortDir p) ''asc'' then asc else rev asc)"

definition audit_List :: "audit_repo \<Rightarrow> bool \<Rightarrow> (string \<Rightarrow> string option) \<Rightarrow> audit_params \<Rightarrow> audit_row list \<Rightarrow> audit_error + entry_row list \<times> nat" where
  "audit_List A ok email p tb =
    (let limit = normalizeListLimit p; hits = filter (audit_where (au_json A) p) tb in
     if \<not> ok \<or> qp_Offset p < 0 then Inl AuditDB
     else case scan_entries A email (take (nat limit) (drop (nat (qp_Offset p)) (audit_order p hits))) of
         Inl e \<Rightarrow> Inl e | Inr xs \<Rightarrow> Inr (xs, length hits))"

section \<open>What the trail keeps\<close>

text \<open>Metadata that survives JSON: valid text without NUL (which \<open>jsonb\<close> refuses) and integers a \<open>float64\<close> holds.\<close>

definition json_str :: "string \<Rightarrow> bool" where
  "json_str s \<longleftrightarrow> valid_utf8 s \<and> CHR 0x00 \<notin> set s"

fun clean_jv :: "jv \<Rightarrow> bool" where
  "clean_jv JNull = True"
| "clean_jv (JBool b) = True"
| "clean_jv (JInt n) = (\<bar>n\<bar> \<le> 2 ^ 53)"
| "clean_jv (JStr s) = json_str s"
| "clean_jv (JArr vs) = list_all clean_jv vs"
| "clean_jv (JObj kv) = (sorted (map fst kv) \<and> distinct (map fst kv) \<and> list_all (\<lambda>p. json_str (fst p) \<and> clean_jv (snd p)) kv)"

definition clean_meta :: "jmeta \<Rightarrow> bool" where
  "clean_meta m \<longleftrightarrow> finite (dom m) \<and> (\<forall>k v. m k = Some v \<longrightarrow> json_str k \<and> clean_jv v)"

lemma visible_json_str: "visible s \<Longrightarrow> json_str s"
proof -
  assume v: "visible s"
  then have "list_all (\<lambda>c. byte_of c < 128) s" by (auto simp: visible_def byte_of_def list_all_iff)
  then have "runes s = map (\<lambda>c. [c]) s" by (rule runes_ascii)
  moreover have "concat (map (\<lambda>c. [c]) s) = s" by (induction s) auto
  moreover have "CHR 0x00 \<notin> set s" using v by (auto simp: visible_def list_all_iff)
  ultimately show ?thesis by (simp add: json_str_def valid_utf8_def)
qed

lemma clear_keys_json: "k \<in> set clear_keys \<Longrightarrow> visible k" "visible ''payload''"
  by (auto simp: clear_keys_def visible_def)

lemma clean_sensitive: "clean_meta m \<Longrightarrow> clean_meta (sensitive_meta m)"
  by (auto simp: clean_meta_def sensitive_meta_def elim!: rev_finite_subset split: if_splits)

lemma clean_db_meta:
  assumes "\<forall>k\<in>set clear_keys. \<forall>v. m k = Some v \<longrightarrow> clean_jv v" "visible ct"
  shows "clean_meta (db_meta ct m)"
proof -
  have "dom (db_meta ct m) \<subseteq> insert ''payload'' (set clear_keys)" by (auto simp: db_meta_def split: if_splits)
  then have "finite (dom (db_meta ct m))" by (rule finite_subset) simp
  moreover have "db_meta ct m k = Some v \<Longrightarrow> json_str k \<and> clean_jv v" for k v
    using assms visible_json_str [OF assms(2)] visible_json_str [OF clear_keys_json(2)] visible_json_str [OF clear_keys_json(1)]
    by (auto simp: db_meta_def split: if_splits)
  ultimately show ?thesis by (simp add: clean_meta_def)
qed

locale audit_codec = encrypter_laws c for c :: encrypter +
  fixes J :: json_codec and P :: pg_casts
  assumes json_roundtrip: "clean_meta m \<Longrightarrow> jc_Unmarshal J (jc_Marshal J m) = Some m"
    and jsonb_text: "clean_meta m \<Longrightarrow> pg_jsonb P (jc_Marshal J m) = Some m"
    and json_nonempty: "jc_Marshal J m \<noteq> ''''"
begin

text \<open>The stored columns, and that reading them back gives the metadata.\<close>

lemma decode_db_meta:
  assumes "clean_meta m" "\<forall>k\<in>set clear_keys. m k \<noteq> Some JNull" "au_sec A = Some c" "au_json A = J"
    and ct: "EncryptData c (jc_Marshal J (sensitive_meta m)) = Some ct"
  shows "decode_meta A (db_meta ct m) = Inr m"
proof -
  have "ct \<noteq> ''''" using encrypt_visible [OF ct] json_nonempty by auto
  moreover have "DecryptData c ct = Some (jc_Marshal J (sensitive_meta m))" using ct by (rule decrypt_encrypt)
  moreover have "(\<lambda>k. case ((db_meta ct m)(''payload'' := None)) k of Some v \<Rightarrow> Some v | None \<Rightarrow> sensitive_meta m k) = m"
  proof
    fix k
    have "''payload'' \<notin> set clear_keys" by (simp add: clear_keys_def)
    then show "(case ((db_meta ct m)(''payload'' := None)) k of Some v \<Rightarrow> Some v | None \<Rightarrow> sensitive_meta m k) = m k"
      using assms(2) by (auto simp: db_meta_def sensitive_meta_def split: option.splits)
  qed
  moreover have "db_meta ct m ''payload'' = Some (JStr ct)" by (simp add: db_meta_def)
  ultimately show ?thesis
    using assms(3,4) json_roundtrip [OF clean_sensitive [OF assms(1)]] by (simp add: decode_meta_def Let_def)
qed

lemma stored_meta_column:
  assumes "clean_meta m" "\<forall>k\<in>set clear_keys. m k \<noteq> Some JNull" "au_sec A = Some c" "au_json A = J" "au_pg A = P"
    and "stored_meta A m = Inr t" "cast_opt (pg_jsonb P) t = Some col"
  shows "decode_meta A (case col of None \<Rightarrow> Map.empty | Some d \<Rightarrow> d) = Inr m \<and>
    (case col of None \<Rightarrow> m = Map.empty
     | Some d \<Rightarrow> dom d \<subseteq> insert ''payload'' (set clear_keys) \<and>
         (\<exists>ct. d ''payload'' = Some (JStr ct) \<and> EncryptData c (jc_Marshal J (sensitive_meta m)) = Some ct))"
proof (cases "m = Map.empty")
  case True
  then show ?thesis using assms by (simp add: stored_meta_def cast_opt_def decode_meta_def)
next
  case False
  then obtain ct where ct: "EncryptData c (jc_Marshal J (sensitive_meta m)) = Some ct" "t = Some (jc_Marshal J (db_meta ct m))"
    using assms(3,4,6) by (auto simp: stored_meta_def split: option.splits)
  have "clean_meta (db_meta ct m)" by (rule clean_db_meta) (use assms(1) encrypt_visible [OF ct(1)] in \<open>auto simp: clean_meta_def\<close>)
  then have "col = Some (db_meta ct m)" using assms(7) ct(2) jsonb_text by (simp add: cast_opt_def)
  moreover have "dom (db_meta ct m) \<subseteq> insert ''payload'' (set clear_keys)" by (auto simp: db_meta_def split: if_splits)
  moreover have "db_meta ct m ''payload'' = Some (JStr ct)" by (simp add: db_meta_def)
  ultimately show ?thesis using decode_db_meta [OF assms(1-4) ct(1)] ct(1) by auto
qed

text \<open>The readable columns are stored whatever the other metadata holds.\<close>

lemma stored_clear_columns:
  assumes "m \<noteq> Map.empty" "\<forall>k\<in>set clear_keys. \<forall>v. m k = Some v \<longrightarrow> clean_jv v" "au_sec A = Some c" "au_json A = J"
    and "stored_meta A m = Inr t" "cast_opt (pg_jsonb P) t = Some col"
  shows "\<exists>d. col = Some d \<and> (\<forall>k\<in>set clear_keys. d k = (if m k = Some JNull then None else m k))"
proof -
  obtain ct where ct: "EncryptData c (jc_Marshal J (sensitive_meta m)) = Some ct" "t = Some (jc_Marshal J (db_meta ct m))"
    using assms(1,3-5) by (auto simp: stored_meta_def split: option.splits)
  have "clean_meta (db_meta ct m)" by (rule clean_db_meta [OF assms(2)]) (use encrypt_visible [OF ct(1)] in blast)
  then have "col = Some (db_meta ct m)" using assms(6) ct(2) jsonb_text by (simp add: cast_opt_def)
  moreover have "''payload'' \<notin> set clear_keys" by (simp add: clear_keys_def)
  ultimately show ?thesis by (auto simp: db_meta_def)
qed

end


lemma locate_same [simp]:
  "en_UserID (locate A e) = en_UserID e" "en_Action (locate A e) = en_Action e" "en_Resource (locate A e) = en_Resource e"
  "en_IPAddress (locate A e) = en_IPAddress e" "en_UserAgent (locate A e) = en_UserAgent e"
  by (simp_all add: locate_def split: option.splits prod.splits)

text \<open>A call that returns no error has inserted one row.\<close>

lemma Log_row:
  assumes "Log A v e s = (s', Inr ())"
  obtains t col uid ip where "stored_meta A (en_Metadata (locate A e)) = Inr t" "cast_opt (pg_jsonb (au_pg A)) t = Some col"
    "cast_opt (pg_uuid (au_pg A)) (en_UserID e) = Some uid" "cast_opt (pg_inet (au_pg A)) (nullStr (en_IPAddress e)) = Some ip"
    "as_rows s' = as_rows s @ [\<lparr>ar_id = ae_newid v, ar_user = uid, ar_action = en_Action e, ar_resource = en_Resource e, ar_ip = ip,
       ar_ua = nullStr (en_UserAgent e), ar_meta = col, ar_created = ae_sqlnow v\<rparr>]"
proof -
  from assms obtain t where t: "stored_meta A (en_Metadata (locate A e)) = Inr t"
    by (auto simp: Log_def Let_def split: sum.splits)
  with assms obtain tb where tb: "insert_audit A (ae_ok v) (ae_newid v) (ae_sqlnow v) (ae_users v) (locate A e) t (as_rows s) = Some tb"
    by (auto simp: Log_def Let_def split: option.splits)
  with assms t have "as_rows s' = tb" by (auto simp: Log_def Let_def split: option.splits if_splits prod.splits)
  with tb t that show ?thesis by (auto simp: insert_audit_def split: option.splits if_splits)
qed

text \<open>C34: the audit trail keeps what it was given, and keeps it confidential. With a secrets client, an entry that was logged is
  one new row whose readable columns are only the outcome, status, location, reason and risk of the event; everything else is in
  one ciphertext. Reading the row back gives exactly the logged metadata with the location added.\<close>

theorem audit_keeps_metadata:
  assumes "audit_codec c J P" "au_sec A = Some c" "au_json A = J" "au_pg A = P"
    and clean: "clean_meta (en_Metadata (locate A e))" "\<forall>k\<in>set clear_keys. en_Metadata (locate A e) k \<noteq> Some JNull"
    and log: "Log A v e s = (s', Inr ())"
    and email: "\<forall>u y. email u = Some y \<longrightarrow> DecryptData c y \<noteq> None"
  shows "\<exists>r x. as_rows s' = as_rows s @ [r] \<and> scan_entry A email r = Inr x \<and> er_Metadata x = en_Metadata (locate A e) \<and>
    er_Action x = en_Action e \<and> er_Resource x = en_Resource e \<and> er_UserAgent x = nullStr (en_UserAgent e) \<and> er_CreatedAt x = ae_sqlnow v \<and>
    (case ar_meta r of None \<Rightarrow> en_Metadata (locate A e) = Map.empty
     | Some d \<Rightarrow> dom d \<subseteq> insert ''payload'' (set clear_keys) \<and>
         (\<exists>ct. d ''payload'' = Some (JStr ct) \<and> EncryptData c (jc_Marshal J (sensitive_meta (en_Metadata (locate A e)))) = Some ct))"
proof -
  obtain t col uid ip where t: "stored_meta A (en_Metadata (locate A e)) = Inr t" "cast_opt (pg_jsonb P) t = Some col"
    and row: "as_rows s' = as_rows s @ [\<lparr>ar_id = ae_newid v, ar_user = uid, ar_action = en_Action e, ar_resource = en_Resource e, ar_ip = ip,
       ar_ua = nullStr (en_UserAgent e), ar_meta = col, ar_created = ae_sqlnow v\<rparr>]"
    using Log_row [OF log] assms(4) by metis
  note col = audit_codec.stored_meta_column [OF assms(1) clean assms(2-4) t]
  obtain em where em: "(case (au_sec A, case uid of None \<Rightarrow> None | Some u \<Rightarrow> email u) of (Some c, Some x) \<Rightarrow> map_option Some (DecryptData c x)
      | _ \<Rightarrow> Some (case uid of None \<Rightarrow> None | Some u \<Rightarrow> email u)) = Some em"
    using email assms(2) by (fastforce split: option.splits)
  let ?r = "\<lparr>ar_id = ae_newid v, ar_user = uid, ar_action = en_Action e, ar_resource = en_Resource e, ar_ip = ip,
       ar_ua = nullStr (en_UserAgent e), ar_meta = col, ar_created = ae_sqlnow v\<rparr>"
  have "\<exists>x. scan_entry A email ?r = Inr x \<and> er_Metadata x = en_Metadata (locate A e) \<and> er_Action x = en_Action e \<and>
      er_Resource x = en_Resource e \<and> er_UserAgent x = nullStr (en_UserAgent e) \<and> er_CreatedAt x = ae_sqlnow v"
    using em conjunct1 [OF col] by (simp add: scan_entry_def Let_def)
  then show ?thesis unfolding row using conjunct2 [OF col] by (metis (no_types, lifting) audit_row.select_convs(7))
qed


text \<open>A codec that writes the number of the entries in unary after an opening brace, with casts that accept every text.\<close>

instance jv :: countable by countable_datatype

definition demo_json :: json_codec where
  "demo_json = \<lparr>jc_Marshal = (\<lambda>m. CHR ''{'' # replicate (to_nat (map (\<lambda>k. (k, the (m k))) (sorted_list_of_set (dom m)))) CHR ''1''),
     jc_Unmarshal = (\<lambda>s. Some (map_of (from_nat (length s - 1)))), jc_text = (\<lambda>v. ''?'')\<rparr>"

definition demo_casts :: pg_casts where
  "demo_casts = \<lparr>pg_uuid = (\<lambda>s. if s = '''' then None else Some s), pg_inet = Some, pg_jsonb = jc_Unmarshal demo_json\<rparr>"

lemma map_of_entries: "finite (dom m) \<Longrightarrow> map_of (map (\<lambda>k. (k, the (m k))) (sorted_list_of_set (dom m))) = m"
  by (rule map_of_map_keys) simp

interpretation demo_codec: audit_codec "transit_client demo_vault keyName" demo_json demo_casts
  by unfold_locales (auto simp: demo_json_def demo_casts_def map_of_entries clean_meta_def)

definition demo_audit :: audit_repo where
  "demo_audit = \<lparr>au_sec = Some (transit_client demo_vault ''audit''), au_locator = Some (\<lambda>ip. (''DE'', ''Berlin'')),
     au_settings = Some \<lparr>GetInt = (\<lambda>k d. d), GetString = (\<lambda>k d. ''https://hooks''), GetBool = (\<lambda>k d. True)\<rparr>,
     au_json = demo_json, au_pg = demo_casts, au_testClient = False\<rparr>"

definition demo_entry :: audit_entry where
  "demo_entry = \<lparr>en_UserID = Some ''u1'', en_Action = ''session.revoke'', en_Resource = ''/s'', en_IPAddress = ''1.2.3.4'', en_UserAgent = ''cli'',
     en_Metadata = [''outcome'' \<mapsto> JStr ''success'', ''email'' \<mapsto> JStr ''a@x'']\<rparr>"

definition demo_audit_env :: audit_env where
  "demo_audit_env = \<lparr>ae_ok = True, ae_newid = ''r1'', ae_now = 0, ae_sqlnow = 0, ae_users = {''u1''}\<rparr>"

definition no_audit :: audit_state where
  "no_audit = \<lparr>as_rows = [], as_throttle = [], as_webhooks = [], as_failures = 0\<rparr>"

lemma Log_stores:
  assumes "stored_meta A (en_Metadata (locate A e)) = Inr t"
    and "insert_audit A (ae_ok v) (ae_newid v) (ae_sqlnow v) (ae_users v) (locate A e) t (as_rows s) = Some tb"
  shows "\<exists>s'. Log A v e s = (s', Inr ()) \<and> as_rows s' = tb"
  using assms by (auto simp: Log_def Let_def split: option.splits prod.splits)

lemma demo_audit_simps [simp]: "au_sec demo_audit = Some (transit_client demo_vault ''audit'')" "au_json demo_audit = demo_json"
    "au_pg demo_audit = demo_casts" "as_rows no_audit = []"
  by (simp_all add: demo_audit_def no_audit_def)

lemma demo_located: "en_Metadata (locate demo_audit demo_entry) =
    [''outcome'' \<mapsto> JStr ''success'', ''email'' \<mapsto> JStr ''a@x'',
     ''location'' \<mapsto> JObj [(''city'', JStr ''Berlin''), (''country'', JStr ''DE'')]]"
  by (simp add: locate_def demo_audit_def demo_entry_def)

lemma demo_log: "\<exists>s'. Log demo_audit demo_audit_env demo_entry no_audit = (s', Inr ())"
proof -
  obtain ct where "EncryptData (transit_client demo_vault ''audit'') (jc_Marshal demo_json (sensitive_meta (en_Metadata (locate demo_audit demo_entry)))) = Some ct"
    using demo_encrypts by blast
  then have t: "stored_meta demo_audit (en_Metadata (locate demo_audit demo_entry)) = Inr (Some (jc_Marshal demo_json (db_meta ct (en_Metadata (locate demo_audit demo_entry)))))"
    unfolding stored_meta_def by (simp add: demo_located)
  obtain col where "pg_jsonb demo_casts (jc_Marshal demo_json (db_meta ct (en_Metadata (locate demo_audit demo_entry)))) = Some col"
    by (simp add: demo_casts_def demo_json_def)
  moreover have "varchar 100 ''session.revoke''" "varchar 255 ''/s''" "valid_utf8 ''cli''"
    by (simp_all add: varchar_def valid_utf8_def runes_ascii byte_of_def)
  ultimately obtain tb where "insert_audit demo_audit (ae_ok demo_audit_env) (ae_newid demo_audit_env) (ae_sqlnow demo_audit_env) (ae_users demo_audit_env)
      (locate demo_audit demo_entry) (Some (jc_Marshal demo_json (db_meta ct (en_Metadata (locate demo_audit demo_entry))))) (as_rows no_audit) = Some tb"
    by (simp add: insert_audit_def cast_opt_def demo_audit_env_def demo_entry_def) (simp add: demo_casts_def nullStr_def cast_opt_def)
  from Log_stores [OF t this] show ?thesis by blast
qed

theorem audit_keeps_metadata_witness:
  "\<exists>(s' :: audit_state) r x. as_rows s' = [r] \<and> scan_entry demo_audit (\<lambda>_. None) r = Inr x \<and>
    er_Metadata x = [''outcome'' \<mapsto> JStr ''success'', ''email'' \<mapsto> JStr ''a@x'',
      ''location'' \<mapsto> JObj [(''city'', JStr ''Berlin''), (''country'', JStr ''DE'')]]"
proof -
  obtain s' where log: "Log demo_audit demo_audit_env demo_entry no_audit = (s', Inr ())" using demo_log by blast

  have v: "list_all visible [''outcome'', ''success'', ''email'', ''a@x'', ''location'', ''city'', ''Berlin'', ''country'', ''DE'']"
    by code_simp
  then have c: "clean_meta (en_Metadata (locate demo_audit demo_entry))"
    unfolding demo_located clean_meta_def by (auto simp: visible_json_str split: if_splits)
  have n: "\<forall>k\<in>set clear_keys. en_Metadata (locate demo_audit demo_entry) k \<noteq> Some JNull"
    unfolding demo_located by (auto split: if_splits)
  have "\<forall>u y. (\<lambda>_. None) u = Some y \<longrightarrow> DecryptData (transit_client demo_vault ''audit'') y \<noteq> None" by simp
  from audit_keeps_metadata [OF demo_codec.audit_codec_axioms demo_audit_simps(1-3) c n log this]
  show ?thesis unfolding demo_located demo_audit_simps(4) append_Nil by blast
qed


section \<open>Alerts are throttled\<close>

definition log_all :: "audit_repo \<Rightarrow> (audit_env \<times> audit_entry) list \<Rightarrow> audit_state \<Rightarrow> audit_state" where
  "log_all A evs s = foldl (\<lambda>s (v, e). fst (Log A v e s)) s evs"

text \<open>The throttle map has an entry of the key from \<open>t0\<close> on.\<close>

definition recent :: "instant \<Rightarrow> (string \<times> instant) list \<Rightarrow> string \<Rightarrow> bool" where
  "recent t0 th k = (case map_of th k of None \<Rightarrow> False | Some t \<Rightarrow> t0 \<le> t)"

lemma map_of_filter_kept: "map_of th k = Some t \<Longrightarrow> P (k, t) \<Longrightarrow> map_of (filter P th) k = Some t"
  by (induction th) auto

lemma recent_update [simp]: "recent t0 (AList.update key now th) k \<longleftrightarrow> (if k = key then t0 \<le> now else recent t0 th k)"
  by (simp add: recent_def update_conv)

lemma dispatch_recent:
  assumes "shouldDispatchWebhook now ip action th = (th', fire)" "t0 \<le> now" "now < t0 + webhookThrottleWindow"
  shows "(recent t0 th k \<longrightarrow> recent t0 th' k) \<and>
    (fire \<longrightarrow> \<not> recent t0 th (throttle_key ip action) \<and> recent t0 th' (throttle_key ip action))"
proof -
  let ?key = "throttle_key ip action" and ?P = "\<lambda>(k :: string, t). \<not> now - t \<ge> webhookThrottleWindow"
  have prune: "recent t0 th1 j \<Longrightarrow> recent t0 (filter ?P th1) j" for th1 j
    using assms(3) map_of_filter_kept [of th1 j _ ?P] by (auto simp: recent_def split: option.splits)
  show ?thesis
  proof (cases fire)
    case True
    with assms have "\<not> recent t0 th ?key" and
      th': "th' \<in> {AList.update ?key now th, filter ?P (AList.update ?key now th)}"
      by (auto simp: shouldDispatchWebhook_def Let_def recent_def split: option.splits if_splits)
    moreover have "recent t0 th' ?key" "recent t0 th k \<longrightarrow> recent t0 th' k"
      using th' prune [of "AList.update ?key now th"] assms(2) by (auto split: if_splits)
    ultimately show ?thesis by simp
  next
    case False
    with assms show ?thesis by (auto simp: shouldDispatchWebhook_def Let_def split: option.splits if_splits)
  qed
qed

lemma Log_alert:
  "(as_throttle (fst (Log A v e s)) = as_throttle s \<and> as_webhooks (fst (Log A v e s)) = as_webhooks s) \<or>
   isHighRiskEvent (locate A e) \<and>
   (\<exists>url fire. shouldDispatchWebhook (ae_now v) (en_IPAddress e) (en_Action e) (as_throttle s) = (as_throttle (fst (Log A v e s)), fire) \<and>
      as_webhooks (fst (Log A v e s)) = as_webhooks s @ (if fire then [(url, locate A e)] else []))"
proof (cases "stored_meta A (en_Metadata (locate A e))")
  case (Inr t)
  then show ?thesis
    by (cases "insert_audit A (ae_ok v) (ae_newid v) (ae_sqlnow v) (ae_users v) (locate A e) t (as_rows s)")
      (auto simp: Log_def Let_def split: option.splits prod.splits)
qed (simp add: Log_def)

definition alert_key :: "string \<times> audit_entry \<Rightarrow> string" where
  "alert_key w = throttle_key (en_IPAddress (snd w)) (en_Action (snd w))"

lemma alerts_counted:
  assumes "\<forall>(v, e)\<in>set evs. t0 \<le> ae_now v \<and> ae_now v < t0 + webhookThrottleWindow"
  shows "\<exists>new. as_webhooks (log_all A evs s) = as_webhooks s @ new \<and> (\<forall>w\<in>set new. isHighRiskEvent (snd w)) \<and>
    (\<forall>k. count_list (map alert_key new) k \<le> (if recent t0 (as_throttle s) k then 0 else 1))"
  using assms
proof (induction evs arbitrary: s)
  case Nil
  then show ?case by (simp add: log_all_def)
next
  case (Cons ev evs)
  obtain v e where ev: "ev = (v, e)" by (cases ev)
  define s1 where "s1 = fst (Log A v e s)"
  have win: "t0 \<le> ae_now v" "ae_now v < t0 + webhookThrottleWindow" using Cons.prems ev by auto
  obtain new where new: "as_webhooks (log_all A evs s1) = as_webhooks s1 @ new" "\<forall>w\<in>set new. isHighRiskEvent (snd w)"
    "\<And>k. count_list (map alert_key new) k \<le> (if recent t0 (as_throttle s1) k then 0 else 1)"
    using Cons.IH [of s1] Cons.prems by auto
  have run: "log_all A (ev # evs) s = log_all A evs s1" by (simp add: log_all_def ev s1_def)
  from Log_alert [of A v e s, folded s1_def] show ?case
  proof (elim disjE conjE exE)
    assume "as_throttle s1 = as_throttle s" "as_webhooks s1 = as_webhooks s"
    with new run show ?thesis by auto
  next
    fix url fire
    assume hr: "isHighRiskEvent (locate A e)"
      and d: "shouldDispatchWebhook (ae_now v) (en_IPAddress e) (en_Action e) (as_throttle s) = (as_throttle s1, fire)"
      and w: "as_webhooks s1 = as_webhooks s @ (if fire then [(url, locate A e)] else [])"
    note r = dispatch_recent [OF d win]
    let ?new = "(if fire then [(url, locate A e)] else []) @ new"
    have "count_list (map alert_key ?new) k \<le> (if recent t0 (as_throttle s) k then 0 else 1)" for k
      using new(3) [of k] r [of k] by (auto simp: alert_key_def split: if_splits)
    then show ?thesis using new(1,2) w run hr by (intro exI [of _ ?new]) auto
  qed
qed

text \<open>C35: alerts cannot be used to flood their receiver. However many events are logged within one minute, at most one alert
  is sent for each client address and action, and only for high-risk events.\<close>

theorem one_alert_a_minute:
  assumes "\<forall>(v, e)\<in>set evs. t0 \<le> ae_now v \<and> ae_now v < t0 + go_minute"
  shows "\<exists>new. as_webhooks (log_all A evs s) = as_webhooks s @ new \<and> (\<forall>w\<in>set new. isHighRiskEvent (snd w)) \<and>
    (\<forall>ip action. length (filter (\<lambda>(url, e). throttle_key (en_IPAddress e) (en_Action e) = throttle_key ip action) new) \<le> 1)"
proof -
  have "webhookThrottleWindow = go_minute" by (simp add: webhookThrottleWindow_def)
  with assms obtain new where new: "as_webhooks (log_all A evs s) = as_webhooks s @ new" "\<forall>w\<in>set new. isHighRiskEvent (snd w)"
    "\<And>k. count_list (map alert_key new) k \<le> (if recent t0 (as_throttle s) k then 0 else 1)"
    using alerts_counted [of evs t0 A s] by auto
  have "length (filter (\<lambda>w. alert_key w = k) new) = count_list (map alert_key new) k" for k
    by (induction new) auto
  then have "length (filter (\<lambda>w. alert_key w = k) new) \<le> 1" for k using new(3) [of k] by (auto split: if_splits)
  then show ?thesis using new(1,2) by (auto simp: alert_key_def case_prod_unfold)
qed

theorem one_alert_a_minute_witness:
  "\<exists>new. as_webhooks (log_all demo_audit [(demo_audit_env, demo_entry), (demo_audit_env, demo_entry)] no_audit) = [] @ new \<and>
    length (filter (\<lambda>(url, e). throttle_key (en_IPAddress e) (en_Action e) = throttle_key ''1.2.3.4'' ''session.revoke'') new) \<le> 1"
proof -
  have "\<forall>(v, e)\<in>set [(demo_audit_env, demo_entry), (demo_audit_env, demo_entry)]. 0 \<le> ae_now v \<and> ae_now v < 0 + go_minute"
    by (simp add: demo_audit_env_def)
  from one_alert_a_minute [OF this, of demo_audit no_audit] show ?thesis by (auto simp: no_audit_def)
qed

end
