(* ===== verification/Audit_Reports.thy ===== *)
theory Audit_Reports
  imports Audit_Log
begin

text \<open>
  What is read from the audit trail: the trends of \<open>repository.go\<close>, \<open>security_dashboard.go\<close> and the handlers of
  \<open>handler.go\<close> with the CSV export. A CSV reader states that the export loses nothing.
\<close>

section \<open>Trends and dashboard\<close>

text \<open>Days and hours are counted from the epoch; their rendering as a date text is injective.\<close>

definition day_of :: "instant \<Rightarrow> int" where "day_of t = t div (24 * go_hour)"

definition count_where :: "('a \<Rightarrow> bool) \<Rightarrow> 'a list \<Rightarrow> nat" where
  "count_where P xs = length (filter P xs)"

record trend_point =
  tp_Date :: int
  tp_Success :: nat
  tp_Failure :: nat

definition day_trends :: "json_codec \<Rightarrow> instant \<Rightarrow> audit_row list \<Rightarrow> int \<Rightarrow> trend_point option" where
  "day_trends J sqlnow tb d =
    (let hits = filter (\<lambda>r. ar_created r \<ge> sqlnow - 7 * 24 * go_hour \<and> day_of (ar_created r) = d) tb in
     if hits = [] then None
     else Some \<lparr>tp_Date = d, tp_Success = count_where (\<lambda>r. json_text J (ar_meta r) ''outcome'' = Some ''success'') hits,
       tp_Failure = count_where (\<lambda>r. json_text J (ar_meta r) ''outcome'' = Some ''failure'') hits\<rparr>)"

definition audit_Trends :: "json_codec \<Rightarrow> bool \<Rightarrow> instant \<Rightarrow> instant \<Rightarrow> audit_row list \<Rightarrow> audit_error + trend_point list" where
  "audit_Trends J ok now sqlnow tb =
    (if \<not> ok then Inl AuditDB
     else Inr (map (\<lambda>i. let d = day_of now - int i in
       case day_trends J sqlnow tb d of Some p \<Rightarrow> p | None \<Rightarrow> \<lparr>tp_Date = d, tp_Success = 0, tp_Failure = 0\<rparr>) [6, 5, 4, 3, 2, 1, 0]))"

record dashboard_range =
  dr_name :: string
  dr_since :: instant
  dr_count :: nat
  dr_step :: duration

definition parseDashboardRange :: "string \<Rightarrow> instant \<Rightarrow> dashboard_range" where
  "parseDashboardRange value now =
    (if value = ''24h'' then \<lparr>dr_name = ''24h'', dr_since = (now div go_hour) * go_hour - 23 * go_hour, dr_count = 24, dr_step = go_hour\<rparr>
     else if value = ''30d'' then \<lparr>dr_name = ''30d'', dr_since = (day_of now - 29) * (24 * go_hour), dr_count = 30, dr_step = 24 * go_hour\<rparr>
     else \<lparr>dr_name = ''7d'', dr_since = (day_of now - 6) * (24 * go_hour), dr_count = 7, dr_step = 24 * go_hour\<rparr>)"

text \<open>\<open>AVG((metadata->>'risk_score')::numeric)\<close> over the rows that have one; \<open>None\<close> is the error of a cast.\<close>

definition risk_scores :: "audit_row list \<Rightarrow> int list option" where
  "risk_scores rs =
    (let vs = concat (map (\<lambda>r. case ar_meta r of None \<Rightarrow> []
       | Some m \<Rightarrow> (case m ''risk_score'' of None \<Rightarrow> [] | Some JNull \<Rightarrow> [] | Some v \<Rightarrow> [v])) rs)
     in if list_all (\<lambda>v. case v of JInt _ \<Rightarrow> True | _ \<Rightarrow> False) vs then Some (map (\<lambda>v. case v of JInt n \<Rightarrow> n | _ \<Rightarrow> 0) vs) else None)"

definition avg :: "int list \<Rightarrow> real" where
  "avg xs = (if xs = [] then 0 else real_of_int (sum_list xs) / real (length xs))"

definition scored :: "audit_row \<Rightarrow> bool" where
  "scored r \<longleftrightarrow> ar_action r \<in> {''auth.login_success'', ''auth.login_blocked''}"

definition login_failed :: "audit_row \<Rightarrow> bool" where
  "login_failed r \<longleftrightarrow> ar_action r \<in> {''auth.login_failed'', ''auth.login_blocked''}"

record dashboard_metrics =
  dm_SuccessfulLogins :: nat
  dm_FailedLogins :: nat
  dm_Lockouts :: nat
  dm_Anomalies :: nat
  dm_ActiveSessions :: nat
  dm_AverageRiskScore :: real

record activity_point =
  ap_Bucket :: instant
  ap_Success :: nat
  ap_Failure :: nat
  ap_AverageRiskScore :: real

record dashboard =
  da_Range :: string
  da_Since :: instant
  da_GeneratedAt :: instant
  da_Metrics :: dashboard_metrics
  da_AuthActivity :: "activity_point list"
  da_AnomalyBreakdown :: "(string \<times> nat) list"
  da_LoginCountries :: "(string \<times> nat) list"
  da_FailedLoginIPs :: "(string \<times> nat) list"
  da_BlockedCountries :: "(string \<times> nat) list"

text \<open>\<open>GROUP BY 1 ORDER BY 2 DESC, 1 ASC\<close>.\<close>

definition securityCounts :: "string list \<Rightarrow> (string \<times> nat) list" where
  "securityCounts names =
    sort_key (\<lambda>p. - int (snd p)) (sort_key fst (map (\<lambda>n. (n, count_where (\<lambda>x. x = n) names)) (remdups names)))"

definition country_of :: "json_codec \<Rightarrow> audit_row \<Rightarrow> string" where
  "country_of J r =
    (let c = (case ar_meta r of None \<Rightarrow> None | Some m \<Rightarrow>
        (case m ''location'' of Some (JObj kv) \<Rightarrow> json_text J (Some (map_of kv)) ''country'' | _ \<Rightarrow> None))
     in case c of None \<Rightarrow> ''Unknown'' | Some s \<Rightarrow> if s = '''' then ''Unknown'' else s)"

definition anomaly_of :: "json_codec \<Rightarrow> audit_row \<Rightarrow> string" where
  "anomaly_of J r = (case json_text J (ar_meta r) ''anomaly_type'' of None \<Rightarrow> ''unknown'' | Some s \<Rightarrow> if s = '''' then ''unknown'' else s)"

definition activity_bucket :: "duration \<Rightarrow> audit_row list \<Rightarrow> instant \<Rightarrow> activity_point option" where
  "activity_bucket step hits b =
    (let rs = filter (\<lambda>r. ar_created r div step * step = b) hits in
     if rs = [] then None
     else Some \<lparr>ap_Bucket = b, ap_Success = count_where (\<lambda>r. ar_action r = ''auth.login_success'') rs, ap_Failure = count_where login_failed rs,
       ap_AverageRiskScore = (case risk_scores (filter scored rs) of None \<Rightarrow> 0 | Some xs \<Rightarrow> avg xs)\<rparr>)"

definition SecurityDashboard :: "json_codec \<Rightarrow> bool \<Rightarrow> instant \<Rightarrow> instant \<Rightarrow> string \<Rightarrow> audit_row list \<Rightarrow> session_repo \<Rightarrow> audit_error + dashboard" where
  "SecurityDashboard J ok now sqlnow rangeValue tb sess =
    (let win = parseDashboardRange rangeValue now;
         hits = filter (\<lambda>r. ar_created r \<ge> dr_since win) tb;
         logins = filter (\<lambda>r. ar_action r = ''auth.login_success'' \<or> login_failed r) hits;
         act = (\<lambda>a. filter (\<lambda>r. ar_action r = a) hits)
     in if \<not> ok then Inl AuditDB
        else case risk_scores (filter scored hits) of
            None \<Rightarrow> Inl AuditDB
          | Some xs \<Rightarrow> Inr \<lparr>da_Range = dr_name win, da_Since = dr_since win, da_GeneratedAt = now,
              da_Metrics = \<lparr>dm_SuccessfulLogins = length (act ''auth.login_success''), dm_FailedLogins = count_where login_failed hits,
                dm_Lockouts = count_where (\<lambda>r. json_text J (ar_meta r) ''reason'' = Some ''account_locked'') (act ''auth.login_failed''),
                dm_Anomalies = length (act ''login.anomaly''),
                dm_ActiveSessions = count_where (\<lambda>r. \<not> s_revoked r \<and> sqlnow < s_expires r) (rows sess), dm_AverageRiskScore = avg xs\<rparr>,
              da_AuthActivity = map (\<lambda>i. let b = dr_since win + int i * dr_step win in
                case activity_bucket (dr_step win) logins b of Some p \<Rightarrow> p
                | None \<Rightarrow> \<lparr>ap_Bucket = b, ap_Success = 0, ap_Failure = 0, ap_AverageRiskScore = 0\<rparr>) [0..<dr_count win],
              da_AnomalyBreakdown = securityCounts (map (anomaly_of J) (act ''login.anomaly'')),
              da_LoginCountries = take 8 (securityCounts (map (country_of J) (act ''auth.login_success''))),
              da_FailedLoginIPs = take 8 (securityCounts (map (\<lambda>r. the (ar_ip r)) (filter (\<lambda>r. ar_ip r \<noteq> None) (act ''auth.login_failed'')))),
              da_BlockedCountries = take 8 (securityCounts (map (country_of J) (act ''auth.login_blocked'')))\<rparr>)"

section \<open>Export\<close>

text \<open>\<open>csv.Writer\<close> with its defaults. \<open>usp\<close> is \<open>unicode.IsSpace\<close> on the encoding of a rune.\<close>

definition csv_needs_quotes :: "(string \<Rightarrow> bool) \<Rightarrow> string \<Rightarrow> bool" where
  "csv_needs_quotes usp f \<longleftrightarrow> f \<noteq> '''' \<and>
    (f = [CHR 0x5C, CHR ''.''] \<or> list_ex (\<lambda>c. c \<in> {CHR 0x0A, CHR 0x0D, CHR 0x22, CHR '',''}) f \<or> usp (hd (runes f)))"

definition csv_field :: "(string \<Rightarrow> bool) \<Rightarrow> string \<Rightarrow> string" where
  "csv_field usp f = (if csv_needs_quotes usp f
     then [CHR 0x22] @ concat (map (\<lambda>c. if c = CHR 0x22 then [CHR 0x22, CHR 0x22] else [c]) f) @ [CHR 0x22] else f)"

definition csv_record :: "(string \<Rightarrow> bool) \<Rightarrow> string list \<Rightarrow> string" where
  "csv_record usp fs = Join '','' (map (csv_field usp) fs) @ [CHR 0x0A]"

definition derefStr :: "string option \<Rightarrow> string" where
  "derefStr s = (case s of None \<Rightarrow> '''' | Some x \<Rightarrow> x)"

text \<open>The columns of the export; \<open>stamp\<close> renders a time.\<close>

definition csv_columns :: "(instant \<Rightarrow> string) \<Rightarrow> entry_row \<Rightarrow> string list" where
  "csv_columns stamp e = [stamp (er_CreatedAt e), er_Action e, er_Resource e, derefStr (er_UserEmail e), derefStr (er_UserID e), derefStr (er_IPAddress e)]"

definition csv_header :: "string list" where
  "csv_header = [''time'', ''action'', ''resource'', ''user_email'', ''user_id'', ''ip_address'']"

definition csv_bom :: string where "csv_bom = map char_of [0xEF, 0xBB, 0xBF :: nat]"

definition csv_export :: "(string \<Rightarrow> bool) \<Rightarrow> (instant \<Rightarrow> string) \<Rightarrow> entry_row list \<Rightarrow> string" where
  "csv_export usp stamp es = csv_bom @ concat (map (csv_record usp) (csv_header # map (csv_columns stamp) es))"

section \<open>Handlers\<close>

definition audit_queryInt :: "string \<Rightarrow> int \<Rightarrow> int" where
  "audit_queryInt s def = (case Atoi s of (n, None) \<Rightarrow> if n \<ge> 0 then n else def | _ \<Rightarrow> def)"

definition auditExportLimit :: int where "auditExportLimit = 10000"

definition h_audit_List :: "audit_repo \<Rightarrow> bool \<Rightarrow> (string \<Rightarrow> string option) \<Rightarrow> (string \<Rightarrow> string) \<Rightarrow> audit_row list \<Rightarrow> (entry_row list \<times> nat) http_reply" where
  "h_audit_List A ok email q tb =
    (case audit_List A ok email \<lparr>qp_Limit = audit_queryInt (q ''limit'') 25, qp_MaxLimit = 0, qp_Offset = audit_queryInt (q ''offset'') 0,
        qp_SortBy = q ''sort_by'', qp_SortDir = q ''sort_dir'', qp_Action = q ''action'', qp_UserID = q ''user_id'', qp_Resource = q ''resource'',
        qp_Outcome = q ''outcome'', qp_SecurityEventsOnly = False\<rparr> tb of
       Inl _ \<Rightarrow> HErr 500 ''internal_error'' | Inr r \<Rightarrow> HOk r)"

definition h_audit_Trends :: "audit_repo \<Rightarrow> bool \<Rightarrow> instant \<Rightarrow> instant \<Rightarrow> audit_row list \<Rightarrow> trend_point list http_reply" where
  "h_audit_Trends A ok now sqlnow tb = (case audit_Trends (au_json A) ok now sqlnow tb of Inl _ \<Rightarrow> HErr 500 ''internal_error'' | Inr r \<Rightarrow> HOk r)"

definition h_SecurityDashboard :: "audit_repo \<Rightarrow> bool \<Rightarrow> instant \<Rightarrow> instant \<Rightarrow> (string \<Rightarrow> string) \<Rightarrow> audit_row list \<Rightarrow> session_repo \<Rightarrow> dashboard http_reply" where
  "h_SecurityDashboard A ok now sqlnow q tb sess =
    (case SecurityDashboard (au_json A) ok now sqlnow (q ''range'') tb sess of Inl _ \<Rightarrow> HErr 500 ''internal_error'' | Inr r \<Rightarrow> HOk r)"

datatype audit_export = ExportJSON "entry_row list" | ExportCSV string

definition h_audit_Export :: "audit_repo \<Rightarrow> (string \<Rightarrow> bool) \<Rightarrow> (instant \<Rightarrow> string) \<Rightarrow> bool \<Rightarrow> (string \<Rightarrow> string option) \<Rightarrow> (string \<Rightarrow> string) \<Rightarrow>
    audit_row list \<Rightarrow> audit_export http_reply" where
  "h_audit_Export A usp stamp ok email q tb =
    (case audit_List A ok email \<lparr>qp_Limit = auditExportLimit, qp_MaxLimit = auditExportLimit, qp_Offset = 0,
        qp_SortBy = ''created_at'', qp_SortDir = ''desc'', qp_Action = q ''action'', qp_UserID = q ''user_id'', qp_Resource = q ''resource'',
        qp_Outcome = q ''outcome'', qp_SecurityEventsOnly = False\<rparr> tb of
       Inl _ \<Rightarrow> HErr 500 ''internal_error''
     | Inr (es, _) \<Rightarrow> HOk (if q ''format'' = ''json'' then ExportJSON es else ExportCSV (csv_export usp stamp es)))"

section \<open>Reading a CSV file\<close>

text \<open>A reader for RFC 4180 files with LF line ends, as a state machine over the text: the fields of the current record
  and the current field are kept in reverse.\<close>

datatype csv_state = FieldStart | Bare | Quoted | QuoteEnd

fun csv_read :: "csv_state \<Rightarrow> string \<Rightarrow> string list \<Rightarrow> string \<Rightarrow> string list list" where
  "csv_read st cur rec [] = (if st = FieldStart \<and> rec = [] then [] else [rev (rev cur # rec)])"
| "csv_read st cur rec (c # s) =
    (if st = Quoted then (if c = CHR 0x22 then csv_read QuoteEnd cur rec s else csv_read Quoted (c # cur) rec s)
     else if c = CHR '','' then csv_read FieldStart [] (rev cur # rec) s
     else if c = CHR 0x0A then rev (rev cur # rec) # csv_read FieldStart [] [] s
     else if c = CHR 0x22 \<and> st = FieldStart then csv_read Quoted [] rec s
     else if c = CHR 0x22 \<and> st = QuoteEnd then csv_read Quoted (c # cur) rec s
     else csv_read Bare (c # cur) rec s)"

lemma csv_read_quoted:
  "csv_read Quoted cur rec (concat (map (\<lambda>c. if c = CHR 0x22 then [CHR 0x22, CHR 0x22] else [c]) f) @ s) = csv_read Quoted (rev f @ cur) rec s"
  by (induction f arbitrary: cur) auto

lemma csv_read_bare:
  assumes "list_all (\<lambda>c. c \<notin> {CHR 0x0A, CHR 0x0D, CHR 0x22, CHR '',''}) f" "st = Bare \<or> st = FieldStart \<and> f \<noteq> []"
  shows "csv_read st cur rec (f @ s) = csv_read Bare (rev f @ cur) rec s"
  using assms by (induction f arbitrary: cur st) auto

text \<open>After a written field the reader stands at its end, whatever the field contains.\<close>

lemma csv_read_field:
  assumes "d \<in> {CHR '','', CHR 0x0A}"
  shows "csv_read FieldStart [] rec (csv_field usp f @ d # s) =
    (if d = CHR '','' then csv_read FieldStart [] (f # rec) s else rev (f # rec) # csv_read FieldStart [] [] s)"
proof (cases "csv_needs_quotes usp f")
  case True
  have q: "csv_read Quoted [] rec (concat (map (\<lambda>c. if c = CHR 0x22 then [CHR 0x22, CHR 0x22] else [c]) f) @ CHR 0x22 # d # s) =
      csv_read QuoteEnd (rev f) rec (d # s)" by (simp add: csv_read_quoted)
  show ?thesis using True q assms by (auto simp: csv_field_def)
next
  case False
  show ?thesis
  proof (cases "f = []")
    case False
    with \<open>\<not> csv_needs_quotes usp f\<close> have "list_all (\<lambda>c. c \<notin> {CHR 0x0A, CHR 0x0D, CHR 0x22, CHR '',''}) f"
      by (auto simp: csv_needs_quotes_def list_all_iff list_ex_iff)
    then have "csv_read FieldStart [] rec (f @ d # s) = csv_read Bare (rev f) rec (d # s)"
      using csv_read_bare [of f FieldStart "[]" rec "d # s"] False by simp
    then show ?thesis using \<open>\<not> csv_needs_quotes usp f\<close> assms by (auto simp: csv_field_def)
  qed (use False assms in \<open>auto simp: csv_field_def\<close>)
qed

lemma csv_read_record:
  assumes "fs \<noteq> []"
  shows "csv_read FieldStart [] rec (csv_record usp fs @ s) = (rev rec @ fs) # csv_read FieldStart [] [] s"
  using assms
proof (induction fs arbitrary: rec)
  case (Cons f fs)
  show ?case
  proof (cases fs)
    case Nil
    then show ?thesis using csv_read_field [of "CHR 0x0A" rec usp f s] by (simp add: csv_record_def)
  next
    case (Cons g gs)
    then have "csv_record usp (f # fs) @ s = csv_field usp f @ CHR '','' # csv_record usp fs @ s" by (simp add: csv_record_def)
    then show ?thesis using Cons.IH [of "f # rec"] Cons csv_read_field [of "CHR '',''" rec usp f "csv_record usp fs @ s"] by simp
  qed
qed simp

lemma scan_entries_length: "scan_entries A email rs = Inr xs \<Longrightarrow> length xs = length rs"
  by (induction rs arbitrary: xs) (auto split: sum.splits)

lemma audit_List_length:
  "audit_List A ok email p tb = Inr (es, n) \<Longrightarrow> length es \<le> nat (normalizeListLimit p)"
  by (auto simp: audit_List_def Let_def dest!: scan_entries_length split: if_splits sum.splits)

lemma csv_read_records:
  "list_all (\<lambda>fs. fs \<noteq> []) rs \<Longrightarrow> csv_read FieldStart [] [] (concat (map (csv_record usp) rs)) = rs"
  by (induction rs) (auto simp: csv_read_record)

text \<open>C37: the CSV export loses nothing. Whatever texts the entries hold, with commas, quotes or line breaks, reading the
  exported file back gives the header and exactly the columns of the listed entries, in their order.\<close>

theorem export_reads_back:
  assumes "h_audit_Export A usp stamp ok email q tb = HOk (ExportCSV txt)"
  shows "\<exists>es n. txt = csv_bom @ drop 3 txt \<and> csv_read FieldStart [] [] (drop 3 txt) = csv_header # map (csv_columns stamp) es \<and>
    length es \<le> 10000 \<and>
    audit_List A ok email \<lparr>qp_Limit = 10000, qp_MaxLimit = 10000, qp_Offset = 0, qp_SortBy = ''created_at'', qp_SortDir = ''desc'',
      qp_Action = q ''action'', qp_UserID = q ''user_id'', qp_Resource = q ''resource'', qp_Outcome = q ''outcome'',
      qp_SecurityEventsOnly = False\<rparr> tb = Inr (es, n)"
proof -
  let ?p = "\<lparr>qp_Limit = 10000, qp_MaxLimit = 10000, qp_Offset = 0, qp_SortBy = ''created_at'', qp_SortDir = ''desc'',
      qp_Action = q ''action'', qp_UserID = q ''user_id'', qp_Resource = q ''resource'', qp_Outcome = q ''outcome'',
      qp_SecurityEventsOnly = False\<rparr>"
  obtain es n where l: "audit_List A ok email ?p tb = Inr (es, n)" and t: "txt = csv_export usp stamp es"
    using assms by (auto simp: h_audit_Export_def auditExportLimit_def split: sum.splits if_splits prod.splits)
  have "csv_read FieldStart [] [] (concat (map (csv_record usp) (csv_header # map (csv_columns stamp) es))) =
      csv_header # map (csv_columns stamp) es"
    by (rule csv_read_records) (auto simp: csv_header_def csv_columns_def list_all_iff)
  moreover have "drop 3 txt = concat (map (csv_record usp) (csv_header # map (csv_columns stamp) es))"
    using t by (simp add: csv_export_def csv_bom_def)
  moreover have "txt = csv_bom @ drop 3 txt" using t by (simp add: csv_export_def csv_bom_def)
  moreover have "length es \<le> 10000" using audit_List_length [OF l] by (simp add: normalizeListLimit_def)
  ultimately show ?thesis using l by auto
qed


definition demo_audit_row :: audit_row where
  "demo_audit_row = \<lparr>ar_id = ''r1'', ar_user = None, ar_action = ''GET /a'', ar_resource = ''/a,b'' @ [CHR 0x22, CHR 0x0A], ar_ip = None, ar_ua = None,
     ar_meta = None, ar_created = 0\<rparr>"

theorem export_reads_back_witness:
  "\<exists>txt es. h_audit_Export demo_audit (\<lambda>_. False) (\<lambda>_. ''now'') True (\<lambda>_. None) (\<lambda>_. '''') [demo_audit_row] = HOk (ExportCSV txt) \<and>
    csv_read FieldStart [] [] (drop 3 txt) = csv_header # map (csv_columns (\<lambda>_. ''now'')) es"
proof -
  have "audit_where J p demo_audit_row" if "qp_Action p = ''''" "qp_UserID p = ''''" "qp_Resource p = ''''" "qp_Outcome p = ''''" "\<not> qp_SecurityEventsOnly p" for J p
    using that by (simp add: audit_where_def)
  moreover have "\<exists>x. scan_entry demo_audit (\<lambda>_. None) demo_audit_row = Inr x"
    by (simp add: scan_entry_def demo_audit_row_def decode_meta_def demo_audit_def)
  ultimately have "\<exists>txt. h_audit_Export demo_audit (\<lambda>_. False) (\<lambda>_. ''now'') True (\<lambda>_. None) (\<lambda>_. '''') [demo_audit_row] = HOk (ExportCSV txt)"
    by (auto simp: h_audit_Export_def audit_List_def Let_def normalizeListLimit_def auditExportLimit_def audit_order_def)
  then obtain out where "h_audit_Export demo_audit (\<lambda>_. False) (\<lambda>_. ''now'') True (\<lambda>_. None) (\<lambda>_. '''') [demo_audit_row] = HOk (ExportCSV out)" by blast
  with export_reads_back [OF this] show ?thesis by blast
qed

end
