(* ===== verification/Audit_Webhook.thy ===== *)
theory Audit_Webhook
  imports Audit_Log
begin

text \<open>
  \<open>internal/audit/webhook.go\<close>: the alert of a high-risk event and its protection against internal addresses.
\<close>

section \<open>Webhook\<close>

text \<open>\<open>webhook.go\<close>. \<open>parse\<close> is \<open>url.Parse\<close> with the scheme, the hostname and the address that the HTTP client dials;
  \<open>lookup\<close> is the resolver, an argument of each call since its answers may change.\<close>

definition IsLinkLocalUnicast :: "bytes \<Rightarrow> bool" where
  "IsLinkLocalUnicast ip = (case To4 ip of Some b \<Rightarrow> b ! 0 = 169 \<and> b ! 1 = 254
     | None \<Rightarrow> length ip = 16 \<and> ip ! 0 = 0xfe \<and> ip ! 1 AND 0xc0 = 0x80)"

definition IsLinkLocalMulticast :: "bytes \<Rightarrow> bool" where
  "IsLinkLocalMulticast ip = (case To4 ip of Some b \<Rightarrow> b ! 0 = 224 \<and> b ! 1 = 0 \<and> b ! 2 = 0
     | None \<Rightarrow> length ip = 16 \<and> ip ! 0 = 0xff \<and> ip ! 1 AND 0x0f = 0x02)"

definition IsUnspecified :: "bytes \<Rightarrow> bool" where
  "IsUnspecified ip = (case To4 ip of Some b \<Rightarrow> b = replicate 4 0 | None \<Rightarrow> ip = replicate 16 0)"

definition internal_ip :: "bytes \<Rightarrow> bool" where
  "internal_ip ip \<longleftrightarrow> IsLoopback ip \<or> IsPrivate ip \<or> IsLinkLocalUnicast ip \<or> IsLinkLocalMulticast ip \<or> IsUnspecified ip"

text \<open>The loop over resolved addresses: the first one that parses and is internal.\<close>

definition find_internal :: "string list \<Rightarrow> string option" where
  "find_internal addrs = List.find (\<lambda>a. case ParseIP a of None \<Rightarrow> False | Some ip \<Rightarrow> internal_ip ip) addrs"

datatype webhook_error = WhInvalidURL | WhScheme | WhNoHost | WhLookup | WhInternal string | WhAddr | WhRequest | WhStatus int | WhPanic

record webhook_target =
  wt_scheme :: string
  wt_host :: string
  wt_addr :: string

definition validateWebhookURL :: "(string \<Rightarrow> webhook_target option) \<Rightarrow> (string \<Rightarrow> string list option) \<Rightarrow> string \<Rightarrow> bool \<Rightarrow> webhook_error option" where
  "validateWebhookURL parse lookup rawURL allowInsecure =
    (case parse rawURL of
       None \<Rightarrow> Some WhInvalidURL
     | Some u \<Rightarrow>
       if wt_scheme u \<noteq> ''https'' \<and> \<not> (allowInsecure \<and> wt_scheme u = ''http'') then Some WhScheme
       else if wt_host u = '''' then Some WhNoHost
       else case lookup (wt_host u) of
           None \<Rightarrow> Some WhLookup
         | Some addrs \<Rightarrow> map_option WhInternal (find_internal addrs))"

text \<open>\<open>DialContext\<close> of the transport: the address and port that are really dialled.\<close>

definition ssrf_dial :: "(string \<Rightarrow> string list option) \<Rightarrow> string \<Rightarrow> webhook_error + string \<times> string" where
  "ssrf_dial lookup addr =
    (case SplitHostPort addr of
       None \<Rightarrow> Inl WhAddr
     | Some (host, port) \<Rightarrow>
       (case lookup host of
          None \<Rightarrow> Inl WhLookup
        | Some addrs \<Rightarrow>
          (case find_internal addrs of
             Some a \<Rightarrow> Inl (WhInternal a)
           | None \<Rightarrow> (case addrs of [] \<Rightarrow> Inl WhPanic | a # _ \<Rightarrow> Inr (a, port)))))"

record slack_field =
  sf_Title :: string
  sf_Value :: string
  sf_Short :: bool

record slack_payload =
  sp_Text :: string
  sp_Fallback :: string
  sp_Color :: string
  sp_Title :: string
  sp_Fields :: "slack_field list"

definition contains :: "string \<Rightarrow> string \<Rightarrow> bool" where
  "contains s sub \<longleftrightarrow> list_ex (\<lambda>n. HasPrefix (drop n s) sub) [0..<Suc (length s)]"

definition webhook_outcome :: "audit_entry \<Rightarrow> string" where
  "webhook_outcome e = (case meta_outcome (en_Metadata e) of Some x \<Rightarrow> x | None \<Rightarrow> ''success'')"

definition webhook_color :: "audit_entry \<Rightarrow> string" where
  "webhook_color e =
    (if webhook_outcome e = ''failure'' then ''#d9534f''
     else if contains (en_Action e) ''revoke'' \<or> contains (en_Action e) ''delete'' \<or> en_Action e = ''mfa.disable'' then ''#d9534f''
     else ''#f0ad4e'')"

text \<open>The alert; \<open>stamp\<close> is the rendered time.\<close>

definition webhook_payload :: "string \<Rightarrow> audit_entry \<Rightarrow> slack_payload" where
  "webhook_payload stamp e =
    (let email = (case en_Metadata e ''email'' of Some (JStr s) \<Rightarrow> s | _ \<Rightarrow> '''');
         fields = [\<lparr>sf_Title = ''Action'', sf_Value = en_Action e, sf_Short = True\<rparr>, \<lparr>sf_Title = ''Outcome'', sf_Value = webhook_outcome e, sf_Short = True\<rparr>] @
           (if email \<noteq> '''' then [\<lparr>sf_Title = ''Email'', sf_Value = email, sf_Short = True\<rparr>]
            else case en_UserID e of None \<Rightarrow> [] | Some u \<Rightarrow> [\<lparr>sf_Title = ''User ID'', sf_Value = u, sf_Short = True\<rparr>]) @
           (if en_IPAddress e \<noteq> '''' then [\<lparr>sf_Title = ''IP Address'', sf_Value = en_IPAddress e, sf_Short = True\<rparr>] else []) @
           (if en_Resource e \<noteq> '''' then [\<lparr>sf_Title = ''Resource'', sf_Value = en_Resource e, sf_Short = False\<rparr>] else []) @
           [\<lparr>sf_Title = ''Timestamp'', sf_Value = stamp, sf_Short = True\<rparr>]
     in \<lparr>sp_Text = map char_of [0xF0, 0x9F, 0x9A, 0xA8 :: nat] @ '' *ZeroTrust High-Risk Security Alert*'',
          sp_Fallback = ''Security Event: '' @ en_Action e @ '' ('' @ webhook_outcome e @ '')'', sp_Color = webhook_color e,
          sp_Title = ''Security Event: '' @ en_Action e, sp_Fields = fields\<rparr>)"

text \<open>The result is the connection that was made with the payload sent over it, if any, and the error. \<open>http\<close> answers a
  request with a status, \<open>None\<close> for a failure; an injected test client (\<open>au_testClient\<close>) does its own dialling.\<close>

datatype webhook_conn = Dialled string string | Injected

definition sendWebhook :: "audit_repo \<Rightarrow> (string \<Rightarrow> webhook_target option) \<Rightarrow> (string \<Rightarrow> string list option) \<Rightarrow> (string \<Rightarrow> string list option) \<Rightarrow>
    (webhook_conn \<Rightarrow> slack_payload \<Rightarrow> int option) \<Rightarrow> string \<Rightarrow> string \<Rightarrow> audit_entry \<Rightarrow> (webhook_conn \<times> slack_payload) option \<times> webhook_error option" where
  "sendWebhook A parse lookup1 lookup2 http stamp url e =
    (let allowInsecure = (case au_settings A of None \<Rightarrow> False | Some st \<Rightarrow> GetBool st ''webhook_allow_insecure'' False);
         invalid = (if au_testClient A then None else validateWebhookURL parse lookup1 url allowInsecure);
         payload = webhook_payload stamp e;
         exchange = (\<lambda>conn. (Some (conn, payload), case http conn payload of
             None \<Rightarrow> Some WhRequest | Some status \<Rightarrow> if status < 200 \<or> status \<ge> 300 then Some (WhStatus status) else None))
     in case invalid of
         Some er \<Rightarrow> (None, Some er)
       | None \<Rightarrow>
         if au_testClient A then exchange Injected
         else case parse url of
             None \<Rightarrow> (None, Some WhRequest)
           | Some u \<Rightarrow> (case ssrf_dial lookup2 (wt_addr u) of
               Inl er \<Rightarrow> (None, Some er) | Inr (a, port) \<Rightarrow> exchange (Dialled a port)))"

definition TestWebhook :: "audit_repo \<Rightarrow> (string \<Rightarrow> webhook_target option) \<Rightarrow> (string \<Rightarrow> string list option) \<Rightarrow> (string \<Rightarrow> string list option) \<Rightarrow>
    (webhook_conn \<Rightarrow> slack_payload \<Rightarrow> int option) \<Rightarrow> string \<Rightarrow> string \<Rightarrow> (webhook_conn \<times> slack_payload) option \<times> webhook_error option" where
  "TestWebhook A parse lookup1 lookup2 http stamp url =
    sendWebhook A parse lookup1 lookup2 http stamp url
      \<lparr>en_UserID = None, en_Action = ''system.webhook_test'', en_Resource = ''settings'', en_IPAddress = ''0.0.0.0'', en_UserAgent = '''',
       en_Metadata = [''outcome'' \<mapsto> JStr ''success'', ''note'' \<mapsto> JStr ''This is a test alert from ZeroTrust.'']\<rparr>"


section \<open>Protection against internal addresses\<close>

lemma find_internal_None:
  "find_internal addrs = None \<longleftrightarrow> (\<forall>a\<in>set addrs. \<forall>ip. ParseIP a = Some ip \<longrightarrow> \<not> internal_ip ip)"
  by (auto simp: find_internal_def find_None_iff split: option.splits)

lemma sendWebhook_dialled:
  assumes "sendWebhook A parse lookup1 lookup2 http stamp url e = (Some (Dialled a port, p), r)"
  shows "\<exists>u host addrs. parse url = Some u \<and> validateWebhookURL parse lookup1 url
      (case au_settings A of None \<Rightarrow> False | Some st \<Rightarrow> GetBool st ''webhook_allow_insecure'' False) = None \<and>
    SplitHostPort (wt_addr u) = Some (host, port) \<and> lookup2 host = Some addrs \<and> find_internal addrs = None \<and> a = hd addrs \<and> addrs \<noteq> [] \<and>
    p = webhook_payload stamp e"
  using assms
  by (auto simp: sendWebhook_def ssrf_dial_def Let_def split: if_splits option.splits sum.splits prod.splits list.splits)


text \<open>An address with a zone.\<close>

lemma zoned_loop: "v6_loop (Suc (Suc n)) [] None ''fe80::1'' = Some ([0xfe, 0x80, 0, 1], Some 2, '''')"
proof -
  have "hex_val CHR ''f'' = Some 15" "hex_val CHR ''e'' = Some 14" "hex_val CHR ''8'' = Some 8" "hex_val CHR ''0'' = Some 0"
    "hex_val CHR ''1'' = Some 1" "hex_val CHR '':'' = None" by code_simp+
  then show ?thesis by (simp add: Let_def group_bytes_def)
qed

lemma zoned_address: "ParseAddr ''fe80::1%eth0'' = Some (IP6 ([0xfe, 0x80] @ replicate 13 0 @ [1]) ''eth0'')"
proof -
  have "v6_loop 8 [] None ''fe80::1'' = Some ([0xfe, 0x80, 0, 1], Some 2, '''')" using zoned_loop [of 6] by (simp add: numeral_eq_Suc)
  then have "parse_v6 ''fe80::1'' = Some ([0xfe, 0x80] @ replicate 13 0 @ [1])"
    by (simp add: parse_v6_def HasPrefix_def v6_finish_def eval_nat_numeral)
  then show ?thesis by (simp add: ParseAddr_def)
qed

lemma zoned_dial:
  assumes "lookup2 ''fe80::1%eth0'' = Some [''fe80::1%eth0'']"
  shows "ssrf_dial lookup2 ''[fe80::1%eth0]:443'' = Inr (''fe80::1%eth0'', ''443'')"
proof -
  have "find_internal [''fe80::1%eth0''] = None" by (simp add: find_internal_None ParseIP_def zoned_address)
  moreover have "SplitHostPort ''[fe80::1%eth0]:443'' = Some (''fe80::1%eth0'', ''443'')"
    by (simp add: SplitHostPort_def last_index_def HasPrefix_def)
  ultimately show ?thesis using assms by (simp add: ssrf_dial_def)
qed



end
