(* ===== verification/Audit_Middleware.thy ===== *)
theory Audit_Middleware
  imports Audit_Webhook
begin

text \<open>
  \<open>pkg/middleware/audit.go\<close>: which event a request is, its metadata, the response writer that observes the status, and the
  middleware that logs after the handler has answered. A handler is the list of its operations on the response writer.
\<close>

section \<open>Events\<close>

record audit_event =
  ev_action :: string
  ev_resource :: string
  ev_critical :: bool

definition slashes :: "string \<Rightarrow> nat" where
  "slashes path = length (filter (\<lambda>c. c = CHR ''/'') path)"

definition auditEventFor :: "string \<Rightarrow> string \<Rightarrow> audit_event" where
  "auditEventFor method path =
    (let event = (\<lambda>action critical. \<lparr>ev_action = action, ev_resource = path, ev_critical = critical\<rparr>);
         post = (method = ''POST''); get = (method = ''GET''); patch = (method = ''PATCH''); del = (method = ''DELETE'');
         admin_user = HasPrefix path ''/api/v1/admin/users/''; admin_sa = HasPrefix path ''/api/v1/admin/service-accounts/''
     in if post \<and> path = ''/api/v1/auth/login'' then event ''request.auth.login'' False
     else if post \<and> path = ''/api/v1/auth/mfa/challenge'' then event ''request.auth.mfa_challenge'' False
     else if post \<and> path = ''/api/v1/auth/token'' then event ''request.auth.token'' False
     else if post \<and> path = ''/api/v1/auth/refresh'' then event ''request.auth.refresh'' False
     else if post \<and> path = ''/api/v1/auth/logout'' then event ''request.auth.logout'' False
     else if post \<and> path = ''/api/v1/auth/register'' then event ''request.auth.register'' False
     else if post \<and> path = ''/api/v1/auth/forgot-password'' then event ''request.auth.password_reset_request'' False
     else if post \<and> path = ''/api/v1/auth/reset-password'' then event ''request.auth.password_reset'' False
     else if get \<and> path = ''/api/v1/admin/service-accounts/events'' then event ''request.service_account.events'' False
     else if patch \<and> admin_user \<and> HasSuffix path ''/roles'' then event ''admin.user.roles_update'' True
     else if post \<and> path = ''/api/v1/admin/users'' then event ''admin.user.create'' True
     else if patch \<and> admin_user \<and> HasSuffix path ''/status'' then event ''admin.user.status_update'' True
     else if post \<and> admin_user \<and> HasSuffix path ''/unlock'' then event ''admin.user.unlock'' True
     else if del \<and> path = ''/api/v1/sessions'' then event ''session.revoke_others'' True
     else if del \<and> HasPrefix path ''/api/v1/sessions/'' then event ''session.revoke'' True
     else if del \<and> admin_user \<and> contains path ''/sessions'' then
       event (if slashes path > slashes ''/api/v1/admin/users/u/sessions'' then ''admin.user.session_revoke'' else ''admin.user.sessions_revoke_all'') True
     else if patch \<and> path = ''/api/v1/admin/settings'' then event ''admin.settings.update'' True
     else if post \<and> path = ''/api/v1/admin/service-accounts'' then event ''service_account.create'' True
     else if admin_sa \<and> patch \<and> HasSuffix path ''/status'' then event ''service_account.status_update'' True
     else if admin_sa \<and> patch then event ''service_account.update'' True
     else if admin_sa \<and> del then event ''service_account.delete'' True
     else if post \<and> path = ''/api/v1/mfa/setup'' then event ''mfa.setup_start'' True
     else if post \<and> path = ''/api/v1/mfa/verify'' then event ''mfa.verify'' True
     else if post \<and> path = ''/api/v1/mfa/disable'' then event ''mfa.disable'' True
     else if post \<and> path = ''/api/v1/mfa/step-up'' then event ''mfa.step_up'' True
     else if post \<and> path = ''/api/v1/webauthn/register/begin'' then event ''webauthn.register_start'' False
     else if post \<and> path = ''/api/v1/webauthn/register/finish'' then event ''webauthn.register_finish'' True
     else if del \<and> HasPrefix path ''/api/v1/webauthn/credentials/'' then event ''webauthn.credential_delete'' True
     else if patch \<and> path = ''/api/v1/me/password'' then event ''user.password_changed'' True
     else event (method @ '' '' @ path) False)"

definition auditOutcome :: "int \<Rightarrow> string" where
  "auditOutcome status = (if status \<ge> 200 \<and> status < 400 then ''success'' else ''failure'')"

text \<open>\<open>parse\<close> is \<open>json.Unmarshal\<close> into a \<open>map[string]string\<close>, listed in key order, \<open>None\<close> for an error.\<close>

definition clean_info :: "(string \<times> string) list \<Rightarrow> (string \<times> string) list" where
  "clean_info info = filter (\<lambda>(key, value). \<not> (key = '''' \<or> value = '''' \<or> length key > 40 \<or> length value > 100)) info"

definition auditMetadata :: "(string \<Rightarrow> (string \<times> string) list option) \<Rightarrow> http_request \<Rightarrow> int \<Rightarrow> jmeta" where
  "auditMetadata parse r status =
    (let metadata = [''status'' \<mapsto> JInt status, ''outcome'' \<mapsto> JStr (auditOutcome status)]; raw = Header_Get r ''X-Client-Info'' in
     if raw = '''' then metadata
     else case parse raw of
         None \<Rightarrow> metadata
       | Some info \<Rightarrow> if info = [] then metadata
           else (let clean = clean_info info in
             if clean = [] then metadata else metadata(''client_info'' \<mapsto> JObj (map (\<lambda>(k, x). (k, JStr x)) clean))))"

section \<open>Response writer\<close>

text \<open>\<open>net/http\<close>'s writer: an informational header is sent at once and leaves the status open, the first other header fixes it,
  writing and flushing fix an open status to 200, and a status without body takes none.\<close>

datatype write_op = WriteHeader int | WriteBytes bytes | ReadFrom bytes | Flush

record http_writer =
  hw_info :: "int list"
  hw_status :: "int option"
  hw_body :: bytes

definition new_writer :: http_writer where
  "new_writer = \<lparr>hw_info = [], hw_status = None, hw_body = []\<rparr>"

definition informational :: "int \<Rightarrow> bool" where
  "informational c \<longleftrightarrow> 100 \<le> c \<and> c \<le> 199 \<and> c \<noteq> 101"

definition bodyAllowed :: "int \<Rightarrow> bool" where
  "bodyAllowed c \<longleftrightarrow> \<not> (100 \<le> c \<and> c \<le> 199) \<and> c \<noteq> 204 \<and> c \<noteq> 304"

definition http_header :: "int \<Rightarrow> http_writer \<Rightarrow> http_writer" where
  "http_header c w = (if hw_status w \<noteq> None then w
     else if informational c then w\<lparr>hw_info := hw_info w @ [c]\<rparr> else w\<lparr>hw_status := Some c\<rparr>)"

definition http_bytes :: "bytes \<Rightarrow> http_writer \<Rightarrow> http_writer" where
  "http_bytes b w = (let w1 = http_header 200 w in
     if bodyAllowed (the (hw_status w1)) then w1\<lparr>hw_body := hw_body w1 @ b\<rparr> else w1)"

fun http_op :: "write_op \<Rightarrow> http_writer \<Rightarrow> http_writer" where
  "http_op (WriteHeader c) w = http_header c w"
| "http_op (WriteBytes b) w = http_bytes b w"
| "http_op (ReadFrom b) w = http_bytes b w"
| "http_op Flush w = http_header 200 w"

text \<open>What the client gets when the handler has returned.\<close>

definition http_finish :: "http_writer \<Rightarrow> http_writer" where
  "http_finish w = http_header 200 w"

text \<open>\<open>auditResponseWriter\<close> around it; \<open>Flush\<close> goes to the wrapped writer.\<close>

record audit_writer =
  aw_inner :: http_writer
  aw_status :: int
  aw_wroteHeader :: bool

definition newAuditResponseWriter :: audit_writer where
  "newAuditResponseWriter = \<lparr>aw_inner = new_writer, aw_status = 200, aw_wroteHeader = False\<rparr>"

definition aw_WriteHeader :: "int \<Rightarrow> audit_writer \<Rightarrow> audit_writer" where
  "aw_WriteHeader status w = (if aw_wroteHeader w then w
     else \<lparr>aw_inner = http_header status (aw_inner w), aw_status = status, aw_wroteHeader = True\<rparr>)"

definition aw_Write :: "bytes \<Rightarrow> audit_writer \<Rightarrow> audit_writer" where
  "aw_Write b w = (let w1 = (if aw_wroteHeader w then w else aw_WriteHeader 200 w) in w1\<lparr>aw_inner := http_bytes b (aw_inner w1)\<rparr>)"

definition aw_ReadFrom :: "bytes \<Rightarrow> audit_writer \<Rightarrow> audit_writer" where
  "aw_ReadFrom b w = (let w1 = (if aw_wroteHeader w then w else aw_WriteHeader 200 w) in w1\<lparr>aw_inner := http_bytes b (aw_inner w1)\<rparr>)"

definition aw_Flush :: "audit_writer \<Rightarrow> audit_writer" where
  "aw_Flush w = w\<lparr>aw_inner := http_header 200 (aw_inner w)\<rparr>"

fun audit_op :: "write_op \<Rightarrow> audit_writer \<Rightarrow> audit_writer" where
  "audit_op (WriteHeader c) w = aw_WriteHeader c w"
| "audit_op (WriteBytes b) w = aw_Write b w"
| "audit_op (ReadFrom b) w = aw_ReadFrom b w"
| "audit_op Flush w = aw_Flush w"

definition audited :: "write_op list \<Rightarrow> audit_writer" where
  "audited ops = fold audit_op ops newAuditResponseWriter"

definition unaudited :: "write_op list \<Rightarrow> http_writer" where
  "unaudited ops = http_finish (fold http_op ops new_writer)"

section \<open>Middleware\<close>

definition logAuditFailure :: "audit_state \<Rightarrow> audit_state" where
  "logAuditFailure s = RecordWriteFailure s"

text \<open>The call of \<open>repo.Log\<close> and its error branch.\<close>

definition log_entry :: "audit_repo \<Rightarrow> audit_env \<Rightarrow> audit_entry \<Rightarrow> audit_state \<Rightarrow> audit_state" where
  "log_entry A v e s = (case Log A v e s of (s1, Inr _) \<Rightarrow> s1 | (s1, Inl _) \<Rightarrow> logAuditFailure s1)"

text \<open>A critical event is logged before the middleware returns; the entry of another one is left to a goroutine, the
  second component.\<close>

definition dispatch_log :: "audit_repo \<Rightarrow> audit_env \<Rightarrow> bool \<Rightarrow> audit_entry \<Rightarrow> audit_state \<Rightarrow> audit_state \<times> audit_entry option" where
  "dispatch_log A v critical e s = (if critical then (log_entry A v e s, None) else (s, Some e))"

definition request_entry :: "http_request \<Rightarrow> string option \<Rightarrow> jmeta \<Rightarrow> audit_entry" where
  "request_entry r uid meta =
    (let event = auditEventFor (rq_method r) (rq_path r) in
     \<lparr>en_UserID = uid, en_Action = ev_action event, en_Resource = ev_resource event, en_IPAddress = rq_remote r,
      en_UserAgent = Header_Get r ''User-Agent'', en_Metadata = meta\<rparr>)"

definition AuditLog :: "audit_repo \<Rightarrow> (string \<Rightarrow> (string \<times> string) list option) \<Rightarrow> audit_env \<Rightarrow> write_op list \<Rightarrow> jmeta \<Rightarrow> http_request \<Rightarrow>
    audit_state \<Rightarrow> (audit_state \<times> audit_entry option) \<times> http_writer" where
  "AuditLog A parse v ops extras r s =
    (let rw = audited ops;
         meta = auditMetadata parse r (aw_status rw) ++ extras;
         entry = request_entry r (map_option UserID (rq_claims r)) meta
     in (dispatch_log A v (ev_critical (auditEventFor (rq_method r) (rq_path r))) entry s, http_finish (aw_inner rw)))"

definition AuditCSRFFailures :: "audit_repo \<Rightarrow> (string \<Rightarrow> (string \<times> string) list option) \<Rightarrow> audit_env \<Rightarrow> write_op list \<Rightarrow> string \<Rightarrow> http_request \<Rightarrow>
    audit_state \<Rightarrow> (audit_state \<times> audit_entry option) \<times> http_writer" where
  "AuditCSRFFailures A parse v ops reason r s =
    (let rw = audited ops in
     (if aw_status rw \<noteq> 403 \<or> reason = '''' then (s, None)
      else dispatch_log A v (ev_critical (auditEventFor (rq_method r) (rq_path r)))
        (request_entry r None ((auditMetadata parse r (aw_status rw))(''reason'' \<mapsto> JStr reason))) s,
      http_finish (aw_inner rw)))"

definition auditFailures :: "int \<Rightarrow> audit_repo \<Rightarrow> (string \<Rightarrow> (string \<times> string) list option) \<Rightarrow> audit_env \<Rightarrow> write_op list \<Rightarrow> http_request \<Rightarrow>
    audit_state \<Rightarrow> (audit_state \<times> audit_entry option) \<times> http_writer" where
  "auditFailures status A parse v ops r s =
    (let rw = audited ops in
     (if aw_status rw \<noteq> status then (s, None)
      else dispatch_log A v (ev_critical (auditEventFor (rq_method r) (rq_path r)))
        (request_entry r None (auditMetadata parse r (aw_status rw))) s,
      http_finish (aw_inner rw)))"

definition AuditAuthFailures :: "audit_repo \<Rightarrow> (string \<Rightarrow> (string \<times> string) list option) \<Rightarrow> audit_env \<Rightarrow> write_op list \<Rightarrow> http_request \<Rightarrow>
    audit_state \<Rightarrow> (audit_state \<times> audit_entry option) \<times> http_writer" where
  "AuditAuthFailures = auditFailures 401"

text \<open>The goroutine.\<close>

definition settle_log :: "audit_repo \<Rightarrow> audit_env \<Rightarrow> audit_state \<times> audit_entry option \<Rightarrow> audit_state" where
  "settle_log A v p = (case snd p of None \<Rightarrow> fst p | Some e \<Rightarrow> log_entry A v e (fst p))"


section \<open>The observed response\<close>

text \<open>The wrapped writer is in the state it would have without the audit, and once a header was written the recorded
  status is the one it fixed.\<close>

fun plain_op :: "write_op \<Rightarrow> bool" where
  "plain_op (WriteHeader c) = (\<not> informational c)"
| "plain_op _ = True"

definition observes :: "audit_writer \<Rightarrow> http_writer \<Rightarrow> bool" where
  "observes w h \<longleftrightarrow> aw_inner w = h \<and> (aw_wroteHeader w \<longrightarrow> hw_status h \<noteq> None)"

definition in_step :: "audit_writer \<Rightarrow> bool" where
  "in_step w \<longleftrightarrow> hw_status (aw_inner w) = (if aw_wroteHeader w then Some (aw_status w) else None) \<and> (\<not> aw_wroteHeader w \<longrightarrow> aw_status w = 200)"

lemma http_header_open: "hw_status h = None \<Longrightarrow> \<not> informational c \<Longrightarrow> http_header c h = h\<lparr>hw_status := Some c\<rparr>"
  "hw_status h \<noteq> None \<Longrightarrow> http_header c h = h"
  by (simp_all add: http_header_def)

lemma not_informational_200: "\<not> informational 200" "informational 103"
  by (simp_all add: informational_def)

lemma http_bytes_after_header [simp]: "http_bytes b (http_header 200 h) = http_bytes b h"
  by (simp add: http_bytes_def http_header_def informational_def)

lemma http_bytes_fixed: "hw_status (http_bytes b h) \<noteq> None"
  by (simp add: http_bytes_def http_header_def informational_def Let_def)

lemma audit_op_observes:
  assumes "observes w h" "plain_op op"
  shows "observes (audit_op op w) (http_op op h)"
proof (cases op)
  case (WriteHeader c)
  then show ?thesis using assms by (auto simp: observes_def aw_WriteHeader_def http_header_def)
next
  case (WriteBytes b)
  then show ?thesis using assms http_bytes_fixed [of b h] by (auto simp: observes_def aw_Write_def aw_WriteHeader_def)
next
  case (ReadFrom b)
  then show ?thesis using assms http_bytes_fixed [of b h] by (auto simp: observes_def aw_ReadFrom_def aw_WriteHeader_def)
next
  case Flush
  then show ?thesis using assms by (auto simp: observes_def aw_Flush_def http_header_def informational_def)
qed

lemma audit_ops_observe:
  assumes "observes w h" "list_all plain_op ops"
  shows "observes (fold audit_op ops w) (fold http_op ops h)"
  using assms by (induction ops arbitrary: w h) (auto intro: audit_op_observes)

lemma audit_op_in_step:
  assumes "in_step w" "aw_wroteHeader w \<or> op \<noteq> Flush" "plain_op op"
  shows "in_step (audit_op op w) \<and> aw_wroteHeader (audit_op op w)"
  using assms
  by (cases op) (auto simp: in_step_def aw_WriteHeader_def aw_Write_def aw_ReadFrom_def aw_Flush_def http_header_def http_bytes_def
      not_informational_200 Let_def)

lemma audit_ops_in_step:
  assumes "in_step w" "aw_wroteHeader w" "list_all plain_op ops"
  shows "in_step (fold audit_op ops w)"
  using assms by (induction ops arbitrary: w) (auto dest: audit_op_in_step)

lemma audited_status:
  assumes "list_all plain_op ops" "ops = [] \<or> hd ops \<noteq> Flush"
  shows "hw_status (http_finish (aw_inner (audited ops))) = Some (aw_status (audited ops))"
proof -
  have start: "in_step newAuditResponseWriter" by (simp add: in_step_def newAuditResponseWriter_def new_writer_def)
  have "in_step (audited ops)"
  proof (cases ops)
    case (Cons op ops')
    with assms start have "in_step (audit_op op newAuditResponseWriter) \<and> aw_wroteHeader (audit_op op newAuditResponseWriter)"
      by (intro audit_op_in_step) auto
    with assms(1) Cons show ?thesis by (auto simp: audited_def intro: audit_ops_in_step)
  qed (use start in \<open>simp add: audited_def\<close>)
  then show ?thesis by (auto simp: in_step_def http_finish_def http_header_def informational_def)
qed

lemma audited_response:
  assumes "list_all plain_op ops"
  shows "http_finish (aw_inner (audited ops)) = unaudited ops"
proof -
  have "observes newAuditResponseWriter new_writer" by (simp add: observes_def newAuditResponseWriter_def)
  from audit_ops_observe [OF this assms] show ?thesis by (simp add: observes_def audited_def unaudited_def)
qed

text \<open>An informational header counts as the header of the response: the status written after it never arrives.\<close>

lemma informational_swallows_status:
  "hw_status (http_finish (aw_inner (audited [WriteHeader 103, WriteHeader 404]))) = Some 200" "hw_status (unaudited [WriteHeader 103, WriteHeader 404]) = Some 404"
  by (simp_all add: audited_def unaudited_def newAuditResponseWriter_def new_writer_def aw_WriteHeader_def http_header_def http_finish_def informational_def)


section \<open>Every request leaves a trace\<close>

text \<open>The call of the repository either adds one row or is counted as a failure.\<close>

lemma log_entry_cases:
  "(\<exists>s1. Log A v e s = (s1, Inr ()) \<and> log_entry A v e s = s1) \<or>
   as_rows (log_entry A v e s) = as_rows s \<and> as_failures (log_entry A v e s) = Suc (as_failures s)"
proof (cases "Log A v e s")
  case (Pair s1 r)
  show ?thesis
  proof (cases r)
    case (Inl er)
    with Pair have "s1 = s" by (auto simp: Log_def Let_def split: sum.splits option.splits if_splits prod.splits)
    with Pair Inl show ?thesis by (simp add: log_entry_def logAuditFailure_def RecordWriteFailure_def)
  qed (use Pair in \<open>simp add: log_entry_def\<close>)
qed

lemma Log_failures: "as_failures (fst (Log A v e s)) = as_failures s"
  by (auto simp: Log_def Let_def split: sum.splits option.splits prod.splits)

lemma settle_dispatch: "settle_log A v (dispatch_log A v critical e s) = log_entry A v e s"
  by (simp add: settle_log_def dispatch_log_def)

lemma AuditLog_settled:
  assumes "AuditLog A parse v ops extras r s = (p, w)"
  shows "settle_log A v p = log_entry A v (request_entry r (map_option UserID (rq_claims r))
      (auditMetadata parse r (aw_status (audited ops)) ++ extras)) s \<and> w = http_finish (aw_inner (audited ops))"
  using assms by (auto simp: AuditLog_def Let_def settle_dispatch)


lemma auditEventFor_resource [simp]: "ev_resource (auditEventFor method path) = path"
  by (simp add: auditEventFor_def Let_def if_distrib [of ev_resource] cong: if_cong)

lemma request_entry_fields [simp]: "en_UserID (request_entry r uid meta) = uid" "en_Resource (request_entry r uid meta) = rq_path r"
  "en_Action (request_entry r uid meta) = ev_action (auditEventFor (rq_method r) (rq_path r))" "en_Metadata (request_entry r uid meta) = meta"
  "en_UserAgent (request_entry r uid meta) = Header_Get r ''User-Agent''"
  by (simp_all add: request_entry_def Let_def)

text \<open>The metadata of the middleware in the readable columns.\<close>

lemma auditMetadata_clear:
  "auditMetadata parse r status ''outcome'' = Some (JStr (auditOutcome status))" "auditMetadata parse r status ''status'' = Some (JInt status)"
  "k \<in> set clear_keys \<Longrightarrow> k \<noteq> ''outcome'' \<Longrightarrow> k \<noteq> ''status'' \<Longrightarrow> auditMetadata parse r status k = None"
  by (auto simp: auditMetadata_def clear_keys_def Let_def split: option.splits)

lemma locate_clear:
  assumes "\<forall>f country city. au_locator A = Some f \<longrightarrow> f (en_IPAddress e) = (country, city) \<longrightarrow> json_str country \<and> json_str city"
    and "en_Metadata e ''location'' = None"
  shows "en_Metadata (locate A e) k = en_Metadata e k \<or> k = ''location'' \<and> (\<exists>v. en_Metadata (locate A e) k = Some v \<and> clean_jv v)"
proof -
  have "sorted [''city'', ''country'']" by code_simp
  moreover have "visible ''city''" "visible ''country''" by (simp_all add: visible_def)
  ultimately show ?thesis using assms(1) visible_json_str by (auto simp: locate_def split: option.splits prod.splits)
qed

text \<open>C32: auditing is invisible to the client, and no request escapes it silently. Behind \<open>AuditLog\<close> the client gets exactly
  the response of the handler, and the recorded status is the one the client got. Once the goroutine of a non-critical event has run,
  there is exactly one new row, with the action, path, user and outcome of the request, or the failure is counted.\<close>

theorem request_leaves_trace:
  assumes laws: "audit_codec c J P" "au_sec A = Some c" "au_json A = J" "au_pg A = P"
    and loc: "\<forall>f ip country city. au_locator A = Some f \<longrightarrow> f ip = (country, city) \<longrightarrow> json_str country \<and> json_str city"
    and extras: "\<forall>k\<in>set clear_keys. extras k = None"
    and ops: "list_all plain_op ops" "ops = [] \<or> hd ops \<noteq> Flush"
    and run: "AuditLog A parse v ops extras r s = (p, w)" "settle_log A v p = s'"
    and status: "hw_status w = Some st" "\<bar>st\<bar> \<le> 2 ^ 53"
  shows "w = unaudited ops \<and>
    ((\<exists>row d. as_rows s' = as_rows s @ [row] \<and> as_failures s' = as_failures s \<and>
        ar_action row = ev_action (auditEventFor (rq_method r) (rq_path r)) \<and> ar_resource row = rq_path r \<and>
        (\<forall>cl. rq_claims r = Some cl \<longrightarrow> ar_user row = pg_uuid P (UserID cl) \<and> ar_user row \<noteq> None) \<and> (rq_claims r = None \<longrightarrow> ar_user row = None) \<and>
        ar_meta row = Some d \<and> d ''outcome'' = Some (JStr (auditOutcome st)) \<and> d ''status'' = Some (JInt st)) \<or>
     as_rows s' = as_rows s \<and> as_failures s' = Suc (as_failures s))"
proof -
  define e where "e = request_entry r (map_option UserID (rq_claims r)) (auditMetadata parse r (aw_status (audited ops)) ++ extras)"
  have s': "s' = log_entry A v e s" and w: "w = http_finish (aw_inner (audited ops))"
    using AuditLog_settled [OF run(1)] run(2) by (auto simp: e_def)
  have st: "aw_status (audited ops) = st" using audited_status [OF ops] status(1) w by simp
  have meta: "en_Metadata e k = auditMetadata parse r st k" if "k \<in> set clear_keys" for k
    using that extras by (simp add: e_def st map_add_def)
  have keys: "''outcome'' \<in> set clear_keys" "''status'' \<in> set clear_keys" "''location'' \<in> set clear_keys" by (simp_all add: clear_keys_def)
  have "''location'' \<noteq> ''outcome''" "''location'' \<noteq> ''status''" by simp_all
  with meta [OF keys(3)] keys(3) have nl: "en_Metadata e ''location'' = None" by (simp add: auditMetadata_clear(3))
  note lc = locate_clear [of A e, OF _ nl]
  have lm: "en_Metadata (locate A e) ''outcome'' = Some (JStr (auditOutcome st))" "en_Metadata (locate A e) ''status'' = Some (JInt st)"
    using lc [of "''outcome''"] lc [of "''status''"] loc meta [OF keys(1)] meta [OF keys(2)] by (auto simp: auditMetadata_clear(1,2))
  have clean: "\<forall>k\<in>set clear_keys. \<forall>v. en_Metadata (locate A e) k = Some v \<longrightarrow> clean_jv v"
  proof (intro ballI allI impI)
    fix k x assume k: "k \<in> set clear_keys" "en_Metadata (locate A e) k = Some x"
    have "visible (auditOutcome st)" by (simp add: auditOutcome_def visible_def)
    then have "auditMetadata parse r st k = Some y \<Longrightarrow> clean_jv y" for y
      using auditMetadata_clear(1,2) [of parse r st] auditMetadata_clear(3) [of k parse r st] k(1) status(2) visible_json_str by (cases "k = ''outcome''"; cases "k = ''status''") auto
    with k lc [of k] loc meta [OF k(1)] show "clean_jv x" by auto
  qed
  from log_entry_cases [of A v e s] show ?thesis
  proof (elim disjE exE conjE)
    fix s1 assume l: "Log A v e s = (s1, Inr ())" "log_entry A v e s = s1"
    obtain t col uid ip where t: "stored_meta A (en_Metadata (locate A e)) = Inr t" "cast_opt (pg_jsonb P) t = Some col"
      and u: "cast_opt (pg_uuid P) (en_UserID e) = Some uid"
      and row: "as_rows s1 = as_rows s @ [\<lparr>ar_id = ae_newid v, ar_user = uid, ar_action = en_Action e, ar_resource = en_Resource e, ar_ip = ip,
         ar_ua = nullStr (en_UserAgent e), ar_meta = col, ar_created = ae_sqlnow v\<rparr>]"
      using Log_row [OF l(1)] laws(4) by metis
    have ne: "en_Metadata (locate A e) \<noteq> Map.empty" using lm(1) by auto
    obtain d where d: "col = Some d" "\<forall>k\<in>set clear_keys. d k = (if en_Metadata (locate A e) k = Some JNull then None else en_Metadata (locate A e) k)"
      using audit_codec.stored_clear_columns [OF laws(1) ne clean laws(2,3) t] by blast
    have "as_failures s1 = as_failures s" using Log_failures [of A v e s] l(1) by simp
    moreover have "\<forall>cl. rq_claims r = Some cl \<longrightarrow> uid = pg_uuid P (UserID cl) \<and> uid \<noteq> None" "rq_claims r = None \<longrightarrow> uid = None"
      using u by (auto simp: e_def cast_opt_def)
    moreover have "d ''outcome'' = Some (JStr (auditOutcome st))" "d ''status'' = Some (JInt st)" using d(2) keys(1,2) lm by auto
    ultimately show ?thesis
      using row d(1) l(2) s' w audited_response [OF ops(1)] by (auto simp: e_def)
  qed (use s' w audited_response [OF ops(1)] in auto)
qed


definition demo_listing :: http_request where
  "demo_listing = \<lparr>rq_method = ''GET'', rq_path = ''/api/v1/admin/users'', rq_remote = ''1.2.3.4'', rq_headers = [], rq_cookies = [],
     rq_claims = Some (zero_claims\<lparr>UserID := ''u1'', SubType := SubTypeUser\<rparr>)\<rparr>"

theorem request_leaves_trace_witness:
  "\<exists>p w (s' :: audit_state). AuditLog demo_audit (\<lambda>_. None) demo_audit_env [WriteHeader 200, WriteBytes [1]] Map.empty demo_listing no_audit = (p, w) \<and>
    settle_log demo_audit demo_audit_env p = s' \<and> w = unaudited [WriteHeader 200, WriteBytes [1]] \<and>
    (length (as_rows s') = 1 \<and> as_failures s' = 0 \<or> as_rows s' = [] \<and> as_failures s' = 1)"
proof -
  obtain p w where run: "AuditLog demo_audit (\<lambda>_. None) demo_audit_env [WriteHeader 200, WriteBytes [1]] Map.empty demo_listing no_audit = (p, w)"
    by fastforce
  have w: "hw_status w = Some 200"
    using AuditLog_settled [OF run]
    by (simp add: audited_def newAuditResponseWriter_def new_writer_def aw_WriteHeader_def aw_Write_def http_bytes_def http_header_def http_finish_def informational_def Let_def)
  have loc: "\<forall>f ip country city. au_locator demo_audit = Some f \<longrightarrow> f ip = (country, city) \<longrightarrow> json_str country \<and> json_str city"
    by (simp add: demo_audit_def visible_json_str visible_def)
  have "list_all plain_op [WriteHeader 200, WriteBytes [1]]" "[WriteHeader 200, WriteBytes [1]] = [] \<or> hd [WriteHeader 200, WriteBytes [1]] \<noteq> Flush"
    by (simp_all add: informational_def)
  from request_leaves_trace [OF demo_codec.audit_codec_axioms demo_audit_simps(1-3) loc _ this run refl w]
  show ?thesis using run by (auto simp: no_audit_def)
qed



end
