(* ===== verification/Session_Handler.thy ===== *)
theory Session_Handler
  imports Http_Core Session_Repo
begin

text \<open>
  \<open>internal/session/handler.go\<close>: the handlers of a user's own sessions and the event stream that a browser keeps open. The
  stream's loop is a function of the turns of its \<open>select\<close>. PostgreSQL's cast of a text to \<open>uuid\<close> is a parameter: it gives
  the canonical text of the id, \<open>None\<close> is its error.
\<close>

section \<open>Handlers\<close>

definition hashRefreshToken :: "(string \<Rightarrow> bytes) \<Rightarrow> string \<Rightarrow> string" where
  "hashRefreshToken sha token = hex_encode (sha token)"

definition current_hash :: "(string \<Rightarrow> bytes) \<Rightarrow> http_request \<Rightarrow> string" where
  "current_hash sha r = (case Cookie r ''refresh_token'' of
     None \<Rightarrow> '''' | Some v \<Rightarrow> if v = '''' then '''' else hashRefreshToken sha v)"

definition h_sess_List :: "(string \<Rightarrow> bytes) \<Rightarrow> (string \<Rightarrow> string option) \<Rightarrow> bool \<Rightarrow> instant \<Rightarrow> http_request \<Rightarrow> session_repo \<Rightarrow>
    (session_row \<times> bool) list http_reply" where
  "h_sess_List sha uuid ok now r st =
    (case rq_claims r of
       None \<Rightarrow> HErr 401 ''unauthorized''
     | Some claims \<Rightarrow>
       (case uuid (UserID claims) of
          None \<Rightarrow> HErr 500 ''internal_error''
        | Some uid \<Rightarrow>
          (case ListForUser ok now uid (current_hash sha r) st of Inl (_ :: unit repo_error) \<Rightarrow> HErr 500 ''internal_error'' | Inr ss \<Rightarrow> HOk ss)))"

definition h_sess_Revoke :: "(string \<Rightarrow> string option) \<Rightarrow> bool \<Rightarrow> instant \<Rightarrow> http_request \<Rightarrow> string \<Rightarrow> session_repo \<Rightarrow>
    session_repo \<times> unit http_reply" where
  "h_sess_Revoke uuid ok now r sid st =
    (case rq_claims r of
       None \<Rightarrow> (st, HErr 401 ''unauthorized'')
     | Some claims \<Rightarrow>
       if sid = '''' then (st, HErr 400 ''invalid_request'')
       else (case (uuid sid, uuid (UserID claims)) of
           (Some rid, Some uid) \<Rightarrow>
             (case RevokeByID ok now rid uid st of
                (st', Inl (ErrNotFound :: unit repo_error)) \<Rightarrow> (st', HErr 404 ''not_found'')
              | (st', Inl _) \<Rightarrow> (st', HErr 500 ''internal_error'')
              | (st', Inr _) \<Rightarrow> (st', HOk ()))
         | _ \<Rightarrow> (st, HErr 500 ''internal_error'')))"

definition h_sess_RevokeOthers :: "(string \<Rightarrow> bytes) \<Rightarrow> (string \<Rightarrow> string option) \<Rightarrow> bool \<Rightarrow> instant \<Rightarrow> http_request \<Rightarrow> session_repo \<Rightarrow>
    session_repo \<times> unit http_reply" where
  "h_sess_RevokeOthers sha uuid ok now r st =
    (case rq_claims r of
       None \<Rightarrow> (st, HErr 401 ''unauthorized'')
     | Some claims \<Rightarrow>
       (case Cookie r ''refresh_token'' of
          None \<Rightarrow> (st, HErr 400 ''invalid_request'')
        | Some v \<Rightarrow>
          if v = '''' then (st, HErr 400 ''invalid_request'')
          else (case uuid (UserID claims) of
              None \<Rightarrow> (st, HErr 500 ''internal_error'')
            | Some uid \<Rightarrow>
              (case RevokeOtherSessions ok now uid (hashRefreshToken sha v) st of
                 (st', Inl (_ :: unit repo_error)) \<Rightarrow> (st', HErr 500 ''internal_error'') | (st', Inr _) \<Rightarrow> (st', HOk ())))))"

section \<open>Event stream\<close>

text \<open>A turn of the \<open>select\<close>: the client has gone, a tick at a time with the answer of \<open>IsRevoked\<close>, an event of the hub.
  An expiry of 0 stands for a token without one.\<close>

datatype stream_turn = StreamDone | StreamTick instant bool | StreamEvent hub_event

datatype stream_frame = FConnected | FExpired | FRevoked | FKeepAlive | FChange

text \<open>What a turn writes, and whether the loop goes on.\<close>

fun stream_step :: "claims \<Rightarrow> bool \<Rightarrow> string \<Rightarrow> stream_turn \<Rightarrow> stream_frame list \<times> bool" where
  "stream_step claims checker currentHash StreamDone = ([], False)"
| "stream_step claims checker currentHash (StreamTick now isRevoked) =
    (if ExpiresAt claims \<noteq> 0 \<and> \<not> now < ExpiresAt claims * go_second then ([FExpired], False)
     else if JTI claims \<noteq> '''' \<and> checker \<and> isRevoked then ([FRevoked], False)
     else ([FKeepAlive], True))"
| "stream_step claims checker currentHash (StreamEvent event) =
    (case ev_kind event of
       RevokedAll \<Rightarrow> ([FRevoked], False)
     | RevokedOthers \<Rightarrow> if ev_hash event = currentHash then ([FChange], True) else ([FRevoked], False)
     | Revoked \<Rightarrow> if ev_hash event = currentHash then ([FRevoked], False) else ([FChange], True)
     | Change \<Rightarrow> ([FChange], True))"

fun stream_loop :: "claims \<Rightarrow> bool \<Rightarrow> string \<Rightarrow> stream_turn list \<Rightarrow> stream_frame list \<times> bool" where
  "stream_loop claims checker currentHash [] = ([], True)"
| "stream_loop claims checker currentHash (t # ts) =
    (case stream_step claims checker currentHash t of
       (out, False) \<Rightarrow> (out, False)
     | (out, True) \<Rightarrow> (case stream_loop claims checker currentHash ts of (out', open) \<Rightarrow> (out @ out', open)))"

text \<open>\<open>Events\<close> up to some point of its life: the frames written and whether it is still open; a closed one unsubscribes.\<close>

definition h_sess_Events :: "(string \<Rightarrow> bytes) \<Rightarrow> bool \<Rightarrow> bool \<Rightarrow> nat \<Rightarrow> http_request \<Rightarrow> stream_turn list \<Rightarrow> event_hub \<Rightarrow>
    event_hub \<times> (stream_frame list \<times> bool) http_reply" where
  "h_sess_Events sha flusher checker cid r turns h =
    (case rq_claims r of
       None \<Rightarrow> (h, HErr 401 ''unauthorized'')
     | Some claims \<Rightarrow>
       if \<not> flusher then (h, HErr 500 ''streaming_unsupported'')
       else (case stream_loop claims checker (current_hash sha r) turns of (out, open) \<Rightarrow>
           (let h1 = Subscribe cid (UserID claims) h in (if open then h1 else Unsubscribe cid h1, HOk (FConnected # out, open)))))"

section \<open>A revoked session and its stream\<close>

text \<open>The turns that end a stream.\<close>

definition ends_stream :: "claims \<Rightarrow> bool \<Rightarrow> string \<Rightarrow> stream_turn \<Rightarrow> bool" where
  "ends_stream claims checker currentHash t \<longleftrightarrow> \<not> snd (stream_step claims checker currentHash t)"

lemma stream_loop_split:
  assumes "\<forall>t\<in>set pre. \<not> ends_stream claims checker ch t" "ends_stream claims checker ch t"
  shows "stream_loop claims checker ch (pre @ t # post) =
    (concat (map (fst \<circ> stream_step claims checker ch) pre) @ fst (stream_step claims checker ch t), False)"
  using assms by (induction pre) (auto simp: ends_stream_def split: prod.splits bool.splits)

lemma stream_loop_open:
  "snd (stream_loop claims checker ch ts) \<longleftrightarrow> (\<forall>t\<in>set ts. \<not> ends_stream claims checker ch t)"
  by (induction ts) (auto simp: ends_stream_def split: prod.splits bool.splits)

lemma receive_buffer:
  assumes "distinct (map hc_id h)" "c \<in> set h"
  shows "fst (receive (hc_id c) h) = hc_buf c"
proof -
  have "List.find (\<lambda>d. hc_id d = hc_id c) h = Some c"
    using assms by (induction h) auto
  then show ?thesis by (simp add: receive_def)
qed

text \<open>What the stream's channel holds after a broadcast.\<close>

lemma broadcast_received:
  assumes "distinct (map hc_id h)" "c \<in> set h" "hc_user c = uid" "uid \<noteq> ''''"
  shows "fst (receive (hc_id c) (BroadcastEvent uid e h)) = (case hc_buf c of None \<Rightarrow> Some e | Some e' \<Rightarrow> Some e')"
proof -
  let ?c = "if hc_buf c = None then c\<lparr>hc_buf := Some e\<rparr> else c"
  have "?c \<in> set (BroadcastEvent uid e h)" by (rule BroadcastEvent_delivery [OF assms(2-4)])
  moreover have "distinct (map hc_id (BroadcastEvent uid e h))" using assms(1) by simp
  ultimately have "fst (receive (hc_id ?c) (BroadcastEvent uid e h)) = hc_buf ?c" by (intro receive_buffer)
  then show ?thesis by (auto split: option.splits if_splits)
qed


lemma received_empty:
  assumes "distinct (map hc_id h)" "c \<in> set h"
  shows "fst (receive (hc_id c) (snd (receive (hc_id c) h))) = None"
proof -
  let ?f = "\<lambda>d. if hc_id d = hc_id c then d\<lparr>hc_buf := None\<rparr> else d"
  have "distinct (map hc_id (map ?f h))" using assms(1) by (simp add: comp_def if_distrib cong: if_cong)
  moreover have "c\<lparr>hc_buf := None\<rparr> \<in> set (map ?f h)" using assms(2) by force
  ultimately have "fst (receive (hc_id (c\<lparr>hc_buf := None\<rparr>)) (map ?f h)) = hc_buf (c\<lparr>hc_buf := None\<rparr>)" by (rule receive_buffer)
  then show ?thesis by (simp add: receive_def)
qed

lemma BroadcastEvent_member: "c \<in> set h \<Longrightarrow> \<exists>d\<in>set (BroadcastEvent uid e h). hc_id d = hc_id c"
proof -
  assume "c \<in> set h"
  then have "hc_id c \<in> set (map hc_id (BroadcastEvent uid e h))" unfolding BroadcastEvent_ids by simp
  then show ?thesis by (metis image_iff set_map)
qed

lemma RevokeAllForUser_run:
  assumes "RevokeAllForUser True revoker uid (st, o1) = ((st', o2), res)"
  shows "hub st' = BroadcastRevokedAll uid (hub st)"
    "rows st' = sql_update (\<lambda>r. s_user r = uid \<and> \<not> s_revoked r) (\<lambda>r. r\<lparr>s_revoked := True, s_reason := Some ''mass_revoke''\<rparr>) (rows st)"
  using assms by (auto simp: RevokeAllForUser_def Let_def split: option.splits prod.splits)

text \<open>C39: an open event stream can outlive its session. After every session of a user was revoked, an idle stream of
  the user gets the notice and ends. But a channel holds one event: if the stream has not yet read an earlier harmless event, the
  notice is dropped, and the stream of the revoked session goes on, for as long as the access token lives. The check at each
  tick ends it at the expiry of the token.\<close>

theorem revoked_stream_may_stay_open:
  assumes hub: "distinct (map hc_id (hub st))" "c \<in> set (hub st)" "hc_user c = uid" "uid \<noteq> ''''"
    and run: "RevokeAllForUser True revoker uid (st, o1) = ((st', o2), res)"
  shows "(\<forall>r\<in>set (rows st'). s_user r = uid \<longrightarrow> s_revoked r) \<and>
    (hc_buf c = None \<longrightarrow> (\<exists>e. fst (receive (hc_id c) (hub st')) = Some e \<and> stream_step claims checker ch (StreamEvent e) = ([FRevoked], False))) \<and>
    (\<forall>e. hc_buf c = Some e \<and> \<not> ends_stream claims checker ch (StreamEvent e) \<longrightarrow>
      fst (receive (hc_id c) (hub st')) = Some e \<and> fst (receive (hc_id c) (snd (receive (hc_id c) (hub st')))) = None \<and>
      (\<forall>ticks. (\<forall>t\<in>set ticks. \<exists>now. t = StreamTick now False \<and> (ExpiresAt claims = 0 \<or> now < ExpiresAt claims * go_second)) \<longrightarrow>
         snd (stream_loop claims checker ch (StreamEvent e # ticks)))) \<and>
    (\<forall>pre now b post. ExpiresAt claims \<noteq> 0 \<and> ExpiresAt claims * go_second \<le> now \<longrightarrow>
      \<not> snd (stream_loop claims checker ch (pre @ StreamTick now b # post)))"
proof (intro conjI)
  have h': "hub st' = BroadcastEvent uid \<lparr>ev_kind = RevokedAll, ev_hash = ''''\<rparr> (hub st)"
    using RevokeAllForUser_run(1) [OF run] by (simp add: BroadcastRevokedAll_def)
  note got = broadcast_received [OF hub, of "\<lparr>ev_kind = RevokedAll, ev_hash = ''''\<rparr>", folded h']
  show "\<forall>r\<in>set (rows st'). s_user r = uid \<longrightarrow> s_revoked r"
  proof
    fix r assume "r \<in> set (rows st')"
    then obtain q where "r = (if s_user q = uid \<and> \<not> s_revoked q then q\<lparr>s_revoked := True, s_reason := Some ''mass_revoke''\<rparr> else q)"
      unfolding RevokeAllForUser_run(2) [OF run] sql_update_set by blast
    then show "s_user r = uid \<longrightarrow> s_revoked r" by simp
  qed
  show "hc_buf c = None \<longrightarrow> (\<exists>e. fst (receive (hc_id c) (hub st')) = Some e \<and> stream_step claims checker ch (StreamEvent e) = ([FRevoked], False))"
    using got by simp
  show "\<forall>pre now b post. ExpiresAt claims \<noteq> 0 \<and> ExpiresAt claims * go_second \<le> now \<longrightarrow>
      \<not> snd (stream_loop claims checker ch (pre @ StreamTick now b # post))"
    by (auto simp: stream_loop_open ends_stream_def)
  show "\<forall>e. hc_buf c = Some e \<and> \<not> ends_stream claims checker ch (StreamEvent e) \<longrightarrow>
      fst (receive (hc_id c) (hub st')) = Some e \<and> fst (receive (hc_id c) (snd (receive (hc_id c) (hub st')))) = None \<and>
      (\<forall>ticks. (\<forall>t\<in>set ticks. \<exists>now. t = StreamTick now False \<and> (ExpiresAt claims = 0 \<or> now < ExpiresAt claims * go_second)) \<longrightarrow>
         snd (stream_loop claims checker ch (StreamEvent e # ticks)))"
  proof (intro allI impI conjI)
    fix e assume e: "hc_buf c = Some e \<and> \<not> ends_stream claims checker ch (StreamEvent e)"
    then show "fst (receive (hc_id c) (hub st')) = Some e" using got by simp
    obtain d where "d \<in> set (hub st')" "hc_id d = hc_id c" using BroadcastEvent_member [OF hub(2)] h' by metis
    moreover have "distinct (map hc_id (hub st'))" using hub(1) h' by simp
    ultimately show "fst (receive (hc_id c) (snd (receive (hc_id c) (hub st')))) = None" using received_empty by metis
    fix ticks assume "\<forall>t\<in>set ticks. \<exists>now. t = StreamTick now False \<and> (ExpiresAt claims = 0 \<or> now < ExpiresAt claims * go_second)"
    then have "\<forall>t\<in>set ticks. \<not> ends_stream claims checker ch t" by (force simp: ends_stream_def)
    then show "snd (stream_loop claims checker ch (StreamEvent e # ticks))" unfolding stream_loop_open using e by simp
  qed
qed

theorem revoked_stream_may_stay_open_witness:
  "\<exists>st'. fst (fst (RevokeAllForUser True (None :: (string \<Rightarrow> unit \<Rightarrow> unit \<times> bool) option) ''u''
      (\<lparr>rows = [], hub = Broadcast ''u'' (Subscribe 1 ''u'' [])\<rparr>, ()) :: (session_repo \<times> unit) \<times> (unit repo_error + unit))) = st' \<and>
    fst (receive 1 (hub st')) = Some \<lparr>ev_kind = Change, ev_hash = ''''\<rparr> \<and>
    snd (stream_loop (zero_claims\<lparr>ExpiresAt := 900\<rparr>) True ''h'' [StreamEvent \<lparr>ev_kind = Change, ev_hash = ''''\<rparr>, StreamTick go_minute False])"
proof -
  let ?st = "\<lparr>rows = [], hub = Broadcast ''u'' (Subscribe 1 ''u'' [])\<rparr> :: session_repo"
  let ?c = "\<lparr>hc_id = 1, hc_user = ''u'', hc_buf = Some \<lparr>ev_kind = Change, ev_hash = ''''\<rparr>\<rparr>"
  obtain st' where run: "RevokeAllForUser True (None :: (string \<Rightarrow> unit \<Rightarrow> unit \<times> bool) option) ''u'' (?st, ()) = ((st', ()), Inr () :: unit repo_error + unit)"
    by (simp add: RevokeAllForUser_def Let_def)
  have "distinct (map hc_id (hub ?st))" "?c \<in> set (hub ?st)" "hc_user ?c = ''u''" "''u'' \<noteq> ''''"
    by (simp_all add: hub_defs Subscribe_def)
  note r = revoked_stream_may_stay_open [OF this run, of "zero_claims\<lparr>ExpiresAt := 900\<rparr>" True "''h''"]
  have "\<not> ends_stream (zero_claims\<lparr>ExpiresAt := 900\<rparr>) True ''h'' (StreamEvent \<lparr>ev_kind = Change, ev_hash = ''''\<rparr>)"
    by (simp add: ends_stream_def)
  moreover have "\<forall>t\<in>set [StreamTick go_minute False]. \<exists>now. t = StreamTick now False \<and> (ExpiresAt (zero_claims\<lparr>ExpiresAt := 900\<rparr>) = 0 \<or>
      now < ExpiresAt (zero_claims\<lparr>ExpiresAt := 900\<rparr>) * go_second)" by simp
  ultimately have "fst (receive (hc_id ?c) (hub st')) = Some \<lparr>ev_kind = Change, ev_hash = ''''\<rparr> \<and>
      snd (stream_loop (zero_claims\<lparr>ExpiresAt := 900\<rparr>) True ''h'' [StreamEvent \<lparr>ev_kind = Change, ev_hash = ''''\<rparr>, StreamTick go_minute False])"
    using conjunct1 [OF conjunct2 [OF conjunct2 [OF r]]] by simp
  then show ?thesis using run by simp
qed

end
