(* ===== verification/Admin_Handler.thy ===== *)
theory Admin_Handler
  imports Session_Handler WebAuthn Validation Audit_Log
begin

text \<open>
  \<open>internal/admin/handler.go\<close>: the user administration. A path parameter is any spelling that PostgreSQL's cast to \<open>uuid\<close>
  takes: statements see the canonical id, while Go compares and passes on the spelling itself.
\<close>

section \<open>State\<close>

text \<open>The world of the handlers: the Redis of the lockout, the tables, and the state behind the OIDC revoker.\<close>

record ('r, 'o) admin_world = "'r guard_world" +
  ad_db :: user_db
  ad_sess :: session_repo
  ad_oidc :: 'o
  ad_mfa :: mfa_table
  ad_creds :: "cred_row list"
  ad_audit :: "audit_row list"

record ('r, 'd, 'o) admin_handler = "('r, 'd) guard_cfg" +
  ah_enc :: "encrypter option"
  ah_bcrypt :: "string \<Rightarrow> string option"
  ah_pw :: password_env
  ah_uuid :: "string \<Rightarrow> string option"
  ah_gouuid :: go_uuid
  ah_sessions :: bool
  ah_revoker :: "(string \<Rightarrow> 'o \<Rightarrow> 'o \<times> bool) option"
  ah_mfa :: bool
  ah_webauthn :: bool
  ah_posture :: bool
  ah_lockout :: bool

datatype admin_call = AdList | AdMfa | AdPasskeys | AdCreate | AdProfile | AdRoles | AdActive | AdRevoke string | AdSessions | AdFind | AdPosture

text \<open>The outside of a request: which statements the database executes, the clocks and a fresh id.\<close>

record admin_env =
  ae_stmt :: "admin_call \<Rightarrow> bool"
  ae_time :: instant
  ae_dbtime :: instant
  ae_fresh :: string

section \<open>Statements with a spelled id\<close>

definition spelled :: "('r, 'd, 'o) admin_handler \<Rightarrow> string \<Rightarrow> 'e \<Rightarrow> (string \<Rightarrow> 's \<times> ('e + 'a)) \<Rightarrow> 's \<Rightarrow> 's \<times> ('e + 'a)" where
  "spelled H pid err f s = (case ah_uuid H pid of None \<Rightarrow> (s, Inl err) | Some uid \<Rightarrow> f uid)"

text \<open>\<open>RevokeAllForUser\<close>: the rows of the canonical id, but the hub and the revoker get the spelling.\<close>

definition spelled_RevokeAll :: "('r, 'd, 'o) admin_handler \<Rightarrow> bool \<Rightarrow> string \<Rightarrow> session_repo \<times> 'o \<Rightarrow> (session_repo \<times> 'o) \<times> (unit repo_error + unit)" where
  "spelled_RevokeAll H ok pid w =
    spelled H pid ErrDB (\<lambda>uid.
      (case RevokeAllForUser ok (map_option (\<lambda>f _. f pid) (ah_revoker H)) uid w of
         ((st, o1), res) \<Rightarrow> ((st\<lparr>hub := (if ok then BroadcastRevokedAll pid (hub (fst w)) else hub (fst w))\<rparr>, o1), res))) w"

definition spelled_RevokeByID :: "('r, 'd, 'o) admin_handler \<Rightarrow> bool \<Rightarrow> instant \<Rightarrow> string \<Rightarrow> string \<Rightarrow> session_repo \<Rightarrow>
    session_repo \<times> (unit repo_error + unit)" where
  "spelled_RevokeByID H ok now sid pid st =
    spelled H sid ErrDB (\<lambda>rid. spelled H pid ErrDB (\<lambda>uid.
      (case RevokeByID ok now rid uid st of
         (st', Inl e) \<Rightarrow> (st', Inl e)
       | (st', Inr _) \<Rightarrow>
           (st'\<lparr>hub := (case sql_first (\<lambda>r. s_id r = rid \<and> s_user r = uid \<and> \<not> s_revoked r) (rows st) of
               None \<Rightarrow> hub st | Some r \<Rightarrow> Broadcast pid (BroadcastRevoked pid (s_hash r) (hub st)))\<rparr>, Inr ()))) st) st"

definition admin_RevokeAll :: "('r, 'd, 'o) admin_handler \<Rightarrow> bool \<Rightarrow> string \<Rightarrow> ('r, 'o) admin_world \<Rightarrow> ('r, 'o) admin_world \<times> bool" where
  "admin_RevokeAll H ok pid w =
    (case spelled_RevokeAll H ok pid (ad_sess w, ad_oidc w) of
       ((st, o1), res) \<Rightarrow> (w\<lparr>ad_sess := st, ad_oidc := o1\<rparr>, res = Inr ()))"

section \<open>Users\<close>

text \<open>\<open>containsRole\<close>; role names are ASCII, so that folding is the one of the 26 letters.\<close>

definition containsRole :: "string list \<Rightarrow> string \<Rightarrow> bool" where
  "containsRole names target = list_ex (\<lambda>n. EqualFold n target) names"

definition holds_admin :: "http_request \<Rightarrow> bool" where
  "holds_admin r = (case rq_claims r of None \<Rightarrow> False | Some c \<Rightarrow> containsRole (Roles c) ''admin'')"

definition is_self :: "http_request \<Rightarrow> string \<Rightarrow> bool" where
  "is_self r pid = (case rq_claims r of None \<Rightarrow> False | Some c \<Rightarrow> UserID c = pid)"

record admin_user =
  av_user :: user
  av_ActiveSessions :: nat
  av_MfaEnabled :: bool
  av_PasskeyCount :: nat

definition toResponse :: "user \<Rightarrow> nat \<Rightarrow> bool \<Rightarrow> nat \<Rightarrow> admin_user" where
  "toResponse u activeSessions mfaEnabled passkeyCount =
    \<lparr>av_user = u\<lparr>u_PasswordHash := '''', u_NotifySecurityEmails := False\<rparr>, av_ActiveSessions = activeSessions,
     av_MfaEnabled = mfaEnabled, av_PasskeyCount = passkeyCount\<rparr>"

definition admin_queryInt :: "string \<Rightarrow> int \<Rightarrow> int" where
  "admin_queryInt s def = (case Atoi s of (n, None) \<Rightarrow> if n \<ge> 0 then n else def | _ \<Rightarrow> def)"

definition h_ListUsers :: "('r, 'd, 'o) admin_handler \<Rightarrow> admin_env \<Rightarrow> (string \<Rightarrow> string) \<Rightarrow> ('r, 'o) admin_world \<Rightarrow> (admin_user list \<times> nat) http_reply" where
  "h_ListUsers H v q w =
    (case List_users (ah_enc H) (c_sha H) (ae_stmt v AdList) (ae_dbtime v)
        \<lparr>lp_Limit = admin_queryInt (q ''limit'') 25, lp_Offset = admin_queryInt (q ''offset'') 0, lp_SortBy = q ''sort_by'',
         lp_SortDir = q ''sort_dir'', lp_Email = q ''email'', lp_Status = q ''status'', lp_Role = q ''role''\<rparr> (ad_sess w) (ad_db w) of
       Inl _ \<Rightarrow> HErr 500 ''internal_error''
     | Inr (us, tot) \<Rightarrow>
       (let userIDs = map (u_ID \<circ> fst) us;
            mfaEnabled = (if ah_mfa H then (case EnabledForUsers (ae_stmt v AdMfa) userIDs (ad_mfa w) of Inl _ \<Rightarrow> {} | Inr s \<Rightarrow> s) else {});
            passkeyCounts = (if ah_webauthn H then (case CountByUsers (ae_stmt v AdPasskeys) userIDs (ad_creds w) of Inl _ \<Rightarrow> Map.empty | Inr m \<Rightarrow> m)
              else Map.empty)
        in HOk (map (\<lambda>(u, n). toResponse u n (u_ID u \<in> mfaEnabled) (case passkeyCounts (u_ID u) of None \<Rightarrow> 0 | Some k \<Rightarrow> k)) us, tot)))"

record create_user_req =
  cu_Email :: string
  cu_FirstName :: string
  cu_LastName :: string
  cu_Password :: string
  cu_Locale :: string
  cu_Roles :: "string list"

text \<open>The texts of the validation errors.\<close>

definition validation_code :: "password_error \<Rightarrow> string" where
  "validation_code e = (case e of EmailInvalid \<Rightarrow> ''email_invalid'' | PasswordTooShort \<Rightarrow> ''password_too_short'' | PasswordNoUpper \<Rightarrow> ''password_no_uppercase''
     | PasswordNoLower \<Rightarrow> ''password_no_lowercase'' | PasswordNoDigit \<Rightarrow> ''password_no_digit'' | PasswordNoSpecial \<Rightarrow> ''password_no_special''
     | PasswordTooShort6 \<Rightarrow> ''password_too_short_6'' | PasswordNoLetter \<Rightarrow> ''password_no_letter'' | PasswordCompromised \<Rightarrow> ''password_compromised'')"

definition h_CreateUser :: "('r, 'd, 'o) admin_handler \<Rightarrow> admin_env \<Rightarrow> http_request \<Rightarrow> create_user_req option \<Rightarrow> ('r, 'o) admin_world \<Rightarrow>
    ('r, 'o) admin_world \<times> admin_user http_reply" where
  "h_CreateUser H v r body w =
    (case body of
       None \<Rightarrow> (w, HErr 400 ''invalid_request'')
     | Some q \<Rightarrow>
       (case Email_check (cu_Email q) of
          Some e \<Rightarrow> (w, HErr 400 (validation_code e))
        | None \<Rightarrow>
          (case Password_check (ah_pw H) (cu_Password q) of
             Some e \<Rightarrow> (w, HErr 400 (validation_code e))
           | None \<Rightarrow>
             (let loc = (if cu_Locale q = '''' then ''tr'' else cu_Locale q) in
              if length (runes (TrimSpace (cu_FirstName q))) > 80 \<or> length (runes (TrimSpace (cu_LastName q))) > 80 then (w, HErr 400 ''invalid_profile'')
              else if containsRole (cu_Roles q) ''admin'' \<and> \<not> holds_admin r then (w, HErr 403 ''role_escalation_forbidden'')
              else (case RegisterWithRoles (ah_bcrypt H) (ah_enc H) (c_sha H) (ae_stmt v AdCreate) (ae_fresh v) (ae_dbtime v) (cu_Email q) (cu_Password q) loc
                  (cu_Roles q) (ad_db w) of
                (db1, Inl EmailTaken) \<Rightarrow> (w\<lparr>ad_db := db1\<rparr>, HErr 409 ''email_taken'')
              | (db1, Inl (UnknownRole _)) \<Rightarrow> (w\<lparr>ad_db := db1\<rparr>, HErr 422 ''unknown_role'')
              | (db1, Inl _) \<Rightarrow> (w\<lparr>ad_db := db1\<rparr>, HErr 500 ''internal_error'')
              | (db1, Inr u) \<Rightarrow>
                if cu_FirstName q = '''' \<and> cu_LastName q = '''' then (w\<lparr>ad_db := db1\<rparr>, HOk (toResponse u 0 False 0))
                else (case UpdateProfile (ah_enc H) (ae_stmt v AdProfile) (ae_dbtime v) (u_ID u) (cu_FirstName q) (cu_LastName q) db1 of
                    (db2, Inl InvalidProfile) \<Rightarrow> (w\<lparr>ad_db := db2\<rparr>, HErr 400 ''invalid_profile'')
                  | (db2, Inl _) \<Rightarrow> (w\<lparr>ad_db := db2\<rparr>, HErr 500 ''internal_error'')
                  | (db2, Inr u2) \<Rightarrow> (w\<lparr>ad_db := db2\<rparr>, HOk (toResponse u2 0 False 0))))))))"

text \<open>\<open>SetRoles\<close> looks the names up before it uses the id.\<close>

definition spelled_SetRoles :: "('r, 'd, 'o) admin_handler \<Rightarrow> bool \<Rightarrow> string \<Rightarrow> string list \<Rightarrow> user_db \<Rightarrow> user_db \<times> (user_error + unit)" where
  "spelled_SetRoles H ok pid roleNames db =
    (case ah_uuid H pid of
       Some uid \<Rightarrow> SetRoles ok uid roleNames db
     | None \<Rightarrow> (db, Inl (if ok then (case List.find (\<lambda>n. n \<notin> set (roles db)) roleNames of Some n \<Rightarrow> UnknownRole n | None \<Rightarrow> UserDB) else UserDB)))"

definition h_UpdateRoles :: "('r, 'd, 'o) admin_handler \<Rightarrow> admin_env \<Rightarrow> http_request \<Rightarrow> string \<Rightarrow> string list option \<Rightarrow> ('r, 'o) admin_world \<Rightarrow>
    ('r, 'o) admin_world \<times> unit http_reply" where
  "h_UpdateRoles H v r userID body w =
    (if is_self r userID then (w, HErr 403 ''self_modification_forbidden'')
     else case body of
         None \<Rightarrow> (w, HErr 400 ''invalid_request'')
       | Some roleNames \<Rightarrow>
         if containsRole roleNames ''admin'' \<and> \<not> holds_admin r then (w, HErr 403 ''role_escalation_forbidden'')
         else (case spelled_SetRoles H (ae_stmt v AdRoles) userID roleNames (ad_db w) of
             (db1, Inl (UnknownRole _)) \<Rightarrow> (w\<lparr>ad_db := db1\<rparr>, HErr 422 ''unknown_role'')
           | (db1, Inl LastAdmin) \<Rightarrow> (w\<lparr>ad_db := db1\<rparr>, HErr 409 ''last_admin'')
           | (db1, Inl _) \<Rightarrow> (w\<lparr>ad_db := db1\<rparr>, HErr 500 ''internal_error'')
           | (db1, Inr _) \<Rightarrow>
             if \<not> ah_sessions H then (w\<lparr>ad_db := db1\<rparr>, HOk ())
             else (case admin_RevokeAll H (ae_stmt v (AdRevoke userID)) userID (w\<lparr>ad_db := db1\<rparr>) of
                 (w2, ok) \<Rightarrow> (w2, if ok then HOk () else HErr 500 ''internal_error''))))"

definition h_SetStatus :: "('r, 'd, 'o) admin_handler \<Rightarrow> admin_env \<Rightarrow> http_request \<Rightarrow> string \<Rightarrow> bool option \<Rightarrow> ('r, 'o) admin_world \<Rightarrow>
    ('r, 'o) admin_world \<times> unit http_reply" where
  "h_SetStatus H v r userID body w =
    (if is_self r userID then (w, HErr 403 ''self_modification_forbidden'')
     else case body of
         None \<Rightarrow> (w, HErr 400 ''invalid_request'')
       | Some isActive \<Rightarrow>
         (case spelled H userID UserDB (\<lambda>uid. SetActive (ae_stmt v AdActive) (ae_dbtime v) uid isActive (ad_db w)) (ad_db w) of
            (db1, Inl UserNotFound) \<Rightarrow> (w\<lparr>ad_db := db1\<rparr>, HErr 404 ''not_found'')
          | (db1, Inl LastAdmin) \<Rightarrow> (w\<lparr>ad_db := db1\<rparr>, HErr 409 ''last_admin'')
          | (db1, Inl _) \<Rightarrow> (w\<lparr>ad_db := db1\<rparr>, HErr 500 ''internal_error'')
          | (db1, Inr _) \<Rightarrow>
            if isActive \<or> \<not> ah_sessions H then (w\<lparr>ad_db := db1\<rparr>, HOk ())
            else (case admin_RevokeAll H (ae_stmt v (AdRevoke userID)) userID (w\<lparr>ad_db := db1\<rparr>) of
                (w2, ok) \<Rightarrow> (w2, if ok then HOk () else HErr 500 ''internal_error''))))"

text \<open>The loop over the deactivated users stops at the first failure.\<close>

fun revoke_each :: "('r, 'd, 'o) admin_handler \<Rightarrow> admin_env \<Rightarrow> string list \<Rightarrow> ('r, 'o) admin_world \<Rightarrow> ('r, 'o) admin_world \<times> bool" where
  "revoke_each H v [] w = (w, True)"
| "revoke_each H v (uid # uids) w =
    (case admin_RevokeAll H (ae_stmt v (AdRevoke uid)) uid w of (w1, False) \<Rightarrow> (w1, False) | (w1, True) \<Rightarrow> revoke_each H v uids w1)"

text \<open>\<open>id = ANY($2)\<close>: the whole array is cast.\<close>

definition spelled_BulkSetActive :: "('r, 'd, 'o) admin_handler \<Rightarrow> bool \<Rightarrow> instant \<Rightarrow> string list \<Rightarrow> bool \<Rightarrow> user_db \<Rightarrow> user_db \<times> (user_error + unit)" where
  "spelled_BulkSetActive H ok now pids active db =
    (if \<exists>pid\<in>set pids. ah_uuid H pid = None then (db, Inl UserDB) else BulkSetActive ok now (map (the \<circ> ah_uuid H) pids) active db)"

definition h_BulkSetStatus :: "('r, 'd, 'o) admin_handler \<Rightarrow> admin_env \<Rightarrow> http_request \<Rightarrow> (string list \<times> bool) option \<Rightarrow> ('r, 'o) admin_world \<Rightarrow>
    ('r, 'o) admin_world \<times> unit http_reply" where
  "h_BulkSetStatus H v r body w =
    (case body of
       None \<Rightarrow> (w, HErr 400 ''invalid_request'')
     | Some (userIDs, isActive) \<Rightarrow>
       if userIDs = [] \<or> length userIDs > 200 then (w, HErr 400 ''invalid_request'')
       else
         (let filtered = filter (\<lambda>uid. \<not> is_self r uid) userIDs in
          if filtered = [] then (w, HOk ())
          else (case spelled_BulkSetActive H (ae_stmt v AdActive) (ae_dbtime v) filtered isActive (ad_db w) of
              (db1, Inl LastAdmin) \<Rightarrow> (w\<lparr>ad_db := db1\<rparr>, HErr 409 ''last_admin'')
            | (db1, Inl _) \<Rightarrow> (w\<lparr>ad_db := db1\<rparr>, HErr 500 ''internal_error'')
            | (db1, Inr _) \<Rightarrow>
              if isActive \<or> \<not> ah_sessions H then (w\<lparr>ad_db := db1\<rparr>, HOk ())
              else (case revoke_each H v filtered (w\<lparr>ad_db := db1\<rparr>) of
                  (w2, ok) \<Rightarrow> (w2, if ok then HOk () else HErr 500 ''internal_error'')))))"

section \<open>Sessions, factors and lockout of a user\<close>

definition h_ListUserSessions :: "('r, 'd, 'o) admin_handler \<Rightarrow> admin_env \<Rightarrow> string \<Rightarrow> ('r, 'o) admin_world \<Rightarrow> (session_row \<times> bool) list http_reply" where
  "h_ListUserSessions H v userID w =
    (if \<not> ah_sessions H then HErr 503 ''sessions_unavailable''
     else case ah_uuid H userID of
         None \<Rightarrow> HErr 500 ''internal_error''
       | Some uid \<Rightarrow> (case ListForUser (ae_stmt v AdSessions) (ae_dbtime v) uid '''' (ad_sess w) of
           Inl (_ :: unit repo_error) \<Rightarrow> HErr 500 ''internal_error'' | Inr ss \<Rightarrow> HOk ss))"

definition h_RevokeAllUserSessions :: "('r, 'd, 'o) admin_handler \<Rightarrow> admin_env \<Rightarrow> string \<Rightarrow> ('r, 'o) admin_world \<Rightarrow> ('r, 'o) admin_world \<times> unit http_reply" where
  "h_RevokeAllUserSessions H v userID w =
    (if \<not> ah_sessions H then (w, HErr 503 ''sessions_unavailable'')
     else case admin_RevokeAll H (ae_stmt v (AdRevoke userID)) userID w of
         (w2, ok) \<Rightarrow> (w2, if ok then HOk () else HErr 500 ''internal_error''))"

definition h_RevokeUserSession :: "('r, 'd, 'o) admin_handler \<Rightarrow> admin_env \<Rightarrow> string \<Rightarrow> string \<Rightarrow> ('r, 'o) admin_world \<Rightarrow> ('r, 'o) admin_world \<times> unit http_reply" where
  "h_RevokeUserSession H v userID sessionID w =
    (if \<not> ah_sessions H then (w, HErr 503 ''sessions_unavailable'')
     else case spelled_RevokeByID H (ae_stmt v AdSessions) (ae_dbtime v) sessionID userID (ad_sess w) of
         (st, Inl _) \<Rightarrow> (w\<lparr>ad_sess := st\<rparr>, HErr 500 ''internal_error'') | (st, Inr _) \<Rightarrow> (w\<lparr>ad_sess := st\<rparr>, HOk ()))"

text \<open>\<open>FindByID\<close> with a spelled id, and its two error answers.\<close>

definition find_or_err :: "('r, 'd, 'o) admin_handler \<Rightarrow> admin_env \<Rightarrow> string \<Rightarrow> ('r, 'o) admin_world \<Rightarrow> (int \<times> string) + user" where
  "find_or_err H v userID w =
    (case ah_uuid H userID of
       None \<Rightarrow> Inl (500, ''internal_error'')
     | Some uid \<Rightarrow> (case user_FindByID (ah_enc H) (ae_stmt v AdFind) uid (ad_db w) of
         Inl UserNotFound \<Rightarrow> Inl (404, ''not_found'') | Inl _ \<Rightarrow> Inl (500, ''internal_error'') | Inr u \<Rightarrow> Inr u))"

definition h_GetUserMfa :: "('r, 'd, 'o) admin_handler \<Rightarrow> admin_env \<Rightarrow> string \<Rightarrow> ('r, 'o) admin_world \<Rightarrow> (bool \<times> credential_meta list) http_reply" where
  "h_GetUserMfa H v userID w =
    (case find_or_err H v userID w of
       Inl (s, c) \<Rightarrow> HErr s c
     | Inr _ \<Rightarrow>
       (let uid = the (ah_uuid H userID) in
        case (if ah_mfa H then IsEnabledForUser (ae_stmt v AdMfa) uid (ad_mfa w) else Inr False) of
          Inl _ \<Rightarrow> HErr 500 ''internal_error''
        | Inr totpEnabled \<Rightarrow>
          (case (if ah_webauthn H then cred_ListMeta (ah_gouuid H) (ae_stmt v AdPasskeys) uid (ad_creds w) else Inr []) of
             Inl _ \<Rightarrow> HErr 500 ''internal_error'' | Inr credentials \<Rightarrow> HOk (totpEnabled, credentials))))"

record posture_stats =
  ps_TotalUsers :: nat
  ps_UsersWithoutMFA :: nat
  ps_UsersInactive30d :: nat

definition SecurityPosture :: "bool \<Rightarrow> instant \<Rightarrow> ('r, 'o) admin_world \<Rightarrow> user_error + posture_stats" where
  "SecurityPosture ok now w =
    (let act = filter us_active (users (ad_db w)) in
     if \<not> ok then Inl UserDB
     else Inr \<lparr>ps_TotalUsers = length act,
       ps_UsersWithoutMFA = length (filter (\<lambda>u. (case ad_mfa w (us_id u) of None \<Rightarrow> True | Some m \<Rightarrow> EnabledAt m = None) \<and>
         \<not> list_ex (\<lambda>k. cw_user k = us_id u) (ad_creds w)) act),
       ps_UsersInactive30d = length (filter (\<lambda>u. \<not> list_ex (\<lambda>a. ar_user a = Some (us_id u) \<and> ar_action a = ''auth.login_success'' \<and>
         ar_created a > now - 30 * 24 * go_hour) (ad_audit w)) act)\<rparr>)"

definition h_SecurityPosture :: "('r, 'd, 'o) admin_handler \<Rightarrow> admin_env \<Rightarrow> ('r, 'o) admin_world \<Rightarrow> posture_stats http_reply" where
  "h_SecurityPosture H v w =
    (if \<not> ah_posture H then HErr 503 ''unavailable''
     else case SecurityPosture (ae_stmt v AdPosture) (ae_dbtime v) w of Inl _ \<Rightarrow> HErr 500 ''internal_error'' | Inr s \<Rightarrow> HOk s)"

definition h_UnlockUser :: "('r, 'd, 'o) admin_handler \<Rightarrow> admin_env \<Rightarrow> string \<Rightarrow> ('r, 'o) admin_world \<Rightarrow> ('r, 'o) admin_world \<times> unit http_reply" where
  "h_UnlockUser H v userID w =
    (if \<not> ah_lockout H then (w, HErr 503 ''lockout_manager_unavailable'')
     else case find_or_err H v userID w of
         Inl (s, c) \<Rightarrow> (w, HErr s c)
       | Inr u \<Rightarrow> (UnlockUser H (ae_time v) (u_Email u) w, HOk ()))"


section \<open>Role changes\<close>

lemma admin_RevokeAll_db [simp]: "ad_db (fst (admin_RevokeAll H ok pid w)) = ad_db w"
  by (simp add: admin_RevokeAll_def split: prod.split)

lemma admin_RevokeAll_sessions:
  assumes "admin_RevokeAll H ok pid w = (w2, True)" "ah_uuid H pid = Some uid"
  shows "\<forall>r\<in>set (rows (ad_sess w2)). s_user r = uid \<longrightarrow> s_revoked r"
proof -
  obtain st o1 res where ra: "RevokeAllForUser ok (map_option (\<lambda>f _. f pid) (ah_revoker H)) uid (ad_sess w, ad_oidc w) = ((st, o1), res :: unit repo_error + unit)"
    by (metis prod.exhaust)
  then have w2: "rows (ad_sess w2) = rows st" "res = Inr ()"
    using assms by (auto simp: admin_RevokeAll_def spelled_RevokeAll_def spelled_def)
  with ra have "ok" by (auto simp: RevokeAllForUser_def split: if_splits)
  with ra have "RevokeAllForUser True (map_option (\<lambda>f _. f pid) (ah_revoker H)) uid (ad_sess w, ad_oidc w) = ((st, o1), res)" by simp
  note rows = RevokeAllForUser_run(2) [OF this]
  show ?thesis
  proof
    fix r assume "r \<in> set (rows (ad_sess w2))"
    then obtain q where "r = (if s_user q = uid \<and> \<not> s_revoked q then q\<lparr>s_revoked := True, s_reason := Some ''mass_revoke''\<rparr> else q)"
      unfolding w2(1) rows sql_update_set by blast
    then show "s_user r = uid \<longrightarrow> s_revoked r" by simp
  qed
qed

lemma SetRoles_result:
  assumes "SetRoles ok uid names db = (db1, Inr ())"
  shows "users db1 = users db \<and> roles db1 = roles db \<and>
    set (user_roles db1) = {p \<in> set (user_roles db). fst p \<noteq> uid} \<union> Pair uid ` set names"
proof -
  have "insert_roles uid names (db\<lparr>user_roles := filter (\<lambda>p. fst p \<noteq> uid) (user_roles db)\<rparr>) = Inr db1"
    using assms by (auto simp: SetRoles_def split: if_splits option.splits sum.splits)
  from insert_roles_result [OF this] show ?thesis by auto
qed

lemma UpdateRoles_ok:
  assumes "h_UpdateRoles H v r pid (Some names) w = (w', HOk ())"
  shows "\<not> is_self r pid \<and> (containsRole names ''admin'' \<longrightarrow> holds_admin r) \<and>
    (\<exists>db1. spelled_SetRoles H (ae_stmt v AdRoles) pid names (ad_db w) = (db1, Inr ()) \<and> ad_db w' = db1 \<and>
      (ah_sessions H \<longrightarrow> admin_RevokeAll H (ae_stmt v (AdRevoke pid)) pid (w\<lparr>ad_db := db1\<rparr>) = (w', True)))"
proof (cases "is_self r pid \<or> containsRole names ''admin'' \<and> \<not> holds_admin r")
  case True
  then show ?thesis using assms by (auto simp: h_UpdateRoles_def split: if_splits)
next
  case False
  obtain db1 res where s: "spelled_SetRoles H (ae_stmt v AdRoles) pid names (ad_db w) = (db1, res)" by (metis prod.exhaust)
  obtain w2 ok where ra: "admin_RevokeAll H (ae_stmt v (AdRevoke pid)) pid (w\<lparr>ad_db := db1\<rparr>) = (w2, ok)" by (metis prod.exhaust)
  have db2: "ad_db w2 = db1" using admin_RevokeAll_db [of H "ae_stmt v (AdRevoke pid)" pid "w\<lparr>ad_db := db1\<rparr>"] ra by simp
  show ?thesis
  proof (cases res)
    case (Inl e)
    then show ?thesis using assms False s by (cases e) (auto simp: h_UpdateRoles_def split: if_splits)
  next
    case (Inr u)
    then have "h_UpdateRoles H v r pid (Some names) w = (if ah_sessions H then (w2, if ok then HOk () else HErr 500 ''internal_error'') else (w\<lparr>ad_db := db1\<rparr>, HOk ()))"
      using False s ra by (simp add: h_UpdateRoles_def)
    then have "ad_db w' = db1" "ah_sessions H \<longrightarrow> w2 = w' \<and> ok" using assms db2 by (auto split: if_splits)
    then show ?thesis using False s ra Inr by auto
  qed
qed

text \<open>C38: a role change is exact, takes effect at once and gives the administrator role only for an administrator. When
  \<open>UpdateRoles\<close> succeeds, the user holds exactly the requested roles and everybody else what they held, the role admin was
  only requested by a holder of it, and no session of the user is left. The guard against changing one's own roles compares
  texts: a caller who spells the own id differently (another case, no hyphens) passes it, and the statement runs.\<close>

theorem role_change_guarded:
  assumes id: "ah_uuid H pid = Some uid"
  shows "(h_UpdateRoles H v r pid (Some names) w = (w', HOk ()) \<longrightarrow>
      (\<forall>n. (uid, n) \<in> set (user_roles (ad_db w')) \<longleftrightarrow> n \<in> set names) \<and>
      (\<forall>x n. x \<noteq> uid \<longrightarrow> ((x, n) \<in> set (user_roles (ad_db w')) \<longleftrightarrow> (x, n) \<in> set (user_roles (ad_db w)))) \<and>
      users (ad_db w') = users (ad_db w) \<and> (''admin'' \<in> set names \<longrightarrow> holds_admin r) \<and> \<not> is_self r pid \<and>
      (ah_sessions H \<longrightarrow> (\<forall>s\<in>set (rows (ad_sess w')). s_user s = uid \<longrightarrow> s_revoked s))) \<and>
    (\<forall>c db1. rq_claims r = Some c \<and> UserID c = uid \<and> pid \<noteq> uid \<and> (containsRole names ''admin'' \<longrightarrow> holds_admin r) \<and>
      SetRoles (ae_stmt v AdRoles) uid names (ad_db w) = (db1, Inr ()) \<longrightarrow>
      h_UpdateRoles H v r uid (Some names) w = (w, HErr 403 ''self_modification_forbidden'') \<and>
      ad_db (fst (h_UpdateRoles H v r pid (Some names) w)) = db1)"
proof (intro conjI impI allI)
  assume ok: "h_UpdateRoles H v r pid (Some names) w = (w', HOk ())"
  from UpdateRoles_ok [OF ok] obtain db1 where u: "\<not> is_self r pid" "containsRole names ''admin'' \<longrightarrow> holds_admin r"
    "SetRoles (ae_stmt v AdRoles) uid names (ad_db w) = (db1, Inr ())" "ad_db w' = db1"
    "ah_sessions H \<longrightarrow> admin_RevokeAll H (ae_stmt v (AdRevoke pid)) pid (w\<lparr>ad_db := db1\<rparr>) = (w', True)"
    using id by (auto simp: spelled_SetRoles_def)
  note res = SetRoles_result [OF u(3)]
  show "(uid, n) \<in> set (user_roles (ad_db w')) \<longleftrightarrow> n \<in> set names" for n using res u(4) by auto
  show "x \<noteq> uid \<Longrightarrow> (x, n) \<in> set (user_roles (ad_db w')) \<longleftrightarrow> (x, n) \<in> set (user_roles (ad_db w))" for x n using res u(4) by auto
  show "users (ad_db w') = users (ad_db w)" using res u(4) by simp
  show "\<not> is_self r pid" by (rule u(1))
  show "holds_admin r" if "''admin'' \<in> set names"   proof -
    have "EqualFold ''admin'' ''admin''" by simp
    with that have "containsRole names ''admin''" unfolding containsRole_def list_ex_iff by blast
    with u(2) show ?thesis by blast
  qed
  show "\<forall>s\<in>set (rows (ad_sess w')). s_user s = uid \<longrightarrow> s_revoked s" if "ah_sessions H"
    using admin_RevokeAll_sessions [OF _ id] u(5) that by blast
next
  fix c db1
  assume h: "rq_claims r = Some c \<and> UserID c = uid \<and> pid \<noteq> uid \<and> (containsRole names ''admin'' \<longrightarrow> holds_admin r) \<and>
      SetRoles (ae_stmt v AdRoles) uid names (ad_db w) = (db1, Inr ())"
  then show "h_UpdateRoles H v r uid (Some names) w = (w, HErr 403 ''self_modification_forbidden'')"
    by (simp add: h_UpdateRoles_def is_self_def)
  obtain w2 ok where ra: "admin_RevokeAll H (ae_stmt v (AdRevoke pid)) pid (w\<lparr>ad_db := db1\<rparr>) = (w2, ok)" by (metis prod.exhaust)
  have "ad_db w2 = db1" using admin_RevokeAll_db [of H "ae_stmt v (AdRevoke pid)" pid "w\<lparr>ad_db := db1\<rparr>"] ra by simp
  moreover have "spelled_SetRoles H (ae_stmt v AdRoles) pid names (ad_db w) = (db1, Inr ())" "\<not> is_self r pid"
    using h id by (auto simp: spelled_SetRoles_def is_self_def)
  ultimately show "ad_db (fst (h_UpdateRoles H v r pid (Some names) w)) = db1"
    using h ra by (auto simp: h_UpdateRoles_def)
qed


definition demo_admin :: "(unit mem_redis, unit, unit) admin_handler" where
  "demo_admin = \<lparr>c_rdb = None, c_settings = None, c_geoip = None, c_mailer = False, c_sha = bytes_of, ah_enc = None, ah_bcrypt = Some,
     ah_pw = \<lparr>pe_classes = (\<lambda>_. []), pe_sha1 = bytes_of, pe_range = (\<lambda>_. None)\<rparr>, ah_uuid = (\<lambda>s. Some (ToLower s)), ah_gouuid = demo_uuid,
     ah_sessions = True, ah_revoker = None, ah_mfa = False, ah_webauthn = False, ah_posture = False, ah_lockout = False\<rparr>"

definition demo_admin_env :: admin_env where
  "demo_admin_env = \<lparr>ae_stmt = (\<lambda>_. True), ae_time = 0, ae_dbtime = 0, ae_fresh = ''n''\<rparr>"

definition demo_admin_world :: "(unit mem_redis, unit) admin_world" where
  "demo_admin_world = \<lparr>w_rd = \<lparr>mem_kv = (\<lambda>_. None), mem_up = True\<rparr>, w_mail = [], ad_db = demo_users, ad_sess = \<lparr>rows = [], hub = []\<rparr>, ad_oidc = (), ad_mfa = Map.empty,
     ad_creds = [], ad_audit = []\<rparr>"

definition demo_admin_request :: http_request where
  "demo_admin_request = \<lparr>rq_method = ''PATCH'', rq_path = ''/api/v1/admin/users/A/roles'', rq_remote = '''', rq_headers = [], rq_cookies = [],
     rq_claims = Some (zero_claims\<lparr>UserID := ''a'', Roles := [''admin'']\<rparr>)\<rparr>"

theorem role_change_guarded_witness:
  "h_UpdateRoles demo_admin demo_admin_env demo_admin_request ''a'' (Some []) demo_admin_world = (demo_admin_world, HErr 403 ''self_modification_forbidden'') \<and>
   (''a'', ''admin'') \<notin> set (user_roles (ad_db (fst (h_UpdateRoles demo_admin demo_admin_env demo_admin_request ''A'' (Some []) demo_admin_world))))"
proof -
  have id: "ah_uuid demo_admin ''A'' = Some ''a''"
  proof -
    have "ToLower ''A'' = ''a''" by code_simp
    then show ?thesis by (simp add: demo_admin_def)
  qed
  have g: "guardLastAdmin ''a'' demo_users" by (simp add: guardLastAdmin_def demo_admins)
  obtain db1 where s: "SetRoles (ae_stmt demo_admin_env AdRoles) ''a'' [] (ad_db demo_admin_world) = (db1, Inr ())"
    by (simp add: SetRoles_def demo_admin_env_def demo_admin_world_def g)
  have "rq_claims demo_admin_request = Some (zero_claims\<lparr>UserID := ''a'', Roles := [''admin'']\<rparr>)" by (simp add: demo_admin_request_def)
  with role_change_guarded [OF id, of demo_admin_env demo_admin_request "[]" demo_admin_world] s
  have "h_UpdateRoles demo_admin demo_admin_env demo_admin_request ''a'' (Some []) demo_admin_world = (demo_admin_world, HErr 403 ''self_modification_forbidden'')"
    "ad_db (fst (h_UpdateRoles demo_admin demo_admin_env demo_admin_request ''A'' (Some []) demo_admin_world)) = db1"
    by (auto simp: containsRole_def)
  moreover have "(''a'', ''admin'') \<notin> set (user_roles db1)" using SetRoles_result [OF s] by auto
  ultimately show ?thesis by simp
qed

end
