(* ===== verification/Spec2Isabelle.thy ===== *)
theory Spec2Isabelle
  imports Redis_Server Access_Policy Session_Repo Auth_Service OIDC_Service Authenticate MFA_Handler Service_Account Settings Validation Passwd_Reset Resilient_Mailer
    WebAuthn
    Audit_Reports
    Audit_Middleware
    Admin_Handler
begin

text \<open>The verification library of the ZeroTrust authentication backend.\<close>

section \<open>Session replay and OIDC grants\<close>

text \<open>\<open>main.go\<close> registers the OIDC refresh token store as the revoker of the session repository.\<close>

definition oidc_revoker :: "('r, oidc_doc) redis \<Rightarrow> instant \<Rightarrow> string \<Rightarrow> 'r \<Rightarrow> 'r \<times> bool" where
  "oidc_revoker R now userID s = (case rt_RevokeAllForUser R now userID s of (s', Inl _) \<Rightarrow> (s', False) | (s', Inr _) \<Rightarrow> (s', True))"

text \<open>C1: a stolen refresh token ends everything of its user and nothing of anybody else. With the OIDC store wired as
  \<open>main.go\<close> wires it and Redis up, the replay of a rotated refresh token is refused; afterwards no refresh token of
  that user is accepted, no OIDC refresh grant of that user is left in any client's hands, and the session and
  OIDC refresh tokens of every other user are exactly as before.\<close>

theorem replay_ends_every_grant:
  assumes "oidc_redis R see up" "a_oidc A = Some (oidc_revoker R (e_now e))" "up (w_rd w)" "indexed (e_now e) (see (w_rd w) (e_now e))"
    and "wf_repo (w_sess w)" "r \<in> set (rows (w_sess w))" "s_hash r = hashToken (c_sha A) tok" "s_revoked r"
    and "s_reason r = Some ''rotation''" "last_active r \<le> e_sqlnow e - tokenReuseGrace" "s_user r \<noteq> ''''"
    and "e_ok e CallReuse" "e_ok e CallRevokeAll" "RefreshTokens A e tok ip ua info w = (w', res)"
  shows "res = Inl (ErrAuthToken ErrInvalidToken) \<and> wf_repo (w_sess w') \<and>
    (\<forall>t k. token_view (w_sess w') t k = (case token_view (w_sess w) t k of None \<Rightarrow> None
      | Some (u, x) \<Rightarrow> if u = s_user r then None else Some (u, x))) \<and>
    (\<forall>h. grants (see (w_rd w') (e_now e)) h = (case grants (see (w_rd w) (e_now e)) h of None \<Rightarrow> None
      | Some d \<Rightarrow> if rs_UserID d = s_user r then None else Some d)) \<and>
    indexed (e_now e) (see (w_rd w') (e_now e))"
proof -
  from refresh_replay [OF assms(5-14)] obtain s' rd and r' :: "unit repo_error + unit" where
    ra: "RevokeAllForUser True (a_oidc A) (s_user r) (w_sess w, w_rd w) = ((s', rd), r')" and
    w': "w' = w\<lparr>w_sess := s', w_rd := rd\<rparr>" "res = Inl (ErrAuthToken ErrInvalidToken)" by blast
  from oidc_redis.RevokeAll_refines [OF assms(1,3,4)] obtain s2 where
    s2: "rt_RevokeAllForUser R (e_now e) (s_user r) (w_rd w) = (s2, Inr ())" "up s2" "indexed (e_now e) (see s2 (e_now e))"
    "grants (see s2 (e_now e)) = restrict (\<lambda>h. \<not> owned_by (see (w_rd w) (e_now e)) (s_user r) h) (grants (see (w_rd w) (e_now e)))"
    "\<And>g. see s2 (e_now e) (rt_usedKey g) = see (w_rd w) (e_now e) (rt_usedKey g)" by blast
  have "rd = s2" using ra s2(1) assms(2) by (simp add: RevokeAllForUser_def oidc_revoker_def Let_def)
  then have "grants (see (w_rd w') (e_now e)) h = (case grants (see (w_rd w) (e_now e)) h of None \<Rightarrow> None
      | Some d \<Rightarrow> if rs_UserID d = s_user r then None else Some d)" for h
    using w'(1) s2(4) by (simp add: restrict_def owned_by_def split: option.splits)
  with w' \<open>rd = s2\<close> s2(3) RevokeAllForUser_view [OF assms(5) ra] show ?thesis by simp
qed

definition wired_auth :: "(oidc_doc mem_redis, nat, nat, sym_token, unit, unit) auth_service" where
  "wired_auth = \<lparr>c_rdb = None, c_settings = None, c_geoip = None, c_mailer = False, c_sha = bytes_of,
     a_jwt = sym_jwt, a_ks = demo_keys, a_enc = None, a_bcrypt = (\<lambda>h p. h = p), a_dummy = ''x'', a_mfa = None,
     a_webauthn = None, a_sa = None, a_oidc = Some (oidc_revoker mem_server 0)\<rparr>"

definition stolen_row :: session_row where
  "stolen_row = demo_session\<lparr>s_user := rs_UserID demo_grant, s_revoked := True, s_reason := Some ''rotation''\<rparr>"

definition wired_world :: "oidc_doc mem_redis auth_world" where
  "wired_world = \<lparr>w_rd = demo_issued, w_mail = [], w_sess = \<lparr>rows = [stolen_row], hub = []\<rparr>, w_mfa = (\<lambda>_. None), w_users = demo_users\<rparr>"

theorem replay_ends_every_grant_witness:
  "grants (mem_see (w_rd wired_world) 0) (rt_hash bytes_of demo_tok) = Some demo_grant \<and>
   grants (mem_see (w_rd (fst (RefreshTokens wired_auth (demo_env\<lparr>e_sqlnow := go_minute\<rparr>) (hex_encode [2]) '''' '''' [] wired_world))) 0)
     (rt_hash bytes_of demo_tok) = None"
proof -
  let ?e = "demo_env\<lparr>e_sqlnow := go_minute\<rparr>"
  have O: "a_oidc wired_auth = Some (oidc_revoker mem_server (e_now ?e))" by (simp add: wired_auth_def)
  have up: "mem_up (w_rd wired_world)" "indexed (e_now ?e) (mem_see (w_rd wired_world) (e_now ?e))"
    by (simp_all add: wired_world_def demo_save1)
  have wf: "wf_repo (w_sess wired_world)" by (simp add: wired_world_def wf_repo_def stolen_row_def)
  have row: "stolen_row \<in> set (rows (w_sess wired_world))" "s_hash stolen_row = hashToken (c_sha wired_auth) (hex_encode [2])"
    "s_revoked stolen_row" "s_reason stolen_row = Some ''rotation''" "last_active stolen_row \<le> e_sqlnow ?e - tokenReuseGrace"
    "s_user stolen_row \<noteq> ''''" "e_ok ?e CallReuse" "e_ok ?e CallRevokeAll"
    by (simp_all add: wired_world_def stolen_row_def wired_auth_def last_active_def demo_grant_def)
  have g: "grants (mem_see (w_rd wired_world) 0) (rt_hash bytes_of demo_tok) = Some demo_grant"
    by (simp add: wired_world_def demo_save1)
  from replay_ends_every_grant [OF memo.oidc_redis_axioms O up wf row surjective_pairing] g
  show ?thesis by (simp add: stolen_row_def)
qed

section \<open>Ending the sessions of a user\<close>

text \<open>C40: an administrator's forced sign-out can leave OIDC grants alive. The handler passes the user id of the path on as it is
  spelled. The session rows are found by value, the OIDC store looks the user up by text. If the path spells the id other
  than canonically, the answer is success and every session of the user is revoked, but every OIDC refresh grant, those of the
  user included, is left as it was.\<close>

theorem forced_signout_misses_grants:
  assumes "oidc_redis R see up" "ah_revoker H = Some (oidc_revoker R now)" "up (ad_oidc w)" "indexed now (see (ad_oidc w) now)"
    and "ah_sessions H" "ae_stmt v (AdRevoke pid)" "ah_uuid H pid = Some uid"
    and canonical: "\<forall>h d. grants (see (ad_oidc w) now) h = Some d \<longrightarrow> ah_uuid H (rs_UserID d) = Some (rs_UserID d)" "pid \<noteq> uid"
    and run: "h_RevokeAllUserSessions H v pid w = (w', res)"
  shows "res = HOk () \<and> (\<forall>s\<in>set (rows (ad_sess w')). s_user s = uid \<longrightarrow> s_revoked s) \<and>
    grants (see (ad_oidc w') now) = grants (see (ad_oidc w) now)"
proof -
  from oidc_redis.RevokeAll_refines [OF assms(1,3,4)] obtain s2 where
    s2: "rt_RevokeAllForUser R now pid (ad_oidc w) = (s2, Inr ())"
    "grants (see s2 now) = restrict (\<lambda>h. \<not> owned_by (see (ad_oidc w) now) pid h) (grants (see (ad_oidc w) now))" by blast
  obtain w2 ok where ra: "admin_RevokeAll H True pid w = (w2, ok)" by (metis prod.exhaust)
  have ok: "ok \<and> ad_oidc w2 = s2"
    using ra assms(2,7) s2(1)
    by (auto simp: admin_RevokeAll_def spelled_RevokeAll_def spelled_def RevokeAllForUser_def oidc_revoker_def Let_def)
  have w': "w' = w2" "res = HOk ()" using run ra ok assms(5,6) by (auto simp: h_RevokeAllUserSessions_def)
  have "\<not> owned_by (see (ad_oidc w) now) pid h" if "grants (see (ad_oidc w) now) h = Some d" for h d
    using that canonical assms(7) by (fastforce simp: owned_by_def)
  then have "grants (see s2 now) = grants (see (ad_oidc w) now)"
    unfolding s2(2) by (force simp: restrict_def fun_eq_iff)
  with ok w' admin_RevokeAll_sessions [of H True pid w w2 uid] ra assms(7) show ?thesis by auto
qed

definition wired_admin :: "(oidc_doc mem_redis, unit, oidc_doc mem_redis) admin_handler" where
  "wired_admin = \<lparr>c_rdb = None, c_settings = None, c_geoip = None, c_mailer = False, c_sha = bytes_of, ah_enc = None, ah_bcrypt = Some,
     ah_pw = \<lparr>pe_classes = (\<lambda>_. []), pe_sha1 = bytes_of, pe_range = (\<lambda>_. None)\<rparr>, ah_uuid = (\<lambda>s. Some (ToLower s)), ah_gouuid = demo_uuid,
     ah_sessions = True, ah_revoker = Some (oidc_revoker mem_server 0), ah_mfa = False, ah_webauthn = False, ah_posture = False, ah_lockout = False\<rparr>"

definition wired_admin_world :: "(oidc_doc mem_redis, oidc_doc mem_redis) admin_world" where
  "wired_admin_world = \<lparr>w_rd = empty_oidc, w_mail = [], ad_db = demo_users, ad_sess = \<lparr>rows = [stolen_row\<lparr>s_revoked := False\<rparr>], hub = []\<rparr>,
     ad_oidc = demo_issued, ad_mfa = Map.empty, ad_creds = [], ad_audit = []\<rparr>"

theorem forced_signout_misses_grants_witness:
  "\<exists>w' :: (oidc_doc mem_redis, oidc_doc mem_redis) admin_world.
     h_RevokeAllUserSessions wired_admin demo_admin_env ''A'' wired_admin_world = (w', HOk ()) \<and>
     filter (\<lambda>s. s_user s = rs_UserID demo_grant \<and> \<not> s_revoked s) (rows (ad_sess w')) = [] \<and>
     grants (mem_see (ad_oidc w') 0) (rt_hash bytes_of demo_tok) = Some demo_grant"
proof -
  have lower: "ToLower ''A'' = ''a''" "ToLower ''a'' = ''a''" by code_simp+
  obtain w' res where run: "h_RevokeAllUserSessions wired_admin demo_admin_env ''A'' wired_admin_world = (w', res)" by (metis prod.exhaust)
  have H: "ah_revoker wired_admin = Some (oidc_revoker mem_server 0)" "ah_sessions wired_admin" "ah_uuid wired_admin ''A'' = Some ''a''"
    "ah_uuid wired_admin ''a'' = Some ''a''" "ae_stmt demo_admin_env (AdRevoke ''A'')"
    by (simp_all add: wired_admin_def demo_admin_env_def lower)
  have S: "mem_up (ad_oidc wired_admin_world)" "indexed 0 (mem_see (ad_oidc wired_admin_world) 0)"
    and g: "grants (mem_see (ad_oidc wired_admin_world) 0) = [rt_hash bytes_of demo_tok \<mapsto> demo_grant]"
    by (simp_all add: wired_admin_world_def demo_save1)
  have u: "rs_UserID demo_grant = ''a''" by (simp add: demo_grant_def)
  have canon: "\<forall>h d. grants (mem_see (ad_oidc wired_admin_world) 0) h = Some d \<longrightarrow> ah_uuid wired_admin (rs_UserID d) = Some (rs_UserID d)"
    by (simp add: g u H(4))
  have "''A'' \<noteq> ''a''" by simp
  from forced_signout_misses_grants [OF memo.oidc_redis_axioms H(1) S H(2,5,3) canon this run] run g u show ?thesis by (auto simp: filter_empty_conv)
qed

end
